theory Spec2Isabelle
  imports Main "HOL-Library.Word" "HOL-Library.AList" "HOL-Library.Signed_Division"
begin

section \<open>Common types\<close>

text \<open>
  Integers of the command language (\<^verbatim>\<open>tecoInt\<close>, \<^verbatim>\<open>gint64\<close>) are 64-bit two's
  complement values with wrap-around. Strings are byte sequences; a \<^verbatim>\<open>gchar *\<close> that may
  be \<^verbatim>\<open>NULL\<close> is an \<open>option\<close>. A C string ends at its first NUL byte.
\<close>

type_synonym tecoInt = "64 word"
type_synonym gint64 = "64 word"

text \<open>
  What the C++ code throws: the error classes used in parser.cpp and qbuffers.cpp, and
  \<^verbatim>\<open>Return\<close>, which carries the number of arguments of a macro return. A function that
  may throw returns the exception together with the state at the throw, or its result
  together with the state after the call.
\<close>

datatype exn =
    Error string
  | SyntaxError char
  | MoveError string
  | RangeError string
  | ArgExpectedError string
  | Return nat

definition c_str :: "string \<Rightarrow> string" where
  "c_str s = takeWhile (\<lambda>c. c \<noteq> CHR 0x00) s"

text \<open>
  The condition booleans (sciteco.h is not part of the sources).
  Modelled from the spec: booleans use the TECO convention, negative = truth/success,
  non-negative = falsehood/failure; \<open>IS_FAILURE(b) := b \<ge> 0\<close>. The comment on the
  \<^verbatim>\<open>;\<close> command in parser.cpp says the same: failure is a non-negative value, success a
  negative value. \<open>SUCCESS\<close> and \<open>FAILURE\<close> are the canonical values -1 and 0.
\<close>

definition SUCCESS :: tecoInt where "SUCCESS = - 1"
definition FAILURE :: tecoInt where "FAILURE = 0"

definition IS_SUCCESS :: "tecoInt \<Rightarrow> bool" where
  "IS_SUCCESS x = (sint x < 0)"

definition IS_FAILURE :: "tecoInt \<Rightarrow> bool" where
  "IS_FAILURE x = (\<not> IS_SUCCESS x)"

definition TECO_BOOL :: "bool \<Rightarrow> tecoInt" where
  "TECO_BOOL b = (if b then SUCCESS else FAILURE)"

section \<open>The expression stack\<close>

text \<open>
  expressions.cpp and expressions.h are not part of the sources; parser.cpp and
  qbuffers.cpp only call into them.
  Modelled from the spec: the expression stack is a stack of entries, each either an
  integer or an operator/marker from ADD, SUB, MUL, DIV, MOD, POW, AND, OR, XOR, NEW,
  LOOP, BRACE. \<open>args()\<close> returns the count of contiguous integers above the top-most
  barrier. \<open>brace_level\<close> counts open braces. \<open>eval()\<close> collapses all operators above
  the top barrier. \<open>push_calc(op)\<close> evaluates pending operators under the top-of-stack
  barrier and appends \<open>op\<close>. \<open>pop_num_calc\<close> returns the top integer, substituting an
  implied value if the stack is empty above the barrier (the callers in parser.cpp pass
  the implied value as second argument; without arguments it is the pending sign, so
  that 1 or -1 is implied). \<open>brace_open\<close>/\<open>brace_close\<close> insert and remove BRACE
  markers. A unary minus negates the pending sign, which the next pushed number absorbs.
  The head of the list is the top of the stack. An operator that still waits for its right
  operand stays on the stack, as arithmetic written infix needs.
\<close>

datatype Operator =
    OP_ADD | OP_SUB | OP_MUL | OP_DIV | OP_MOD | OP_POW | OP_AND | OP_OR | OP_XOR
  | OP_NEW | OP_LOOP | OP_BRACE

datatype entry = Num tecoInt | Op Operator

record Expressions =
  entries :: "entry list"
  num_sign :: int
  brace_level :: nat
  radix :: tecoInt

fun is_number :: "entry \<Rightarrow> bool" where
  "is_number (Num v) = True"
| "is_number (Op op) = False"

fun is_marker :: "Operator \<Rightarrow> bool" where
  "is_marker OP_NEW = True"
| "is_marker OP_LOOP = True"
| "is_marker OP_BRACE = True"
| "is_marker op = False"

definition args :: "Expressions \<Rightarrow> nat" where
  "args e = length (takeWhile is_number (entries e))"

fun calc :: "Operator \<Rightarrow> tecoInt \<Rightarrow> tecoInt \<Rightarrow> exn + tecoInt" where
  "calc OP_ADD l r = Inr (l + r)"
| "calc OP_SUB l r = Inr (l - r)"
| "calc OP_MUL l r = Inr (l * r)"
| "calc OP_DIV l r = (if r = 0 then Inl (Error ''Division by zero'') else Inr (word_of_int (sint l sdiv sint r)))"
| "calc OP_MOD l r = (if r = 0 then Inl (Error ''Remainder of division by zero'')
                      else Inr (word_of_int (sint l smod sint r)))"
| "calc OP_POW l r = Inr (l ^ unat r)"
| "calc OP_AND l r = Inr (and l r)"
| "calc OP_OR l r = Inr (or l r)"
| "calc OP_XOR l r = Inr (xor l r)"
| "calc op l r = Inr r"

fun collapse :: "entry list \<Rightarrow> exn + entry list" where
  "collapse (Num r # Op op # Num l # rest) =
     (if is_marker op then Inr (Num r # Op op # Num l # rest)
      else case calc op l r of
             Inl e \<Rightarrow> Inl e
           | Inr v \<Rightarrow> collapse (Num v # rest))"
| "collapse es = Inr es"

definition eval :: "Expressions \<Rightarrow> exn + Expressions" where
  "eval e = (case collapse (entries e) of
               Inl err \<Rightarrow> Inl err
             | Inr es \<Rightarrow> Inr (e\<lparr>entries := es\<rparr>))"

definition push :: "tecoInt \<Rightarrow> Expressions \<Rightarrow> Expressions" where
  "push v e = e\<lparr>entries := Num (if num_sign e < 0 then - v else v) # entries e,
                num_sign := 1\<rparr>"

definition push_op :: "Operator \<Rightarrow> Expressions \<Rightarrow> Expressions" where
  "push_op op e = e\<lparr>entries := Op op # entries e\<rparr>"

definition push_calc :: "Operator \<Rightarrow> Expressions \<Rightarrow> exn + Expressions" where
  "push_calc op e = (case eval e of Inl err \<Rightarrow> Inl err | Inr e' \<Rightarrow> Inr (push_op op e'))"

definition pop_num_calc :: "tecoInt \<Rightarrow> Expressions \<Rightarrow> exn + tecoInt \<times> Expressions" where
  "pop_num_calc imply e =
     (case eval e of
        Inl err \<Rightarrow> Inl err
      | Inr e' \<Rightarrow>
          (case entries e' of
             Num v # rest \<Rightarrow> Inr (v, e'\<lparr>entries := rest, num_sign := 1\<rparr>)
           | _ \<Rightarrow> Inr (imply, e'\<lparr>num_sign := 1\<rparr>)))"

definition pop_num_calc_sign :: "Expressions \<Rightarrow> exn + tecoInt \<times> Expressions" where
  \<comment> \<open>\<^verbatim>\<open>pop_num_calc()\<close> without arguments\<close>
  "pop_num_calc_sign e = pop_num_calc (if num_sign e < 0 then - 1 else 1) e"

definition discard_args :: "Expressions \<Rightarrow> exn + Expressions" where
  "discard_args e =
     (case eval e of
        Inl err \<Rightarrow> Inl err
      | Inr e' \<Rightarrow> Inr (e'\<lparr>entries := dropWhile is_number (entries e')\<rparr>))"

definition brace_open :: "Expressions \<Rightarrow> Expressions" where
  "brace_open e = e\<lparr>entries := Op OP_BRACE # entries e, brace_level := Suc (brace_level e)\<rparr>"

definition brace_close :: "Expressions \<Rightarrow> exn + Expressions" where
  "brace_close e =
     (if brace_level e = 0 then Inl (Error ''Missing opening brace'')
      else case eval e of
             Inl err \<Rightarrow> Inl err
           | Inr e' \<Rightarrow> Inr (e'\<lparr>entries := remove1 (Op OP_BRACE) (entries e'),
                               brace_level := brace_level e' - 1\<rparr>))"

definition set_num_sign :: "int \<Rightarrow> Expressions \<Rightarrow> Expressions" where
  "set_num_sign sg e = e\<lparr>num_sign := sg\<rparr>"

definition add_digit :: "char \<Rightarrow> Expressions \<Rightarrow> Expressions" where
  \<comment> \<open>\<open>stack_top := stack_top*radix + digit\<close>, 0 implied\<close>
  "add_digit c e =
     (let d = (of_nat (of_char c - 48) :: tecoInt)
      in case entries e of
           Num n # rest \<Rightarrow> push (n * radix e + d) (e\<lparr>entries := rest\<rparr>)
         | _ \<Rightarrow> push d e)"


section \<open>The interpreter state\<close>

subsection \<open>The editor component\<close>

text \<open>
  Scintilla documents are referred to by handles (\<^verbatim>\<open>QRegisterData::document *\<close>),
  modelled as natural numbers; the editor component owns their text. The view shows one
  document and has a caret position in it. Only the messages the modelled code sends are
  given, with Scintilla's documented meaning.
\<close>

type_synonym document = nat

record View =
  docs :: "(document \<times> string) list"
  doc_pointer :: document
  current_pos :: int

definition doc_text :: "View \<Rightarrow> string" where
  "doc_text v = (case map_of (docs v) (doc_pointer v) of None \<Rightarrow> [] | Some t \<Rightarrow> t)"

definition SCI_GETCURRENTPOS :: "View \<Rightarrow> int" where
  "SCI_GETCURRENTPOS v = current_pos v"

definition SCI_GETLENGTH :: "View \<Rightarrow> int" where
  "SCI_GETLENGTH v = int (length (doc_text v))"

definition SCI_GOTOPOS :: "int \<Rightarrow> View \<Rightarrow> View" where
  \<comment> \<open>Scintilla clamps the caret into the document.\<close>
  "SCI_GOTOPOS p v = v\<lparr>current_pos := max 0 (min p (SCI_GETLENGTH v))\<rparr>"

definition SCI_SETDOCPOINTER :: "document \<Rightarrow> View \<Rightarrow> View" where
  "SCI_SETDOCPOINTER d v = v\<lparr>doc_pointer := d, current_pos := 0\<rparr>"

definition SCI_SETTEXT :: "string \<Rightarrow> View \<Rightarrow> View" where
  \<comment> \<open>the argument is read as a C string\<close>
  "SCI_SETTEXT s v =
     v\<lparr>docs := AList.update (doc_pointer v) (c_str s) (docs v), current_pos := 0\<rparr>"

definition SCI_GETTEXT :: "int \<Rightarrow> View \<Rightarrow> string" where
  \<comment> \<open>copies at most \<open>n - 1\<close> bytes into the caller's buffer\<close>
  "SCI_GETTEXT n v = take (nat (n - 1)) (doc_text v)"

definition SCI_CREATEDOCUMENT :: "View \<Rightarrow> document \<times> View" where
  \<comment> \<open>a new empty document under a handle not in use\<close>
  "SCI_CREATEDOCUMENT v =
     (let d = Suc (fold max (map fst (docs v)) 0)
      in (d, v\<lparr>docs := (d, []) # docs v\<rparr>))"

subsection \<open>The file system\<close>

text \<open>
  The regular files, keyed by absolute path, the working directory, and the paths the
  process may neither create, replace nor rename (so that \<^verbatim>\<open>g_rename\<close> and
  \<^verbatim>\<open>g_file_set_contents\<close> can fail). Paths have no symbolic links and no \<open>.\<close> or
  \<open>..\<close> components.
\<close>

record FileSystem =
  files :: "(string \<times> string) list"
  cwd :: string
  readonly :: "string list"

definition g_path_is_absolute :: "string \<Rightarrow> bool" where
  "g_path_is_absolute p = (case p of [] \<Rightarrow> False | c # _ \<Rightarrow> c = CHR ''/'')"

definition g_build_filename :: "string \<Rightarrow> string \<Rightarrow> string" where
  "g_build_filename d b = (if d \<noteq> [] \<and> last d = CHR ''/'' then d @ b else d @ ''/'' @ b)"

definition g_path_get_basename :: "string \<Rightarrow> string" where
  "g_path_get_basename p = rev (takeWhile (\<lambda>c. c \<noteq> CHR ''/'') (rev p))"

definition g_path_get_dirname :: "string \<Rightarrow> string" where
  "g_path_get_dirname p =
     (if CHR ''/'' \<notin> set p then ''.''
      else let d = rev (drop 1 (dropWhile (\<lambda>c. c \<noteq> CHR ''/'') (rev p)))
           in if d = [] then ''/'' else d)"

definition abs_path :: "FileSystem \<Rightarrow> string \<Rightarrow> string" where
  "abs_path f p = (if g_path_is_absolute p then p else g_build_filename (cwd f) p)"

definition is_regular :: "FileSystem \<Rightarrow> string \<Rightarrow> bool" where
  \<comment> \<open>\<^verbatim>\<open>g_file_test(path, G_FILE_TEST_IS_REGULAR)\<close>\<close>
  "is_regular f p = (map_of (files f) (abs_path f p) \<noteq> None)"

definition realpath :: "FileSystem \<Rightarrow> string \<Rightarrow> string option" where
  "realpath f p = (if is_regular f p then Some (abs_path f p) else None)"

definition g_rename :: "string \<Rightarrow> string \<Rightarrow> FileSystem \<Rightarrow> bool \<times> FileSystem" where
  \<comment> \<open>the flag is true on success (\<^verbatim>\<open>g_rename\<close> itself returns 0 then)\<close>
  "g_rename old new f =
     (case map_of (files f) (abs_path f old) of
        None \<Rightarrow> (False, f)
      | Some content \<Rightarrow>
          if abs_path f old \<in> set (readonly f) \<or> abs_path f new \<in> set (readonly f)
          then (False, f)
          else (True, f\<lparr>files := AList.update (abs_path f new) content
                                    (AList.delete (abs_path f old) (files f))\<rparr>))"

definition g_file_set_contents :: "string \<Rightarrow> string \<Rightarrow> FileSystem \<Rightarrow> bool \<times> FileSystem" where
  "g_file_set_contents p content f =
     (if abs_path f p \<in> set (readonly f) then (False, f)
      else (True, f\<lparr>files := AList.update (abs_path f p) content (files f)\<rparr>))"

definition g_unlink :: "string \<Rightarrow> FileSystem \<Rightarrow> FileSystem" where
  "g_unlink p f =
     (if abs_path f p \<in> set (readonly f) then f
      else f\<lparr>files := AList.delete (abs_path f p) (files f)\<rparr>)"

text \<open>\<^verbatim>\<open>get_absolute_path\<close>, the branch for UNIX.\<close>

definition get_absolute_path :: "FileSystem \<Rightarrow> string option \<Rightarrow> string option" where
  "get_absolute_path f path =
     (case path of
        None \<Rightarrow> None
      | Some p \<Rightarrow>
          (case realpath f p of
             None \<Rightarrow> if g_path_is_absolute p then Some p
                     else Some (g_build_filename (cwd f) p)
           | Some buf \<Rightarrow> Some buf))"

subsection \<open>Registers, buffers, loops, parser states and the undo journal\<close>

record QRegisterData =
  integer :: gint64
  string :: "document option"
  dot :: int
  must_undo :: bool

record Buffer =
  filename :: "string option"
  buf_dot :: int
  dirty :: bool
  savepoint_id :: int
  buf_doc :: document

record LoopContext =
  counter :: tecoInt
  pc :: int
  pass_through :: bool

datatype Mode = MODE_NORMAL | MODE_PARSE_ONLY_LOOP | MODE_PARSE_ONLY_COND

text \<open>The parser states of \<^verbatim>\<open>namespace States\<close> that the transition tables in parser.cpp name.\<close>

datatype State =
    start | control | ascii | escape | fcommand | changedir | condcommand | ecommand
  | insert_building | insert_indent | label | gotocmd | gethelp | search | searchall
  | searchkill | searchdelete | replace | replacedefault | save_cmdline
  | pushqreg | popqreg | getqregstring | queryqreg | setqreginteger | increaseqreg
  | macro | copytoqreg | ctlucommand | editfile | savefile | epctcommand
  | executecommand | egcommand | insert_nobuilding | macro_file | glob_pattern
  | scintilla_symbols | eqcommand | eucommand

text \<open>
  The undo journal (undo.h is not part of the sources).
  Modelled from the spec: the journal is a LIFO stack of reversal tokens with an
  \<open>enabled\<close> flag; when it is off, all push operations are no-ops. A \<open>var\<close> token
  snapshots an old value and on execute writes it back; a \<open>msg\<close> token replays an
  editor message; \<open>restore_savepoint(path, buffer)\<close> renames a savepoint file back;
  \<open>remove_file(path)\<close> unlinks a file. Registers are named, buffers are referred to by
  their position in the ring.
\<close>

datatype undo_token =
    UndoVarState State
  | UndoVarMode Mode
  | UndoVarColon bool
  | UndoVarAt bool
  | UndoVarNestLevel int
  | UndoVarSkipElse bool
  | UndoLoopPop
  | UndoLoopPush LoopContext
  | UndoVarCounter tecoInt
  | UndoMsgGotoPos int
  | UndoMsgSetDocPointer document
  | UndoVarInteger string gint64
  | UndoVarString string "document option"
  | UndoVarEntryString "document option"
  | UndoVarDot string int
  | UndoTokenPush QRegisterData
  | UndoTokenPop
  | UndoVarRingCurrent "nat option"
  | UndoVarQRegCurrent "string option"
  | UndoInfoUpdate
  | UndoVarDirty nat bool
  | UndoStrFilename nat "string option"
  | UndoTokenRestoreSavePoint string nat
  | UndoTokenRemoveFile string

record UndoStack =
  enabled :: bool
  tokens :: "undo_token list"

definition undo_push :: "undo_token \<Rightarrow> UndoStack \<Rightarrow> UndoStack" where
  "undo_push t u = (if enabled u then u\<lparr>tokens := t # tokens u\<rparr> else u)"

text \<open>
  The mutable globals of parser.cpp and qbuffers.cpp as the fields of one value:
  \<^verbatim>\<open>States::current\<close>, \<^verbatim>\<open>mode\<close>, \<^verbatim>\<open>macro_pc\<close>, \<^verbatim>\<open>Modifiers::colon\<close> and
  \<^verbatim>\<open>Modifiers::at\<close>, \<^verbatim>\<open>skip_else\<close>, \<^verbatim>\<open>nest_level\<close>, \<^verbatim>\<open>loop_stack\<close> (its head is the
  top frame), \<^verbatim>\<open>loop_stack_fp\<close>, \<^verbatim>\<open>expressions\<close>, \<^verbatim>\<open>undo\<close>, the editor component,
  \<^verbatim>\<open>QRegisters::globals\<close> (by name), \<^verbatim>\<open>QRegisters::current\<close>, \<^verbatim>\<open>QRegisters::stack\<close>,
  the \<^verbatim>\<open>ring\<close> and \<^verbatim>\<open>ring.current\<close>, the flag \<^verbatim>\<open>ED_HOOKS\<close> of \<^verbatim>\<open>Flags::ed\<close>,
  \<^verbatim>\<open>StateEditFile::allowFilename\<close>, the file system, \<^verbatim>\<open>Goto::skip_label\<close>, the
  interrupt flag that \<^verbatim>\<open>interface.is_interrupted()\<close> reads and the command line typed
  so far (\<^verbatim>\<open>cmdline\<close>).
\<close>

record machine =
  current :: State
  mode :: Mode
  macro_pc :: int
  colon :: bool
  at :: bool
  skip_else :: bool
  nest_level :: int
  loop_stack :: "LoopContext list"
  loop_stack_fp :: nat
  expressions :: Expressions
  undo :: UndoStack
  view :: View
  globals :: "string \<Rightarrow> QRegisterData"
  qreg_current :: "string option"
  qreg_stack :: "QRegisterData list"
  ring :: "Buffer list"
  ring_current :: "nat option"
  ed_hooks :: bool
  allowFilename :: bool
  fs :: FileSystem
  skip_label :: "string option"
  interrupted :: bool
  cmdline :: string

definition undo_push_m :: "undo_token \<Rightarrow> machine \<Rightarrow> machine" where
  "undo_push_m t m = m\<lparr>undo := undo_push t (undo m)\<rparr>"

definition current_buffer :: "machine \<Rightarrow> Buffer option" where
  "current_buffer m =
     (case ring_current m of
        None \<Rightarrow> None
      | Some i \<Rightarrow> if i < length (ring m) then Some (ring m ! i) else None)"


section \<open>qbuffers.cpp\<close>

subsection \<open>Editing registers and buffers\<close>

text \<open>
  \<^verbatim>\<open>QRegisterData::get_document\<close> is an inline member of qbuffers.h, which is not part of
  the sources.
  Modelled from the spec: a register is a named slot carrying an integer value and,
  lazily, a Document (its "string" payload); a register either has no payload or owns
  exactly one Document.
\<close>

definition get_document :: "string \<Rightarrow> machine \<Rightarrow> document \<times> machine" where
  "get_document r m =
     (case string (globals m r) of
        Some d \<Rightarrow> (d, m)
      | None \<Rightarrow>
          (case SCI_CREATEDOCUMENT (view m) of
             (d, v) \<Rightarrow>
               (d, m\<lparr>view := v,
                      globals := (globals m)(r := (globals m r)\<lparr>string := Some d\<rparr>)\<rparr>)))"

definition QRegisterData_edit :: "string \<Rightarrow> machine \<Rightarrow> machine" where
  "QRegisterData_edit r m =
     (case get_document r m of
        (d, m1) \<Rightarrow>
          m1\<lparr>view := SCI_GOTOPOS (dot (globals m1 r)) (SCI_SETDOCPOINTER d (view m1))\<rparr>)"

definition QRegister_edit :: "string \<Rightarrow> machine \<Rightarrow> machine" where
  \<comment> \<open>\<^verbatim>\<open>interface.info_update(this)\<close> only refreshes the display\<close>
  "QRegister_edit r m = QRegisterData_edit r m"

text \<open>
  \<^verbatim>\<open>Buffer::edit\<close>, \<^verbatim>\<open>Buffer::undo_edit\<close> and \<^verbatim>\<open>Ring::undo_edit\<close> are inline members of
  qbuffers.h, which is not part of the sources.
  Modelled from the spec: \<open>edit(register)\<close> installs the register's Document into the
  editor widget; \<open>edit(buffer)\<close> is symmetric. Switching the current Document is itself
  an undoable operation.
\<close>

definition Buffer_edit :: "nat \<Rightarrow> machine \<Rightarrow> machine" where
  "Buffer_edit i m =
     (if i < length (ring m)
      then m\<lparr>view := SCI_GOTOPOS (buf_dot (ring m ! i))
                        (SCI_SETDOCPOINTER (buf_doc (ring m ! i)) (view m))\<rparr>
      else m)"

definition Buffer_undo_edit :: "nat \<Rightarrow> machine \<Rightarrow> machine" where
  "Buffer_undo_edit i m =
     (if i < length (ring m)
      then undo_push_m (UndoMsgSetDocPointer (buf_doc (ring m ! i)))
             (undo_push_m (UndoMsgGotoPos (buf_dot (ring m ! i)))
                (undo_push_m UndoInfoUpdate m))
      else m)"

definition Ring_undo_edit :: "machine \<Rightarrow> machine" where
  "Ring_undo_edit m =
     (case ring_current m of
        None \<Rightarrow> m
      | Some i \<Rightarrow>
          (let m1 = m\<lparr>ring := (ring m)[i := (ring m ! i)\<lparr>buf_dot := SCI_GETCURRENTPOS (view m)\<rparr>]\<rparr>;
               m2 = undo_push_m (UndoVarRingCurrent (ring_current m1)) m1
           in Buffer_undo_edit i m2))"

definition current_save_dot :: "machine \<Rightarrow> machine" where
  "current_save_dot m =
     (let d = SCI_GETCURRENTPOS (view m)
      in case ring_current m of
           Some i \<Rightarrow> m\<lparr>ring := (ring m)[i := (ring m ! i)\<lparr>buf_dot := d\<rparr>]\<rparr>
         | None \<Rightarrow>
             (case qreg_current m of
                Some q \<Rightarrow> m\<lparr>globals := (globals m)(q := (globals m q)\<lparr>dot := d\<rparr>)\<rparr>
              | None \<Rightarrow> m))"

definition current_edit :: "machine \<Rightarrow> machine" where
  "current_edit m =
     (case ring_current m of
        Some i \<Rightarrow> Buffer_edit i m
      | None \<Rightarrow>
          (case qreg_current m of
             Some q \<Rightarrow> QRegister_edit q m
           | None \<Rightarrow> m))"

text \<open>\<^verbatim>\<open>QRegisterData::set_string\<close> and \<^verbatim>\<open>QRegisterData::get_string\<close> on the register \<open>r\<close>.\<close>

definition set_string :: "string \<Rightarrow> string option \<Rightarrow> machine \<Rightarrow> machine" where
  "set_string r str m =
     (let m1 = QRegister_edit r m;
          m2 = m1\<lparr>globals := (globals m1)(r := (globals m1 r)\<lparr>dot := 0\<rparr>)\<rparr>;
          m3 = m2\<lparr>view := SCI_SETTEXT (case str of None \<Rightarrow> [] | Some t \<Rightarrow> t) (view m2)\<rparr>
      in current_edit m3)"

definition get_string :: "string \<Rightarrow> machine \<Rightarrow> string \<times> machine" where
  "get_string r m =
     (let m1 = current_save_dot m;
          m2 = QRegister_edit r m1;
          sz = SCI_GETLENGTH (view m2) + 1;
          str = SCI_GETTEXT sz (view m2)
      in (str, current_edit m2))"

text \<open>\<^verbatim>\<open>QRegisterBufferInfo::get_string\<close>, the override of the register of the current buffer.\<close>

definition QRegisterBufferInfo_get_string :: "machine \<Rightarrow> string" where
  "QRegisterBufferInfo_get_string m =
     (case (case current_buffer m of None \<Rightarrow> None | Some b \<Rightarrow> filename b) of
        None \<Rightarrow> []
      | Some f \<Rightarrow> f)"

subsection \<open>The register stack\<close>

text \<open>
  \<^verbatim>\<open>QRegisterData::undo_set_integer\<close> and \<^verbatim>\<open>set_integer\<close> are inline members of
  qbuffers.h, which is not part of the sources.
  Modelled from the spec: a register carries an integer value and a \<open>must_undo\<close> flag
  indicating whether mutations are undoable; a \<open>var\<close> token snapshots the old value.
\<close>

definition undo_set_integer :: "string \<Rightarrow> machine \<Rightarrow> machine" where
  "undo_set_integer r m =
     (if must_undo (globals m r)
      then undo_push_m (UndoVarInteger r (integer (globals m r))) m
      else m)"

definition set_integer :: "string \<Rightarrow> gint64 \<Rightarrow> machine \<Rightarrow> machine" where
  "set_integer r v m = m\<lparr>globals := (globals m)(r := (globals m r)\<lparr>integer := v\<rparr>)\<rparr>"

text \<open>
  \<^verbatim>\<open>QRegisterStack::pop\<close> on the register \<open>r\<close>: the returned flag and the state after the
  call.
\<close>

definition pop :: "string \<Rightarrow> machine \<Rightarrow> bool \<times> machine" where
  "pop r m =
     (case qreg_stack m of
        [] \<Rightarrow> (False, m)
      | entry # rest \<Rightarrow>
          (let m1 = undo_set_integer r m;
               m2 = set_integer r (integer entry) m1;
               reg = globals m2 r;
               str = string reg;
               m3 = (if must_undo reg then undo_push_m (UndoVarString r (string reg)) m2
                     else m2);
               reg1 = reg\<lparr>string := string entry\<rparr>;
               m4 = undo_push_m (UndoVarEntryString (string entry)) m3;
               entry1 = entry\<lparr>string := str\<rparr>;
               m5 = (if must_undo reg1 then undo_push_m (UndoVarDot r (dot reg1)) m4 else m4);
               reg2 = reg1\<lparr>dot := dot entry1\<rparr>;
               m6 = undo_push_m (UndoTokenPush entry1) m5
           in (True, m6\<lparr>globals := (globals m6)(r := reg2), qreg_stack := rest\<rparr>)))"

text \<open>
  \<^verbatim>\<open>StatePopQReg::got_register\<close>: the command \<^verbatim>\<open>]q\<close>. \<^verbatim>\<open>BEGIN_EXEC\<close> is a macro of
  parser.h, which is not part of the sources.
  Modelled from the spec: every action begins by returning early (with the given next
  state) if the mode is not \<open>NORMAL\<close>.
\<close>

definition StatePopQReg_got_register ::
  "string \<Rightarrow> machine \<Rightarrow> exn \<times> machine + State \<times> machine" where
  "StatePopQReg_got_register r m =
     (if mode m \<noteq> MODE_NORMAL then Inr (start, m)
      else case pop r m of
             (False, m') \<Rightarrow> Inl (Error ''Q-Register stack is empty'', m')
           | (True, m') \<Rightarrow> Inr (start, m'))"


subsection \<open>The buffer ring\<close>

text \<open>
  \<^verbatim>\<open>Ring::find(gint64)\<close>: the loop over the ring pre-decrements \<open>id\<close> for each buffer and
  stops at the buffer where it reaches zero. The result is the position of that buffer.
\<close>

fun find_from :: "nat \<Rightarrow> Buffer list \<Rightarrow> gint64 \<Rightarrow> nat option" where
  "find_from i [] ident = None"
| "find_from i (b # bs) ident =
     (if ident - 1 = 0 then Some i else find_from (Suc i) bs (ident - 1))"

definition Ring_find_id :: "gint64 \<Rightarrow> machine \<Rightarrow> nat option" where
  "Ring_find_id ident m = find_from 0 (ring m) ident"

text \<open>
  \<^verbatim>\<open>QRegisters::hook\<close>: with the flag \<^verbatim>\<open>ED_HOOKS\<close> it pushes the hook type and executes
  the macro in register 0. That execution is the parameter \<open>run_hook\<close>.
\<close>

datatype Hook = HOOK_ADD | HOOK_EDIT | HOOK_CLOSE | HOOK_QUIT

definition QRegisters_hook ::
  "(Hook \<Rightarrow> machine \<Rightarrow> exn \<times> machine + machine) \<Rightarrow> Hook \<Rightarrow> machine
   \<Rightarrow> exn \<times> machine + machine" where
  "QRegisters_hook run_hook type m = (if \<not> ed_hooks m then Inr m else run_hook type m)"

text \<open>\<^verbatim>\<open>Ring::edit(gint64)\<close>: a null result of \<open>find\<close> gives \<open>false\<close>.\<close>

definition Ring_edit_id ::
  "(Hook \<Rightarrow> machine \<Rightarrow> exn \<times> machine + machine) \<Rightarrow> gint64 \<Rightarrow> machine
   \<Rightarrow> exn \<times> machine + bool \<times> machine" where
  "Ring_edit_id run_hook ident m =
     (case Ring_find_id ident m of
        None \<Rightarrow> Inr (False, m)
      | Some b \<Rightarrow>
          (let m1 = current_save_dot m;
               m2 = m1\<lparr>qreg_current := None, ring_current := Some b\<rparr>;
               m3 = Buffer_edit b m2
           in case QRegisters_hook run_hook HOOK_EDIT m3 of
                Inl x \<Rightarrow> Inl x
              | Inr m4 \<Rightarrow> Inr (True, m4)))"

text \<open>\<^verbatim>\<open>QRegisterData::undo_edit\<close>, \<^verbatim>\<open>QRegister::undo_edit\<close> and \<^verbatim>\<open>QRegisters::undo_edit\<close>.\<close>

definition QRegisterData_undo_edit :: "string \<Rightarrow> machine \<Rightarrow> machine" where
  "QRegisterData_undo_edit r m =
     (if \<not> must_undo (globals m r) then m
      else let m1 = undo_push_m (UndoMsgGotoPos (dot (globals m r))) m
           in case get_document r m1 of
                (d, m2) \<Rightarrow> undo_push_m (UndoMsgSetDocPointer d) m2)"

definition QRegister_undo_edit :: "string \<Rightarrow> machine \<Rightarrow> machine" where
  "QRegister_undo_edit r m =
     (if \<not> must_undo (globals m r) then m
      else QRegisterData_undo_edit r (undo_push_m UndoInfoUpdate m))"

definition QRegisters_undo_edit :: "machine \<Rightarrow> machine" where
  "QRegisters_undo_edit m =
     (case qreg_current m of
        None \<Rightarrow> m
      | Some q \<Rightarrow>
          (let m1 = m\<lparr>globals := (globals m)(q := (globals m q)\<lparr>dot := SCI_GETCURRENTPOS (view m)\<rparr>)\<rparr>;
               m2 = undo_push_m (UndoVarQRegCurrent (qreg_current m1)) m1
           in QRegister_undo_edit q m2))"

subsection \<open>The command EB\<close>

text \<open>
  \<^verbatim>\<open>StateEditFile::do_edit(gint64)\<close>. The message of the error also shows the id, which
  is left out here.
\<close>

definition StateEditFile_do_edit_id ::
  "(Hook \<Rightarrow> machine \<Rightarrow> exn \<times> machine + machine) \<Rightarrow> gint64 \<Rightarrow> machine
   \<Rightarrow> exn \<times> machine + machine" where
  "StateEditFile_do_edit_id run_hook ident m =
     (let m1 = (if ring_current m \<noteq> None then Ring_undo_edit m else QRegisters_undo_edit m)
      in case Ring_edit_id run_hook ident m1 of
           Inl x \<Rightarrow> Inl x
         | Inr (False, m2) \<Rightarrow> Inl (Error ''Invalid buffer id'', m2)
         | Inr (True, m2) \<Rightarrow> Inr m2)"

text \<open>
  \<^verbatim>\<open>StateEditFile::initial\<close>, which \<^verbatim>\<open>StateExpectString::custom\<close> (parser.cpp) calls when the
  state is entered, before any character of the string argument is read. The popup of
  the buffer list for the id 0 only concerns the display.
\<close>

definition StateEditFile_initial ::
  "(Hook \<Rightarrow> machine \<Rightarrow> exn \<times> machine + machine) \<Rightarrow> machine \<Rightarrow> exn \<times> machine + machine" where
  "StateEditFile_initial run_hook m =
     (case pop_num_calc (- 1) (expressions m) of
        Inl x \<Rightarrow> Inl (x, m)
      | Inr (ident, e) \<Rightarrow>
          (let m1 = m\<lparr>expressions := e, allowFilename := True\<rparr>
           in if ident = 0 then Inr m1
              else if 0 <s ident
                   then StateEditFile_do_edit_id run_hook ident (m1\<lparr>allowFilename := False\<rparr>)
                   else Inr m1))"

text \<open>
  \<^verbatim>\<open>StateExpectString::custom\<close> (parser.cpp) for the character NUL, in the state of the
  command EB. \<^verbatim>\<open>State::input\<close> feeds NUL to a state when it is entered, so this runs
  before the first character of the string argument is read.
\<close>

definition StateEditFile_custom_NUL ::
  "(Hook \<Rightarrow> machine \<Rightarrow> exn \<times> machine + machine) \<Rightarrow> machine
   \<Rightarrow> exn \<times> machine + State \<times> machine" where
  "StateEditFile_custom_NUL run_hook m =
     (if mode m \<noteq> MODE_NORMAL then Inr (editfile, m)
      else case StateEditFile_initial run_hook m of
             Inl x \<Rightarrow> Inl x
           | Inr m' \<Rightarrow> Inr (editfile, m'))"

text \<open>
  \<^verbatim>\<open>StateEditFile::done\<close> with the string argument \<open>str\<close>. Opening files by name or by
  pattern (the rest of the function, when a file name is allowed) is the parameter
  \<open>edit_files\<close>.
\<close>

definition StateEditFile_done ::
  "(string \<Rightarrow> machine \<Rightarrow> exn \<times> machine + machine) \<Rightarrow> string \<Rightarrow> machine
   \<Rightarrow> exn \<times> machine + State \<times> machine" where
  "StateEditFile_done edit_files str m =
     (if mode m \<noteq> MODE_NORMAL then Inr (start, m)
      else if \<not> allowFilename m
           then (if c_str str \<noteq> []
                 then Inl (Error (''If a buffer is selected by id, the <EB> '' @
                                  ''string argument must be empty''), m)
                 else Inr (start, m))
           else case edit_files str m of
                  Inl x \<Rightarrow> Inl x
                | Inr m' \<Rightarrow> Inr (start, m'))"


subsection \<open>Saving a buffer\<close>

text \<open>The decimal digits that \<^verbatim>\<open>%d\<close> prints.\<close>

function string_of_nat :: "nat \<Rightarrow> string" where
  "string_of_nat n =
     (if n < 10 then [''0123456789'' ! n]
      else string_of_nat (n div 10) @ [''0123456789'' ! (n mod 10)])"
  by pat_completeness auto
termination
  by (relation "measure id") auto

definition string_of_int :: "int \<Rightarrow> string" where
  "string_of_int i = (if i < 0 then ''-'' @ string_of_nat (nat (- i)) else string_of_nat (nat i))"

definition FILENAME_MAX :: nat where
  "FILENAME_MAX = 4096"

definition savepoint_name :: "string \<Rightarrow> int \<Rightarrow> string" where
  \<comment> \<open>the path that \<^verbatim>\<open>make_savepoint\<close> builds: \<^verbatim>\<open>.teco-<basename>-<id>\<close> beside the file\<close>
  "savepoint_name fname ident =
     g_build_filename (g_path_get_dirname fname)
       (take (FILENAME_MAX - 1)
          (''.teco-'' @ g_path_get_basename fname @ ''-'' @ string_of_int ident))"

text \<open>
  \<^verbatim>\<open>make_savepoint\<close> for the buffer at position \<open>i\<close> of the ring. A failed rename only
  shows a warning.
\<close>

definition make_savepoint :: "nat \<Rightarrow> machine \<Rightarrow> machine" where
  "make_savepoint i m =
     (case filename (ring m ! i) of
        None \<Rightarrow> m
      | Some fname \<Rightarrow>
          (let savepoint = savepoint_name fname (savepoint_id (ring m ! i))
           in case g_rename fname savepoint (fs m) of
                (True, f) \<Rightarrow>
                  undo_push_m (UndoTokenRestoreSavePoint savepoint i)
                    (m\<lparr>fs := f,
                       ring := (ring m)[i := (ring m ! i)\<lparr>savepoint_id := savepoint_id (ring m ! i) + 1\<rparr>]\<rparr>)
              | (False, f) \<Rightarrow> m))"

text \<open>
  \<^verbatim>\<open>Buffer::set_filename\<close> is an inline member of qbuffers.h, which is not part of the
  sources.
  Modelled from the spec: after a successful save the canonical filename is recorded;
  the filename of a Document is the canonical absolute path (\<^verbatim>\<open>get_absolute_path\<close>).
\<close>

definition Buffer_set_filename :: "nat \<Rightarrow> string option \<Rightarrow> machine \<Rightarrow> machine" where
  "Buffer_set_filename i fname m =
     m\<lparr>ring := (ring m)[i := (ring m ! i)\<lparr>filename := get_absolute_path (fs m) fname\<rparr>]\<rparr>"

text \<open>
  \<^verbatim>\<open>Ring::save\<close>: the returned flag and the state after the call. The file written is
  the argument or, without one, the file of the buffer.
\<close>

definition save_target :: "string option \<Rightarrow> Buffer \<Rightarrow> string option" where
  "save_target fname_arg b = (case fname_arg of None \<Rightarrow> filename b | Some f \<Rightarrow> Some f)"

definition save_journal :: "nat \<Rightarrow> string \<Rightarrow> machine \<Rightarrow> machine" where
  \<comment> \<open>the block under \<^verbatim>\<open>if (undo.enabled)\<close>\<close>
  "save_journal i fname m =
     (if enabled (undo m)
      then (if (case filename (ring m ! i) of
                  None \<Rightarrow> False
                | Some cf \<Rightarrow> is_regular (fs m) cf)
            then make_savepoint i m
            else undo_push_m (UndoTokenRemoveFile fname) m)
      else m)"

definition Ring_save :: "string option \<Rightarrow> machine \<Rightarrow> bool \<times> machine" where
  "Ring_save fname_arg m =
     (case ring_current m of
        None \<Rightarrow> (False, m)
      | Some i \<Rightarrow>
          (case save_target fname_arg (ring m ! i) of
             None \<Rightarrow> (False, m)
           | Some fname \<Rightarrow>
               (let m1 = save_journal i fname m;
                    buffer = doc_text (view m1);
                    sz = SCI_GETLENGTH (view m1)
                in case g_file_set_contents fname (take (nat sz) buffer) (fs m1) of
                     (False, f) \<Rightarrow> (False, m1)
                   | (True, f) \<Rightarrow>
                       (let m2 = undo_push_m UndoInfoUpdate (m1\<lparr>fs := f\<rparr>);
                            m3 = undo_push_m (UndoVarDirty i (dirty (ring m2 ! i))) m2;
                            m4 = m3\<lparr>ring := (ring m3)[i := (ring m3 ! i)\<lparr>dirty := False\<rparr>]\<rparr>;
                            m5 = undo_push_m (UndoStrFilename i (filename (ring m4 ! i))) m4
                        in (True, Buffer_set_filename i (Some fname) m5)))))"

text \<open>\<^verbatim>\<open>StateSaveFile::done\<close>: the command EW with the string argument \<open>str\<close>.\<close>

definition StateSaveFile_done :: "string \<Rightarrow> machine \<Rightarrow> exn \<times> machine + State \<times> machine" where
  "StateSaveFile_done str m =
     (if mode m \<noteq> MODE_NORMAL then Inr (start, m)
      else case Ring_save (if c_str str \<noteq> [] then Some (c_str str) else None) m of
             (False, m') \<Rightarrow> Inl (Error ''Unable to save file'', m')
           | (True, m') \<Rightarrow> Inr (start, m'))"

text \<open>
  Running a token of the journal: \<^verbatim>\<open>UndoTokenRestoreSavePoint::run\<close>, and the tokens of
  the file, the dirty flag and the filename.
  \<^verbatim>\<open>UndoTokenRemoveFile\<close> and the \<open>var\<close> and \<open>str\<close> tokens belong to undo.h, which is not
  part of the sources.
  Modelled from the spec: \<open>var(addr)\<close> snapshots an old value and on execute writes it
  back; \<open>str(addr)\<close>: snapshot/restore of an owned string pointer;
  \<open>remove_file(path)\<close> unlinks a file; \<open>info_update(obj)\<close> refreshes UI metadata.
  The result is \<open>None\<close> for the other tokens, which this function does not cover.
\<close>

fun UndoToken_run :: "undo_token \<Rightarrow> machine \<Rightarrow> machine option" where
  "UndoToken_run (UndoTokenRestoreSavePoint savepoint i) m =
     (case filename (ring m ! i) of
        None \<Rightarrow> Some m
      | Some fname \<Rightarrow> Some (m\<lparr>fs := snd (g_rename savepoint fname (fs m))\<rparr>))"
| "UndoToken_run (UndoTokenRemoveFile path) m = Some (m\<lparr>fs := g_unlink path (fs m)\<rparr>)"
| "UndoToken_run (UndoVarDirty i old) m =
     Some (m\<lparr>ring := (ring m)[i := (ring m ! i)\<lparr>dirty := old\<rparr>]\<rparr>)"
| "UndoToken_run (UndoStrFilename i old) m =
     Some (m\<lparr>ring := (ring m)[i := (ring m ! i)\<lparr>filename := old\<rparr>]\<rparr>)"
| "UndoToken_run UndoInfoUpdate m = Some m"
| "UndoToken_run t m = None"

text \<open>Rubbing out: the tokens above the boundary \<open>n\<close> run in LIFO order.\<close>

fun run_tokens :: "undo_token list \<Rightarrow> machine \<Rightarrow> machine option" where
  "run_tokens [] m = Some m"
| "run_tokens (t # ts) m =
     (case UndoToken_run t m of None \<Rightarrow> None | Some m' \<Rightarrow> run_tokens ts m')"

definition undo_pop :: "nat \<Rightarrow> machine \<Rightarrow> machine option" where
  "undo_pop n m =
     (let k = length (tokens (undo m)) - n
      in run_tokens (take k (tokens (undo m)))
           (m\<lparr>undo := (undo m)\<lparr>tokens := drop k (tokens (undo m))\<rparr>\<rparr>))"

section \<open>parser.cpp\<close>

subsection \<open>Helpers\<close>

text \<open>
  What a function of the parser returns: the exception thrown and the state at the throw,
  or the result and the state after the call.
\<close>

type_synonym 'a result = "exn \<times> machine + 'a \<times> machine"

definition bind :: "'e + 'a \<Rightarrow> ('a \<Rightarrow> 'e + 'b) \<Rightarrow> 'e + 'b" where
  "bind r f = (case r of Inl x \<Rightarrow> Inl x | Inr y \<Rightarrow> f y)"

text \<open>Calls into the expression stack from a state of the machine.\<close>

definition expr_do :: "(Expressions \<Rightarrow> exn + Expressions) \<Rightarrow> machine \<Rightarrow> exn \<times> machine + machine" where
  "expr_do f m = (case f (expressions m) of
                    Inl x \<Rightarrow> Inl (x, m)
                  | Inr e \<Rightarrow> Inr (m\<lparr>expressions := e\<rparr>))"

definition expr_upd :: "(Expressions \<Rightarrow> Expressions) \<Rightarrow> machine \<Rightarrow> machine" where
  "expr_upd f m = m\<lparr>expressions := f (expressions m)\<rparr>"

definition expr_pop :: "(Expressions \<Rightarrow> exn + tecoInt \<times> Expressions) \<Rightarrow> machine
  \<Rightarrow> exn \<times> machine + tecoInt \<times> machine" where
  "expr_pop f m = (case f (expressions m) of
                     Inl x \<Rightarrow> Inl (x, m)
                   | Inr (v, e) \<Rightarrow> Inr (v, m\<lparr>expressions := e\<rparr>))"

text \<open>
  \<^verbatim>\<open>String::toupper\<close> (string-utils.h) and the macros \<^verbatim>\<open>IS_CTL\<close> and \<^verbatim>\<open>CTL_ECHO\<close>
  (sciteco.h) are not part of the sources.
  Modelled from the spec: command names are case-insensitive single characters in the
  ASCII printable range; a control character is echoed as the letter of its control
  code (\<open>^\<close> makes the next letter a control code).
\<close>

definition String_toupper :: "char \<Rightarrow> char" where
  "String_toupper c =
     (if of_char (CHR ''a'') \<le> (of_char c :: nat) \<and> (of_char c :: nat) \<le> of_char (CHR ''z'')
      then char_of ((of_char c :: nat) - 32) else c)"

definition IS_CTL :: "char \<Rightarrow> bool" where
  \<comment> \<open>below the space; \<^verbatim>\<open>gchar\<close> is signed, so the bytes from 128 on are below it too\<close>
  "IS_CTL c = ((of_char c :: nat) < 32 \<or> 128 \<le> (of_char c :: nat))"

definition CTL_ECHO :: "char \<Rightarrow> char" where
  "CTL_ECHO c = char_of (or (of_char c :: nat) 64)"

definition gchar_value :: "char \<Rightarrow> tecoInt" where
  \<comment> \<open>a signed \<^verbatim>\<open>gchar\<close> converted to an integer\<close>
  "gchar_value c =
     (if (of_char c :: nat) < 128 then of_nat (of_char c) else of_nat (of_char c) - 256)"

definition g_ascii_isdigit :: "char \<Rightarrow> bool" where
  "g_ascii_isdigit c = (48 \<le> (of_char c :: nat) \<and> (of_char c :: nat) \<le> 57)"

text \<open>\<^verbatim>\<open>State::eval_colon\<close>.\<close>

definition eval_colon :: "machine \<Rightarrow> bool \<times> machine" where
  "eval_colon m =
     (if \<not> colon m then (False, m)
      else (True, (undo_push_m (UndoVarColon (colon m)) m)\<lparr>colon := False\<rparr>))"

text \<open>
  \<^verbatim>\<open>Validate::pos\<close>, \<^verbatim>\<open>Validate::line\<close> (parser.h) and \<^verbatim>\<open>current_doc_must_undo\<close>
  (qregisters.h) are not part of the sources.
  Modelled from the spec: \<open>0 \<le> dot \<le> length\<close>; \<open>J\<close> to exactly position \<open>length\<close>
  succeeds, to \<open>length+1\<close> fails; a line is valid if it is one of the lines of the
  document. Registers carry \<open>must_undo\<close> so that changes inside scratch documents skip
  token recording.
\<close>

definition Validate_pos :: "tecoInt \<Rightarrow> machine \<Rightarrow> bool" where
  "Validate_pos n m = (0 \<le> sint n \<and> sint n \<le> SCI_GETLENGTH (view m))"

definition SCI_GETLINECOUNT :: "View \<Rightarrow> int" where
  "SCI_GETLINECOUNT v = 1 + int (length (filter (\<lambda>c. c = CHR 0x0A) (doc_text v)))"

definition SCI_LINEFROMPOSITION :: "int \<Rightarrow> View \<Rightarrow> int" where
  "SCI_LINEFROMPOSITION p v =
     int (length (filter (\<lambda>c. c = CHR 0x0A) (take (nat p) (doc_text v))))"

fun line_start :: "nat \<Rightarrow> string \<Rightarrow> nat" where
  "line_start 0 s = 0"
| "line_start (Suc n) [] = 0"
| "line_start (Suc n) (c # cs) =
     Suc (if c = CHR 0x0A then line_start n cs else line_start (Suc n) cs)"

definition SCI_GOTOLINE :: "int \<Rightarrow> View \<Rightarrow> View" where
  "SCI_GOTOLINE l v = SCI_GOTOPOS (int (line_start (nat l) (doc_text v))) v"

definition Validate_line :: "tecoInt \<Rightarrow> machine \<Rightarrow> bool" where
  "Validate_line n m = (0 \<le> sint n \<and> sint n < SCI_GETLINECOUNT (view m))"

definition current_doc_must_undo :: "machine \<Rightarrow> bool" where
  "current_doc_must_undo m =
     (case qreg_current m of None \<Rightarrow> True | Some q \<Rightarrow> must_undo (globals m q))"

text \<open>
  The parts of the interpreter outside parser.cpp and qbuffers.cpp, and the commands of
  parser.cpp that are not modelled here, are parameters: the transition table and the
  \<open>custom\<close> handler (whose result may be the null state, \<open>None\<close>), the
  \<open>end_of_macro\<close> and the \<open>refresh\<close> hook of the other states, clearing the local
  registers at the end of a macro, and the word movements of the editor component.
\<close>

record externals =
  ext_transitions :: "State \<Rightarrow> char \<Rightarrow> State option"
  ext_custom :: "State \<Rightarrow> char \<Rightarrow> machine \<Rightarrow> State option result"
  ext_end_of_macro :: "State \<Rightarrow> machine \<Rightarrow> exn \<times> machine + machine"
  ext_refresh :: "State \<Rightarrow> machine \<Rightarrow> exn \<times> machine + machine"
  ext_locals_clear :: "machine \<Rightarrow> exn \<times> machine + machine"
  SCI_WORDRIGHTEND :: "View \<Rightarrow> View"
  SCI_WORDLEFTEND :: "View \<Rightarrow> View"

subsection \<open>Movement commands\<close>

text \<open>\<^verbatim>\<open>StateStart::move_chars\<close> and \<^verbatim>\<open>StateStart::move_lines\<close>.\<close>

definition move_chars :: "tecoInt \<Rightarrow> machine \<Rightarrow> tecoInt \<times> machine" where
  "move_chars n m =
     (let pos = SCI_GETCURRENTPOS (view m)
      in if \<not> Validate_pos (word_of_int pos + n) m then (FAILURE, m)
         else let m1 = m\<lparr>view := SCI_GOTOPOS (sint (word_of_int pos + n :: tecoInt)) (view m)\<rparr>
              in (SUCCESS, if current_doc_must_undo m1 then undo_push_m (UndoMsgGotoPos pos) m1
                           else m1))"

definition move_lines :: "tecoInt \<Rightarrow> machine \<Rightarrow> tecoInt \<times> machine" where
  "move_lines n m =
     (let pos = SCI_GETCURRENTPOS (view m);
          line = (word_of_int (SCI_LINEFROMPOSITION pos (view m)) + n :: tecoInt)
      in if \<not> Validate_line line m then (FAILURE, m)
         else let m1 = m\<lparr>view := SCI_GOTOLINE (sint line) (view m)\<rparr>
              in (SUCCESS, if current_doc_must_undo m1 then undo_push_m (UndoMsgGotoPos pos) m1
                           else m1))"

text \<open>
  The commands J, C, R, L and B of \<^verbatim>\<open>StateStart::custom\<close>, after \<^verbatim>\<open>BEGIN_EXEC\<close>. Each
  returns to the start state.
\<close>

definition cmd_J :: "machine \<Rightarrow> State result" where
  "cmd_J m =
     bind (expr_pop (pop_num_calc 0) m) (\<lambda>(v, m1).
       if Validate_pos v m1
       then (let m2 = (if current_doc_must_undo m1
                       then undo_push_m (UndoMsgGotoPos (SCI_GETCURRENTPOS (view m1))) m1
                       else m1);
                 m3 = m2\<lparr>view := SCI_GOTOPOS (sint v) (view m2)\<rparr>
             in case eval_colon m3 of
                  (True, m4) \<Rightarrow> Inr (start, expr_upd (push SUCCESS) m4)
                | (False, m4) \<Rightarrow> Inr (start, m4))
       else (case eval_colon m1 of
               (True, m2) \<Rightarrow> Inr (start, expr_upd (push FAILURE) m2)
             | (False, m2) \<Rightarrow> Inl (MoveError ''J'', m2)))"

definition move_result :: "string \<Rightarrow> tecoInt \<times> machine \<Rightarrow> State result" where
  \<comment> \<open>\<^verbatim>\<open>if (eval_colon()) expressions.push(rc); else if (IS_FAILURE(rc)) throw MoveError\<close>\<close>
  "move_result name r =
     (case r of (rc, m) \<Rightarrow>
        (case eval_colon m of
           (True, m1) \<Rightarrow> Inr (start, expr_upd (push rc) m1)
         | (False, m1) \<Rightarrow> if IS_FAILURE rc then Inl (MoveError name, m1) else Inr (start, m1)))"

definition cmd_C :: "machine \<Rightarrow> State result" where
  "cmd_C m = bind (expr_pop pop_num_calc_sign m) (\<lambda>(n, m1). move_result ''C'' (move_chars n m1))"

definition cmd_R :: "machine \<Rightarrow> State result" where
  "cmd_R m = bind (expr_pop pop_num_calc_sign m) (\<lambda>(n, m1). move_result ''R'' (move_chars (- n) m1))"

definition cmd_L :: "machine \<Rightarrow> State result" where
  "cmd_L m = bind (expr_pop pop_num_calc_sign m) (\<lambda>(n, m1). move_result ''L'' (move_lines n m1))"

definition cmd_B :: "machine \<Rightarrow> State result" where
  "cmd_B m = bind (expr_pop pop_num_calc_sign m) (\<lambda>(n, m1). move_result ''B'' (move_lines (- n) m1))"

text \<open>
  The command W. The loop \<^verbatim>\<open>while (v--)\<close> sends the word movement until the caret no
  longer moves; it returns the value of \<open>v\<close> after the loop and the view.
\<close>

function word_loop :: "(View \<Rightarrow> View) \<Rightarrow> tecoInt \<Rightarrow> View \<Rightarrow> tecoInt \<times> View" where
  "word_loop msg v vw =
     (if v = 0 then (v - 1, vw)
      else let vw' = msg vw
           in if SCI_GETCURRENTPOS vw = SCI_GETCURRENTPOS vw' then (v - 1, vw')
              else word_loop msg (v - 1) vw')"
  by pat_completeness auto
termination
proof (relation "measure (\<lambda>(msg, v, vw). unat v)")
  show "wf (measure (\<lambda>(msg, v, vw). unat v))" by simp
next
  fix msg :: "View \<Rightarrow> View" and v :: tecoInt and vw x :: View
  assume "v \<noteq> 0"
  then have "unat (v - 1) < unat v"
    by (metis diff_less less_one unat_eq_zero unat_minus_one zero_less_iff_neq_zero)
  then show "((msg, v - 1, x), msg, v, vw) \<in> measure (\<lambda>(msg, v, vw). unat v)" by simp
qed

definition cmd_W :: "externals \<Rightarrow> machine \<Rightarrow> State result" where
  "cmd_W ext m =
     bind (expr_pop pop_num_calc_sign m) (\<lambda>(v0, m1).
       let pos = SCI_GETCURRENTPOS (view m1);
           v1 = (if sint v0 < 0 then v0 * (- 1) else v0);
           msg = (if sint v0 < 0 then SCI_WORDLEFTEND ext else SCI_WORDRIGHTEND ext)
       in case word_loop msg v1 (view m1) of
            (v, vw) \<Rightarrow>
              if sint v < 0
              then (let m2 = m1\<lparr>view := vw\<rparr>;
                        m3 = (if current_doc_must_undo m2
                              then undo_push_m (UndoMsgGotoPos pos) m2 else m2)
                    in case eval_colon m3 of
                         (True, m4) \<Rightarrow> Inr (start, expr_upd (push SUCCESS) m4)
                       | (False, m4) \<Rightarrow> Inr (start, m4))
              else (let m2 = m1\<lparr>view := SCI_GOTOPOS pos vw\<rparr>
                    in case eval_colon m2 of
                         (True, m3) \<Rightarrow> Inr (start, expr_upd (push FAILURE) m3)
                       | (False, m3) \<Rightarrow> Inl (MoveError ''W'', m3)))"

subsection \<open>Loops\<close>

text \<open>
  \<^verbatim>\<open>BEGIN_EXEC\<close> is a macro of parser.h, which is not part of the sources.
  Modelled from the spec: every action begins by returning early (with the given next
  state) if the mode is not \<open>NORMAL\<close>.
\<close>

definition BEGIN_EXEC :: "State \<Rightarrow> machine \<Rightarrow> (machine \<Rightarrow> State result) \<Rightarrow> State result" where
  "BEGIN_EXEC st m action = (if mode m \<noteq> MODE_NORMAL then Inr (st, m) else action m)"

text \<open>
  The command \<^verbatim>\<open><\<close> in normal mode: the loop start. \<^verbatim>\<open>LoopStack::undo_pop\<close> and
  \<^verbatim>\<open>LoopStack::undo_push\<close> journal the inverse of a push and of a pop.
\<close>

definition loop_start :: "machine \<Rightarrow> State result" where
  "loop_start m =
     bind (expr_do eval m) (\<lambda>m1.
       case eval_colon m1 of
         (pass, m2) \<Rightarrow>
           bind (expr_pop (pop_num_calc (- 1)) m2) (\<lambda>(cnt, m3).
             if cnt \<noteq> 0
             then (let m4 = (if \<not> pass then expr_upd brace_open m3 else m3);
                       ctx = \<lparr>counter = cnt, pc = macro_pc m4, pass_through = pass\<rparr>
                   in Inr (start, undo_push_m UndoLoopPop (m4\<lparr>loop_stack := ctx # loop_stack m4\<rparr>)))
             else Inr (start, (undo_push_m (UndoVarMode (mode m3)) m3)
                                \<lparr>mode := MODE_PARSE_ONLY_LOOP\<rparr>)))"

text \<open>
  What \<^verbatim>\<open>></\<close> and \<^verbatim>\<open>F></\<close> do with the expression stack for the loop \<open>ctx\<close>: a
  colon-modified loop end aggregates, a plain one discards the arguments; a pass-through
  loop leaves the stack alone.
\<close>

definition loop_end_args :: "LoopContext \<Rightarrow> bool \<Rightarrow> machine \<Rightarrow> exn \<times> machine + machine" where
  "loop_end_args ctx colon_modified m =
     (if \<not> pass_through ctx
      then (if colon_modified
            then bind (expr_do eval m) (\<lambda>m1. Inr (expr_upd (push_op OP_NEW) m1))
            else expr_do discard_args m)
      else Inr m)"

text \<open>The command \<^verbatim>\<open>></\<close> in normal mode: the loop end.\<close>

definition loop_end :: "machine \<Rightarrow> State result" where
  "loop_end m =
     (if length (loop_stack m) \<le> loop_stack_fp m
      then Inl (Error ''Loop end without corresponding loop start command'', m)
      else case loop_stack m of
             [] \<Rightarrow> Inl (Error ''Loop end without corresponding loop start command'', m)
           | ctx # frames \<Rightarrow>
               (case eval_colon m of
                  (colon_modified, m1) \<Rightarrow>
                    bind (loop_end_args ctx colon_modified m1) (\<lambda>m2.
                      if counter ctx = 1
                      then bind (if \<not> pass_through ctx then expr_do brace_close m2 else Inr m2)
                             (\<lambda>m3. Inr (start, undo_push_m (UndoLoopPush ctx)
                                                  (m3\<lparr>loop_stack := frames\<rparr>)))
                      else (let m3 = m2\<lparr>macro_pc := pc ctx\<rparr>
                            in if 0 \<le> sint (counter ctx)
                               then Inr (start, (undo_push_m (UndoVarCounter (counter ctx)) m3)
                                                  \<lparr>loop_stack := ctx\<lparr>counter := counter ctx - 1\<rparr> # frames\<rparr>)
                               else Inr (start, m3)))))"

text \<open>
  The command \<^verbatim>\<open>;\<close> in normal mode: the conditional break. The integer of the global
  search register \<^verbatim>\<open>_\<close> is implied.
\<close>

definition loop_break :: "machine \<Rightarrow> State result" where
  "loop_break m =
     (if length (loop_stack m) \<le> loop_stack_fp m
      then Inl (Error ''<;> only allowed in iterations'', m)
      else let v = integer (globals m ''_'')
           in bind (expr_pop (pop_num_calc v) m) (\<lambda>(rc0, m1).
                case eval_colon m1 of
                  (c, m2) \<Rightarrow>
                    (let rc = (if c then not rc0 else rc0)
                     in if IS_FAILURE rc
                        then (case loop_stack m2 of
                                [] \<Rightarrow> Inl (Error ''<;> only allowed in iterations'', m2)
                              | ctx # frames \<Rightarrow>
                                  bind (expr_do discard_args (m2\<lparr>loop_stack := frames\<rparr>)) (\<lambda>m3.
                                    bind (if \<not> pass_through ctx then expr_do brace_close m3 else Inr m3)
                                      (\<lambda>m4. Inr (start,
                                         (undo_push_m (UndoVarMode (mode m4))
                                            (undo_push_m (UndoLoopPush ctx) m4))
                                           \<lparr>mode := MODE_PARSE_ONLY_LOOP\<rparr>))))
                        else Inr (start, m2))))"

subsection \<open>The start state\<close>

text \<open>
  \<^verbatim>\<open>StateStart::custom\<close> for an upper-cased character that is neither a control
  character nor a digit: arithmetic, the separator, the queries of dot and size, loops,
  conditionals, modifiers and the movement commands. The other commands of the function
  are the parameter \<open>ext_custom\<close>.
\<close>

definition calc_command :: "Operator \<Rightarrow> machine \<Rightarrow> State result" where
  "calc_command op m =
     BEGIN_EXEC start m (\<lambda>m. bind (expr_do (push_calc op) m) (\<lambda>m1. Inr (start, m1)))"

definition some_state :: "State result \<Rightarrow> State option result" where
  "some_state r = (case r of Inl x \<Rightarrow> Inl x | Inr (st, m) \<Rightarrow> Inr (Some st, m))"

definition StateStart_command :: "externals \<Rightarrow> char \<Rightarrow> machine \<Rightarrow> State option result" where
  "StateStart_command ext chr m =
     (if chr \<notin> set ''/*+-&#(),.ZH<>;|@:JCRLBW'' \<and> chr \<noteq> CHR 0x27 then ext_custom ext start chr m
      else some_state
     (if chr = CHR ''/'' then calc_command OP_DIV m
      else if chr = CHR ''*'' then
        (if cmdline m = ''*'' then Inr (save_cmdline, m) else calc_command OP_MUL m)
      else if chr = CHR ''+'' then calc_command OP_ADD m
      else if chr = CHR ''-'' then
        BEGIN_EXEC start m (\<lambda>m.
          if args (expressions m) = 0
          then Inr (start, expr_upd (set_num_sign (- num_sign (expressions m))) m)
          else bind (expr_do (push_calc OP_SUB) m) (\<lambda>m1. Inr (start, m1)))
      else if chr = CHR ''&'' then calc_command OP_AND m
      else if chr = CHR ''#'' then calc_command OP_OR m
      else if chr = CHR ''('' then
        BEGIN_EXEC start m (\<lambda>m.
          if num_sign (expressions m) < 0
          then bind (expr_do eval (expr_upd (set_num_sign 1) m)) (\<lambda>m1.
                 bind (expr_do (push_calc OP_MUL) (expr_upd (push (- 1)) m1)) (\<lambda>m2.
                   Inr (start, expr_upd brace_open m2)))
          else Inr (start, expr_upd brace_open m))
      else if chr = CHR '')'' then
        BEGIN_EXEC start m (\<lambda>m. bind (expr_do brace_close m) (\<lambda>m1. Inr (start, m1)))
      else if chr = CHR '','' then
        BEGIN_EXEC start m (\<lambda>m.
          bind (expr_do eval m) (\<lambda>m1. Inr (start, expr_upd (push_op OP_NEW) m1)))
      else if chr = CHR ''.'' then
        BEGIN_EXEC start m (\<lambda>m.
          bind (expr_do eval m) (\<lambda>m1.
            Inr (start, expr_upd (push (word_of_int (SCI_GETCURRENTPOS (view m1)))) m1)))
      else if chr = CHR ''Z'' then
        BEGIN_EXEC start m (\<lambda>m.
          bind (expr_do eval m) (\<lambda>m1.
            Inr (start, expr_upd (push (word_of_int (SCI_GETLENGTH (view m1)))) m1)))
      else if chr = CHR ''H'' then
        BEGIN_EXEC start m (\<lambda>m.
          bind (expr_do eval m) (\<lambda>m1.
            Inr (start, expr_upd (push (word_of_int (SCI_GETLENGTH (view m1))))
                          (expr_upd (push 0) m1))))
      else if chr = CHR ''<'' then
        (if mode m = MODE_PARSE_ONLY_LOOP
         then Inr (start, (undo_push_m (UndoVarNestLevel (nest_level m)) m)
                            \<lparr>nest_level := nest_level m + 1\<rparr>)
         else BEGIN_EXEC start m loop_start)
      else if chr = CHR ''>'' then
        (if mode m = MODE_PARSE_ONLY_LOOP
         then (if nest_level m = 0
               then Inr (start, (undo_push_m (UndoVarMode (mode m)) m)\<lparr>mode := MODE_NORMAL\<rparr>)
               else Inr (start, (undo_push_m (UndoVarNestLevel (nest_level m)) m)
                                  \<lparr>nest_level := nest_level m - 1\<rparr>))
         else BEGIN_EXEC start m loop_end)
      else if chr = CHR '';'' then BEGIN_EXEC start m loop_break
      else if chr = CHR ''|'' then
        (if mode m = MODE_PARSE_ONLY_COND
         then (if \<not> skip_else m \<and> nest_level m = 0
               then Inr (start, (undo_push_m (UndoVarMode (mode m)) m)\<lparr>mode := MODE_NORMAL\<rparr>)
               else Inr (start, m))
         else BEGIN_EXEC start m (\<lambda>m.
                Inr (start, (undo_push_m (UndoVarMode (mode m)) m)
                              \<lparr>mode := MODE_PARSE_ONLY_COND\<rparr>)))
      else if chr = CHR 0x27 then
        (if mode m \<noteq> MODE_PARSE_ONLY_COND then Inr (start, m)
         else if nest_level m = 0
              then Inr (start, (undo_push_m (UndoVarSkipElse (skip_else m))
                                  ((undo_push_m (UndoVarMode (mode m)) m)\<lparr>mode := MODE_NORMAL\<rparr>))
                                 \<lparr>skip_else := False\<rparr>)
              else Inr (start, (undo_push_m (UndoVarNestLevel (nest_level m)) m)
                                 \<lparr>nest_level := nest_level m - 1\<rparr>))
      else if chr = CHR ''@'' then
        Inr (start, (undo_push_m (UndoVarAt (at m)) m)\<lparr>at := True\<rparr>)
      else if chr = CHR '':'' then
        BEGIN_EXEC start m (\<lambda>m.
          Inr (start, (undo_push_m (UndoVarColon (colon m)) m)\<lparr>colon := True\<rparr>))
      else if chr = CHR ''J'' then BEGIN_EXEC start m cmd_J
      else if chr = CHR ''C'' then BEGIN_EXEC start m cmd_C
      else if chr = CHR ''R'' then BEGIN_EXEC start m cmd_R
      else if chr = CHR ''L'' then BEGIN_EXEC start m cmd_L
      else if chr = CHR ''B'' then BEGIN_EXEC start m cmd_B
      else BEGIN_EXEC start m (cmd_W ext)))"

subsection \<open>The other states of parser.cpp\<close>

text \<open>
  \<^verbatim>\<open>State::get_next_state\<close> for a state with the transition table \<open>table\<close> and the
  handler \<open>custom\<close>. The table has 256 entries; the upper-cased character is converted
  from the signed \<^verbatim>\<open>gchar\<close> to an unsigned index, so only the characters below 128 are
  looked up.
\<close>

definition lookup_transition :: "(char \<Rightarrow> State option) \<Rightarrow> char \<Rightarrow> State option" where
  "lookup_transition table chr =
     (if (of_char (String_toupper chr) :: nat) < 128 then table (String_toupper chr) else None)"

definition check_custom :: "char \<Rightarrow> State option result \<Rightarrow> State result" where
  \<comment> \<open>\<^verbatim>\<open>if (!next) throw SyntaxError(chr)\<close>\<close>
  "check_custom chr r =
     (case r of
        Inl x \<Rightarrow> Inl x
      | Inr (None, m') \<Rightarrow> Inl (SyntaxError chr, m')
      | Inr (Some next, m') \<Rightarrow> Inr (next, m'))"

definition get_next_state ::
  "(char \<Rightarrow> State option) \<Rightarrow> (char \<Rightarrow> machine \<Rightarrow> State option result) \<Rightarrow> char \<Rightarrow> machine
   \<Rightarrow> State result" where
  "get_next_state table custom chr m =
     (case lookup_transition table chr of
        Some next \<Rightarrow> Inr (next, m)
      | None \<Rightarrow> check_custom chr (custom chr m))"

text \<open>
  The transition tables that the constructors in parser.cpp fill. \<^verbatim>\<open>State::init\<close>
  (parser.h, not part of the sources) enters the state itself for each of the given
  characters, here the white space that the start state skips. The state of the command
  M, whose constructor is not part of the sources, stays in itself on NUL like every
  state here.
\<close>

definition transitions :: "externals \<Rightarrow> State \<Rightarrow> char \<Rightarrow> State option" where
  "transitions ext st c =
     (if st = start then
        (if c = CHR 0x00 \<or> c \<in> set [CHR '' '', CHR 0x0C, CHR 0x0D, CHR 0x0A, CHR 0x0B]
         then Some start
         else map_of
           [(CHR ''$'', escape), (CHR ''!'', label), (CHR ''O'', gotocmd), (CHR ''^'', control),
            (CHR ''F'', fcommand), (CHR 0x22, condcommand), (CHR ''E'', ecommand),
            (CHR ''I'', insert_building), (CHR ''?'', gethelp), (CHR ''S'', search),
            (CHR ''N'', searchall), (CHR ''['', pushqreg), (CHR '']'', popqreg),
            (CHR ''G'', getqregstring), (CHR ''Q'', queryqreg), (CHR ''U'', setqreginteger),
            (CHR ''%'', increaseqreg), (CHR ''M'', macro), (CHR ''X'', copytoqreg)] c)
      else if st = fcommand then
        map_of [(CHR 0x00, fcommand), (CHR ''K'', searchkill), (CHR ''D'', searchdelete),
                (CHR ''S'', replace), (CHR ''R'', replacedefault), (CHR ''G'', changedir)] c
      else if st = condcommand then map_of [(CHR 0x00, condcommand)] c
      else if st = control then
        map_of [(CHR 0x00, control), (CHR ''I'', insert_indent), (CHR ''U'', ctlucommand),
                (CHR ''^'', ascii), (CHR ''['', escape)] c
      else if st = ascii then map_of [(CHR 0x00, ascii)] c
      else if st = escape then map_of [(CHR 0x00, escape)] c
      else if st = ecommand then
        map_of [(CHR 0x00, ecommand), (CHR ''%'', epctcommand), (CHR ''B'', editfile),
                (CHR ''C'', executecommand), (CHR ''G'', egcommand),
                (CHR ''I'', insert_nobuilding), (CHR ''M'', macro_file),
                (CHR ''N'', glob_pattern), (CHR ''S'', scintilla_symbols),
                (CHR ''Q'', eqcommand), (CHR ''U'', eucommand), (CHR ''W'', savefile)] c
      else if st = macro then map_of [(CHR 0x00, macro)] c
      else ext_transitions ext st c)"

text \<open>
  \<^verbatim>\<open>StateControl::custom\<close>. \<^verbatim>\<open>^C\<close>, which quits, is left to \<open>ext_custom\<close>.
  \<^verbatim>\<open>Expressions::set_radix\<close> sets the radix, a settable field.
\<close>

definition StateControl_custom :: "externals \<Rightarrow> char \<Rightarrow> machine \<Rightarrow> State option result" where
  "StateControl_custom ext chr m =
     (let c = String_toupper chr
      in if c = CHR ''C'' then ext_custom ext control chr m
         else some_state
          (if c = CHR ''O'' then
             BEGIN_EXEC start m (\<lambda>m. Inr (start, expr_upd (\<lambda>e. e\<lparr>radix := 8\<rparr>) m))
           else if c = CHR ''D'' then
             BEGIN_EXEC start m (\<lambda>m. Inr (start, expr_upd (\<lambda>e. e\<lparr>radix := 10\<rparr>) m))
           else if c = CHR ''R'' then
             BEGIN_EXEC start m (\<lambda>m.
               bind (expr_do eval m) (\<lambda>m1.
                 if args (expressions m1) = 0
                 then Inr (start, expr_upd (push (radix (expressions m1))) m1)
                 else bind (expr_pop pop_num_calc_sign m1) (\<lambda>(v, m2).
                        Inr (start, expr_upd (\<lambda>e. e\<lparr>radix := v\<rparr>) m2))))
           else if c = CHR ''_'' then
             BEGIN_EXEC start m (\<lambda>m.
               bind (expr_pop pop_num_calc_sign m) (\<lambda>(v, m1).
                 Inr (start, expr_upd (push (not v)) m1)))
           else if c = CHR ''*'' then calc_command OP_POW m
           else if c = CHR ''/'' then calc_command OP_MOD m
           else if c = CHR ''#'' then calc_command OP_XOR m
           else Inl (Error ''Unsupported command'', m)))"

text \<open>\<^verbatim>\<open>StateStart::custom\<close>.\<close>

definition StateStart_custom :: "externals \<Rightarrow> char \<Rightarrow> machine \<Rightarrow> State option result" where
  "StateStart_custom ext chr m =
     (if IS_CTL chr
      then some_state (get_next_state (transitions ext control) (StateControl_custom ext)
                         (CTL_ECHO chr) m)
      else if g_ascii_isdigit chr
           then some_state (BEGIN_EXEC start m (\<lambda>m. Inr (start, expr_upd (add_digit chr) m)))
           else StateStart_command ext (String_toupper chr) m)"

text \<open>\<^verbatim>\<open>StateASCII::custom\<close>.\<close>

definition StateASCII_custom :: "char \<Rightarrow> machine \<Rightarrow> State option result" where
  "StateASCII_custom chr m =
     some_state (BEGIN_EXEC start m (\<lambda>m. Inr (start, expr_upd (push (gchar_value chr)) m)))"

text \<open>
  \<^verbatim>\<open>StateEscape::custom\<close>: a second escape or dollar returns from the macro with the
  number of arguments; anything else discards the arguments and is a command of the start
  state.
\<close>

definition CTL_KEY_ESC :: char where
  "CTL_KEY_ESC = CHR 0x1B"

definition StateEscape_custom :: "externals \<Rightarrow> char \<Rightarrow> machine \<Rightarrow> State option result" where
  "StateEscape_custom ext chr m =
     (if chr = CTL_KEY_ESC \<or> chr = CHR ''$''
      then some_state
             (BEGIN_EXEC start m (\<lambda>m.
                bind (expr_do eval (m\<lparr>current := start\<rparr>)) (\<lambda>m1.
                  Inl (Return (args (expressions m1)), m1))))
      else bind (if mode m = MODE_NORMAL then expr_do discard_args m else Inr m) (\<lambda>m1.
             some_state (get_next_state (transitions ext start) (StateStart_custom ext) chr m1)))"

text \<open>\<^verbatim>\<open>StateFCommand::custom\<close>: the loop and conditional flow control \<^verbatim>\<open>F<\<close>, \<^verbatim>\<open>F>\<close>, \<^verbatim>\<open>F'\<close>, \<^verbatim>\<open>F|\<close>.\<close>

definition loop_continue :: "machine \<Rightarrow> State result" where
  "loop_continue m =
     (if length (loop_stack m) \<le> loop_stack_fp m
      then Inl (Error ''Jump to loop end without corresponding loop start command'', m)
      else case loop_stack m of
             [] \<Rightarrow> Inl (Error ''Jump to loop end without corresponding loop start command'', m)
           | ctx # frames \<Rightarrow>
               (case eval_colon m of
                  (colon_modified, m1) \<Rightarrow>
                    bind (loop_end_args ctx colon_modified m1) (\<lambda>m2.
                      if counter ctx = 1
                      then bind (if \<not> pass_through ctx then expr_do brace_close m2 else Inr m2)
                             (\<lambda>m3. Inr (start,
                                (undo_push_m (UndoVarMode (mode m3))
                                   (undo_push_m (UndoLoopPush ctx) (m3\<lparr>loop_stack := frames\<rparr>)))
                                  \<lparr>mode := MODE_PARSE_ONLY_LOOP\<rparr>))
                      else Inr (start,
                             m2\<lparr>macro_pc := pc ctx,
                                loop_stack :=
                                  ctx\<lparr>counter := (if sint (counter ctx - 1) < - 1 then - 1
                                                   else counter ctx - 1)\<rparr> # frames\<rparr>))))"

definition StateFCommand_custom :: "char \<Rightarrow> machine \<Rightarrow> State option result" where
  "StateFCommand_custom chr m =
     some_state
       (if chr = CHR ''<'' then
          BEGIN_EXEC start m (\<lambda>m.
            bind (expr_do discard_args m) (\<lambda>m1.
              Inr (start, m1\<lparr>macro_pc := (if length (loop_stack m1) > loop_stack_fp m1
                                           then (case loop_stack m1 of
                                                   [] \<Rightarrow> - 1
                                                 | ctx # frames \<Rightarrow> pc ctx)
                                           else - 1)\<rparr>)))
        else if chr = CHR ''>'' then BEGIN_EXEC start m loop_continue
        else if chr = CHR 0x27 then
          BEGIN_EXEC start m (\<lambda>m.
            Inr (start, (undo_push_m (UndoVarSkipElse (skip_else m))
                           ((undo_push_m (UndoVarMode (mode m)) m)\<lparr>mode := MODE_PARSE_ONLY_COND\<rparr>))
                          \<lparr>skip_else := True\<rparr>))
        else if chr = CHR ''|'' then
          BEGIN_EXEC start m (\<lambda>m.
            Inr (start, (undo_push_m (UndoVarMode (mode m)) m)\<lparr>mode := MODE_PARSE_ONLY_COND\<rparr>))
        else Inl (SyntaxError chr, m))"

text \<open>\<^verbatim>\<open>StateCondCommand::custom\<close>: the conditional \<^verbatim>\<open>"X\<close> with the test kind \<open>X\<close>.\<close>

definition gchar_of :: "tecoInt \<Rightarrow> nat" where
  \<comment> \<open>the cast \<^verbatim>\<open>(gchar)value\<close>, as the code of the byte\<close>
  "gchar_of v = unat v mod 256"

definition g_ascii_isupper :: "nat \<Rightarrow> bool" where
  "g_ascii_isupper c = (65 \<le> c \<and> c \<le> 90)"

definition g_ascii_islower :: "nat \<Rightarrow> bool" where
  "g_ascii_islower c = (97 \<le> c \<and> c \<le> 122)"

definition g_ascii_isalpha :: "nat \<Rightarrow> bool" where
  "g_ascii_isalpha c = (g_ascii_isupper c \<or> g_ascii_islower c)"

definition g_ascii_isalnum :: "nat \<Rightarrow> bool" where
  "g_ascii_isalnum c = (g_ascii_isalpha c \<or> (48 \<le> c \<and> c \<le> 57))"

definition cond_test :: "char \<Rightarrow> tecoInt \<Rightarrow> machine \<Rightarrow> bool option" where
  \<comment> \<open>the second \<^verbatim>\<open>switch\<close>: the test of each kind, \<open>None\<close> for an invalid kind\<close>
  "cond_test c v m =
     (if c = CHR ''~'' then Some (args (expressions m) = 0)
      else if c = CHR ''A'' then Some (g_ascii_isalpha (gchar_of v))
      else if c = CHR ''C'' then
        Some (g_ascii_isalnum (gchar_of v) \<or> v = 46 \<or> v = 36 \<or> v = 95)
      else if c = CHR ''D'' then Some (48 \<le> gchar_of v \<and> gchar_of v \<le> 57)
      else if c = CHR ''I'' then Some (gchar_of v = 47)
      else if c = CHR ''S'' \<or> c = CHR ''T'' then Some (IS_SUCCESS v)
      else if c = CHR ''F'' \<or> c = CHR ''U'' then Some (IS_FAILURE v)
      else if c = CHR ''E'' \<or> c = CHR ''='' then Some (v = 0)
      else if c = CHR ''G'' \<or> c = CHR ''>'' then Some (0 < sint v)
      else if c = CHR ''L'' \<or> c = CHR ''<'' then Some (sint v < 0)
      else if c = CHR ''N'' then Some (v \<noteq> 0)
      else if c = CHR ''R'' then Some (g_ascii_isalnum (gchar_of v))
      else if c = CHR ''V'' then Some (g_ascii_islower (gchar_of v))
      else if c = CHR ''W'' then Some (g_ascii_isupper (gchar_of v))
      else None)"

definition cond_value :: "char \<Rightarrow> machine \<Rightarrow> exn \<times> machine + tecoInt \<times> machine" where
  \<comment> \<open>the first \<^verbatim>\<open>switch\<close>, on the mode: the value the test is made on\<close>
  "cond_value chr m =
     (if mode m = MODE_PARSE_ONLY_COND
      then Inr (0, (undo_push_m (UndoVarNestLevel (nest_level m)) m)
                     \<lparr>nest_level := nest_level m + 1\<rparr>)
      else if mode m = MODE_NORMAL
      then bind (expr_do eval m) (\<lambda>m1.
             if chr = CHR ''~'' then Inr (0, m1)
             else if args (expressions m1) = 0 then Inl (ArgExpectedError [CHR 0x22], m1)
             else expr_pop pop_num_calc_sign m1)
      else Inr (0, m))"

definition StateCondCommand_custom :: "char \<Rightarrow> machine \<Rightarrow> State option result" where
  "StateCondCommand_custom chr m =
     some_state
       (bind (cond_value chr m) (\<lambda>(v, m1).
          case cond_test (String_toupper chr) v m1 of
            None \<Rightarrow> Inl (Error ''Invalid conditional type'', m1)
          | Some res \<Rightarrow>
              BEGIN_EXEC start m1 (\<lambda>m1.
                if \<not> res
                then Inr (start, (undo_push_m (UndoVarMode (mode m1)) m1)
                                   \<lparr>mode := MODE_PARSE_ONLY_COND\<rparr>)
                else Inr (start, m1))))"

subsection \<open>Executing macros\<close>

text \<open>
  The command M. Its state belongs to files that are not part of the sources; in
  qbuffers.cpp, \<^verbatim>\<open>StateMacro::got_register\<close> executes the register's string as a macro
  (\<^verbatim>\<open>QRegister::execute\<close>), without new local registers if colon-modified.
  Modelled from the spec: a register specifier is one character, or \<open>.\<close> followed by one
  character for a local register, or \<open>#\<close> followed by two characters; single-letter names
  are normalized to upper case. The forms with a prefix and the register of the current
  buffer are left to \<open>ext_custom\<close>.
  The execution of a macro is the parameter \<open>call\<close>; it has no result (\<open>None\<close>) when
  the macro does not finish.
\<close>

definition QRegister_execute ::
  "(string \<Rightarrow> bool \<Rightarrow> machine \<Rightarrow> (exn \<times> machine + machine) option) \<Rightarrow> string \<Rightarrow> bool
   \<Rightarrow> machine \<Rightarrow> (exn \<times> machine + machine) option" where
  "QRegister_execute call r locals m = (case get_string r m of (str, m1) \<Rightarrow> call str locals m1)"

definition StateMacro_custom ::
  "externals \<Rightarrow> (string \<Rightarrow> bool \<Rightarrow> machine \<Rightarrow> (exn \<times> machine + machine) option) \<Rightarrow> char
   \<Rightarrow> machine \<Rightarrow> State option result option" where
  "StateMacro_custom ext call chr m =
     (if chr = CHR ''.'' \<or> chr = CHR ''#'' \<or> chr = CHR ''*'' then Some (ext_custom ext macro chr m)
      else if mode m \<noteq> MODE_NORMAL then Some (Inr (Some start, m))
      else case eval_colon m of
             (c, m1) \<Rightarrow>
               (case QRegister_execute call [String_toupper chr] (\<not> c) m1 of
                  None \<Rightarrow> None
                | Some (Inl x) \<Rightarrow> Some (Inl x)
                | Some (Inr m2) \<Rightarrow> Some (Inr (Some start, m2))))"

text \<open>The handler \<open>custom\<close> of each state, and \<^verbatim>\<open>State::get_next_state\<close> with it.\<close>

definition State_custom ::
  "externals \<Rightarrow> (string \<Rightarrow> bool \<Rightarrow> machine \<Rightarrow> (exn \<times> machine + machine) option) \<Rightarrow> State
   \<Rightarrow> char \<Rightarrow> machine \<Rightarrow> State option result option" where
  "State_custom ext call st chr m =
     (if st = start then Some (StateStart_custom ext chr m)
      else if st = control then Some (StateControl_custom ext chr m)
      else if st = ascii then Some (StateASCII_custom chr m)
      else if st = escape then Some (StateEscape_custom ext chr m)
      else if st = fcommand then Some (StateFCommand_custom chr m)
      else if st = condcommand then Some (StateCondCommand_custom chr m)
      else if st = macro then StateMacro_custom ext call chr m
      else Some (ext_custom ext st chr m))"

definition State_get_next_state ::
  "(State \<Rightarrow> char \<Rightarrow> State option)
   \<Rightarrow> (State \<Rightarrow> char \<Rightarrow> machine \<Rightarrow> State option result option)
   \<Rightarrow> State \<Rightarrow> char \<Rightarrow> machine \<Rightarrow> State result option" where
  "State_get_next_state table custom st chr m =
     (case lookup_transition (table st) chr of
        Some next \<Rightarrow> Some (Inr (next, m))
      | None \<Rightarrow> map_option (check_custom chr) (custom st chr m))"

text \<open>
  \<^verbatim>\<open>State::input\<close>. The loop feeds the character to the current state and then NUL to
  each state entered, until a state returns itself; \<open>n\<close> bounds the number of rounds,
  and there is no result (\<open>None\<close>) when they do not suffice.
\<close>

fun input_loop ::
  "nat \<Rightarrow> (State \<Rightarrow> char \<Rightarrow> machine \<Rightarrow> State result option) \<Rightarrow> State \<Rightarrow> char \<Rightarrow> machine
   \<Rightarrow> State result option" where
  "input_loop 0 next_state st chr m = None"
| "input_loop (Suc n) next_state st chr m =
     (case next_state st chr m of
        None \<Rightarrow> None
      | Some (Inl x) \<Rightarrow> Some (Inl x)
      | Some (Inr (next, m')) \<Rightarrow>
          if next = st then Some (Inr (st, m'))
          else input_loop n next_state next (CHR 0x00) m')"

definition State_input ::
  "nat \<Rightarrow> (State \<Rightarrow> char \<Rightarrow> machine \<Rightarrow> State result option) \<Rightarrow> char \<Rightarrow> machine
   \<Rightarrow> (exn \<times> machine + machine) option" where
  "State_input n next_state chr m =
     (case input_loop n next_state (current m) chr m of
        None \<Rightarrow> None
      | Some (Inl x) \<Rightarrow> Some (Inl x)
      | Some (Inr (st, m')) \<Rightarrow>
          Some (Inr (if st \<noteq> current m'
                     then (undo_push_m (UndoVarState (current m')) m')\<lparr>current := st\<rparr>
                     else m')))"

text \<open>
  \<^verbatim>\<open>brace_return\<close> of the expression stack and \<^verbatim>\<open>LoopStack::clear\<close>, which are not part
  of the sources.
  Modelled from the spec: \<open>brace_return(level, keep)\<close> collapses braces back to \<open>level\<close>,
  retaining the top \<open>keep\<close> integers; on a return the loop stack is truncated to the
  frame pointer.
\<close>

fun drop_braces :: "nat \<Rightarrow> entry list \<Rightarrow> entry list" where
  "drop_braces 0 es = es"
| "drop_braces (Suc n) [] = []"
| "drop_braces (Suc n) (Op OP_BRACE # es) = drop_braces n es"
| "drop_braces (Suc n) (x # es) = drop_braces (Suc n) es"

definition brace_return :: "nat \<Rightarrow> nat \<Rightarrow> Expressions \<Rightarrow> Expressions" where
  "brace_return level keep e =
     e\<lparr>entries := take keep (entries e)
                   @ drop_braces (brace_level e - level) (drop keep (entries e)),
       brace_level := min level (brace_level e)\<rparr>"

definition LoopStack_clear :: "nat \<Rightarrow> LoopContext list \<Rightarrow> LoopContext list" where
  "LoopStack_clear keep frames = drop (length frames - keep) frames"

text \<open>
  The hooks of the states at the end of a macro and of the command line.
  \<^verbatim>\<open>StateEscape::end_of_macro\<close> discards the arguments; the hooks of the start state
  (parser.h, not part of the sources) do nothing, as the macro may end there.
\<close>

definition State_end_of_macro :: "externals \<Rightarrow> State \<Rightarrow> machine \<Rightarrow> exn \<times> machine + machine" where
  "State_end_of_macro ext st m =
     (if st = start then Inr m
      else if st = escape then expr_do discard_args m
      else ext_end_of_macro ext st m)"

definition State_refresh :: "externals \<Rightarrow> State \<Rightarrow> machine \<Rightarrow> exn \<times> machine + machine" where
  "State_refresh ext st m =
     (if st \<in> {start, control, ascii, escape, fcommand, condcommand, ecommand} then Inr m
      else ext_refresh ext st m)"

text \<open>
  \<^verbatim>\<open>Execute::step\<close> and \<^verbatim>\<open>Execute::macro\<close>. \<open>n\<close> bounds the characters executed and the
  depth of the macro calls; there is no result (\<open>None\<close>) when it does not suffice, and
  none when the program counter is negative, where the C++ code reads before the macro.
  The coordinates that errors carry, the memory limit, the table of labels and the table
  of local registers are not modelled.
\<close>

definition macro_checks :: "externals \<Rightarrow> bool \<Rightarrow> machine \<Rightarrow> exn \<times> machine + machine" where
  \<comment> \<open>the checks of \<^verbatim>\<open>Execute::macro\<close> once the loop stack is clean\<close>
  "macro_checks ext locals m =
     (if skip_label m \<noteq> None then Inl (Error ''Label not found'', m)
      else bind (State_end_of_macro ext (current m) m) (\<lambda>m1.
             if locals then ext_locals_clear ext m1 else Inr m1))"

definition macro_exit ::
  "externals \<Rightarrow> bool \<Rightarrow> State \<Rightarrow> int \<Rightarrow> nat \<Rightarrow> nat \<Rightarrow> exn \<times> machine + machine
   \<Rightarrow> exn \<times> machine + machine" where
  \<comment> \<open>\<^verbatim>\<open>Execute::macro\<close> from the return of \<^verbatim>\<open>step\<close> on\<close>
  "macro_exit ext locals parent_state parent_pc parent_loop_fp parent_brace_level r =
     (let restore = (\<lambda>mx. mx\<lparr>loop_stack_fp := parent_loop_fp, macro_pc := parent_pc,
                              current := parent_state\<rparr>);
          cleanup = (\<lambda>mx. restore (mx\<lparr>skip_label := None\<rparr>))
      in case (case r of
                 Inl (Return n, m2) \<Rightarrow>
                   Inr ((expr_upd (brace_return parent_brace_level n) m2)
                          \<lparr>loop_stack := LoopStack_clear (loop_stack_fp m2) (loop_stack m2)\<rparr>)
               | Inl (x, m2) \<Rightarrow> Inl (x, m2)
               | Inr m2 \<Rightarrow> Inr m2) of
           Inl (x, m2) \<Rightarrow> Inl (x, cleanup m2)
         | Inr m2 \<Rightarrow>
             if length (loop_stack m2) > loop_stack_fp m2
             then Inl (Error ''Unterminated loop'', cleanup m2)
             else (case macro_checks ext locals m2 of
                     Inl (x, m3) \<Rightarrow> Inl (x, cleanup m3)
                   | Inr m3 \<Rightarrow> Inr (restore m3)))"

definition macro_entry :: "machine \<Rightarrow> machine" where
  \<comment> \<open>the state in which \<^verbatim>\<open>Execute::macro\<close> starts to execute the macro\<close>
  "macro_entry m =
     (undo_push_m (UndoVarState (current m)) m)
       \<lparr>current := start, macro_pc := 0, loop_stack_fp := length (loop_stack m)\<rparr>"

definition Execute_char ::
  "(string \<Rightarrow> bool \<Rightarrow> machine \<Rightarrow> (exn \<times> machine + machine) option) \<Rightarrow> nat \<Rightarrow> externals
   \<Rightarrow> string \<Rightarrow> machine \<Rightarrow> (exn \<times> machine + machine) option" where
  \<comment> \<open>one round of the loop of \<^verbatim>\<open>Execute::step\<close>, with \<open>call\<close> executing the macros called\<close>
  "Execute_char call n ext mac m =
     (if interrupted m then Some (Inl (Error ''Interrupted'', m))
      else if macro_pc m < 0 then None
      else case State_input n (State_get_next_state (transitions ext) (State_custom ext call))
                  (mac ! nat (macro_pc m)) m of
             None \<Rightarrow> None
           | Some (Inl x) \<Rightarrow> Some (Inl x)
           | Some (Inr m') \<Rightarrow> Some (Inr (m'\<lparr>macro_pc := macro_pc m' + 1\<rparr>)))"

fun Execute_macro ::
  "nat \<Rightarrow> externals \<Rightarrow> string \<Rightarrow> bool \<Rightarrow> machine \<Rightarrow> (exn \<times> machine + machine) option"
and Execute_step ::
  "nat \<Rightarrow> externals \<Rightarrow> string \<Rightarrow> int \<Rightarrow> machine \<Rightarrow> (exn \<times> machine + machine) option"
where
  "Execute_step 0 ext mac stop_pos m = None"
| "Execute_step (Suc n) ext mac stop_pos m =
     (if macro_pc m < stop_pos
      then (case Execute_char (Execute_macro n ext) n ext mac m of
              None \<Rightarrow> None
            | Some (Inl x) \<Rightarrow> Some (Inl x)
            | Some (Inr m') \<Rightarrow> Execute_step n ext mac stop_pos m')
      else Some (State_refresh ext (current m) m))"
| "Execute_macro 0 ext mac locals m = None"
| "Execute_macro (Suc n) ext mac locals m =
     (case Execute_step n ext mac (int (length mac)) (macro_entry m) of
        None \<Rightarrow> None
      | Some r \<Rightarrow>
          Some (macro_exit ext locals (current m) (macro_pc m) (loop_stack_fp m)
                  (brace_level (expressions m)) r))"

text \<open>
  What \<^verbatim>\<open>QRegisters::hook\<close> (qbuffers.cpp) does when the flag \<^verbatim>\<open>ED_HOOKS\<close> is set, as
  the parameter \<open>run_hook\<close> of the buffer ring: it pushes the hook type and executes the
  string of the global register 0 as a macro. \<open>code\<close> is the numbering of the hook
  types and the default argument of \<^verbatim>\<open>execute\<close> (new local registers) is that of a
  macro call; both are declared in qbuffers.h, which is not part of the sources. A macro
  that does not finish within the bound \<open>n\<close> is interrupted.
\<close>

definition hook_macro ::
  "nat \<Rightarrow> externals \<Rightarrow> (Hook \<Rightarrow> tecoInt) \<Rightarrow> Hook \<Rightarrow> machine \<Rightarrow> exn \<times> machine + machine" where
  "hook_macro n ext code type m =
     (case QRegister_execute (Execute_macro n ext) ''0'' True (expr_upd (push (code type)) m) of
        None \<Rightarrow> Inl (Error ''Interrupted'', m)
      | Some r \<Rightarrow> r)"

text \<open>
  The command EB from the entry of its state to the end of its string argument \<open>str\<close>:
  \<^verbatim>\<open>StateExpectString::custom\<close> (parser.cpp) calls \<^verbatim>\<open>initial()\<close> when the state is entered and
  \<^verbatim>\<open>done()\<close> with the string when the terminating escape character is read. The
  characters in between are only collected into the string (string building and the
  accumulation are not modelled).
\<close>

definition EB_command ::
  "(Hook \<Rightarrow> machine \<Rightarrow> exn \<times> machine + machine)
   \<Rightarrow> (string \<Rightarrow> machine \<Rightarrow> exn \<times> machine + machine) \<Rightarrow> string \<Rightarrow> machine
   \<Rightarrow> exn \<times> machine + State \<times> machine" where
  "EB_command run_hook edit_files str m =
     (case StateEditFile_custom_NUL run_hook m of
        Inl x \<Rightarrow> Inl x
      | Inr (st, m') \<Rightarrow> StateEditFile_done edit_files str m')"

subsection \<open>The states during the execution of a macro\<close>

text \<open>
  The states that the loop of \<^verbatim>\<open>Execute::step\<close> passes through from the state \<open>m0\<close>:
  \<open>m0\<close> itself and, while the program counter is before the end, the state after
  each character executed (with whatever bound suffices for it).
\<close>

inductive reaches :: "externals \<Rightarrow> string \<Rightarrow> int \<Rightarrow> machine \<Rightarrow> machine \<Rightarrow> bool"
  for ext :: externals and mac :: string and stop_pos :: int and m0 :: machine where
  reaches_start: "reaches ext mac stop_pos m0 m0"
| reaches_char:
    "reaches ext mac stop_pos m0 m \<Longrightarrow> macro_pc m < stop_pos \<Longrightarrow>
     Execute_char (Execute_macro n ext) n ext mac m = Some (Inr m') \<Longrightarrow>
     reaches ext mac stop_pos m0 m'"

text \<open>The state after \<open>k\<close> rounds of that loop, if they all return.\<close>

fun chars_run :: "nat \<Rightarrow> nat \<Rightarrow> externals \<Rightarrow> string \<Rightarrow> machine \<Rightarrow> machine option" where
  "chars_run 0 n ext mac m = Some m"
| "chars_run (Suc k) n ext mac m =
     (case chars_run k n ext mac m of
        None \<Rightarrow> None
      | Some m1 \<Rightarrow>
          if macro_pc m1 < int (length mac)
          then (case Execute_char (Execute_macro n ext) n ext mac m1 of
                  Some (Inr m2) \<Rightarrow> Some m2
                | _ \<Rightarrow> None)
          else None)"

text \<open>
  How a command may change the loop stack: the frame pointer stays, and if the loop stack
  held at least as many frames as the frame pointer says, it still does.
  A command that returns, rather than throws, also leaves the current state to
  \<^verbatim>\<open>State::input\<close>.
\<close>

definition fp_ok :: "machine \<Rightarrow> bool" where
  "fp_ok m = (loop_stack_fp m \<le> length (loop_stack m))"

definition frames_kept :: "machine \<Rightarrow> machine \<Rightarrow> bool" where
  "frames_kept m m' = (loop_stack_fp m' = loop_stack_fp m \<and> (fp_ok m \<longrightarrow> fp_ok m'))"

definition at_ok :: "machine \<Rightarrow> machine \<Rightarrow> bool" where
  "at_ok m m' = (frames_kept m m' \<and> current m' = current m)"

definition step_ok :: "machine \<Rightarrow> exn \<times> machine + 'a \<times> machine \<Rightarrow> bool" where
  "step_ok m r = (case r of Inl (x, m') \<Rightarrow> frames_kept m m' | Inr (y, m') \<Rightarrow> at_ok m m')"

definition step_ok0 :: "machine \<Rightarrow> exn \<times> machine + machine \<Rightarrow> bool" where
  "step_ok0 m r = (case r of Inl (x, m') \<Rightarrow> frames_kept m m' | Inr m' \<Rightarrow> at_ok m m')"

definition run_ok :: "machine \<Rightarrow> exn \<times> machine + machine \<Rightarrow> bool" where
  \<comment> \<open>for \<^verbatim>\<open>State::input\<close> and \<^verbatim>\<open>Execute::step\<close>, which change the current state\<close>
  "run_ok m r = (case r of Inl (x, m') \<Rightarrow> frames_kept m m' | Inr m' \<Rightarrow> frames_kept m m')"

text \<open>
  What is assumed of the commands and states that the parameters stand for. A command
  keeps the frame pointer (a static variable of parser.cpp), leaves at least as many
  loop frames as the frame pointer says, and when it returns the current state is what
  it was; so does the hook \<open>refresh\<close>. The hooks at the end of a macro do not touch
  the loop stack.
\<close>

definition keeps_frames0 :: "machine \<Rightarrow> exn \<times> machine + machine \<Rightarrow> bool" where
  "keeps_frames0 m r =
     (case r of
        Inl (x, m') \<Rightarrow> loop_stack m' = loop_stack m \<and> loop_stack_fp m' = loop_stack_fp m
      | Inr m' \<Rightarrow> loop_stack m' = loop_stack m \<and> loop_stack_fp m' = loop_stack_fp m
                   \<and> current m' = current m)"

definition ext_ok :: "externals \<Rightarrow> bool" where
  "ext_ok ext =
     (\<forall>st c m. step_ok m (ext_custom ext st c m)
              \<and> step_ok0 m (ext_refresh ext st m)
              \<and> keeps_frames0 m (ext_end_of_macro ext st m)
              \<and> keeps_frames0 m (ext_locals_clear ext m))"

section \<open>The initial state\<close>

text \<open>
  The state after start-up: an empty expression stack, no loop, the journal enabled
  (interactive mode), and a ring with one unnamed, empty buffer, which is being edited.
\<close>

definition initial_machine :: machine where
  "initial_machine =
     \<lparr>current = start, mode = MODE_NORMAL, macro_pc = 0, colon = False, at = False,
      skip_else = False, nest_level = 0, loop_stack = [], loop_stack_fp = 0,
      expressions = \<lparr>entries = [], num_sign = 1, brace_level = 0, radix = 10\<rparr>,
      undo = \<lparr>enabled = True, tokens = []\<rparr>,
      view = \<lparr>docs = [(0, [])], doc_pointer = 0, current_pos = 0\<rparr>,
      globals = (\<lambda>r. \<lparr>integer = 0, string = None, dot = 0, must_undo = True\<rparr>),
      qreg_current = None, qreg_stack = [],
      ring = [\<lparr>filename = None, buf_dot = 0, dirty = False, savepoint_id = 0, buf_doc = 0\<rparr>],
      ring_current = Some 0, ed_hooks = False, allowFilename = True,
      fs = \<lparr>files = [], cwd = ''/home/user'', readonly = []\<rparr>,
      skip_label = None, interrupted = False, cmdline = []\<rparr>"

text \<open>A state with two buffers in the ring, the first being edited, and 2 on the stack.\<close>

definition two_buffers :: machine where
  "two_buffers =
     initial_machine
       \<lparr>expressions := \<lparr>entries = [Num 2], num_sign = 1, brace_level = 0, radix = 10\<rparr>,
        view := \<lparr>docs = [(0, ''one''), (1, ''two'')], doc_pointer = 0, current_pos = 0\<rparr>,
        ring := [\<lparr>filename = Some ''/home/user/a'', buf_dot = 0, dirty = False,
                  savepoint_id = 0, buf_doc = 0\<rparr>,
                 \<lparr>filename = Some ''/home/user/b'', buf_dot = 0, dirty = False,
                  savepoint_id = 0, buf_doc = 1\<rparr>]\<rparr>"

text \<open>
  A state in which the buffer of the existing file \<^verbatim>\<open>/home/user/a\<close> has been changed, with
  the journal enabled (interactive mode) and disabled (batch mode).
\<close>

definition edited_file :: machine where
  "edited_file =
     initial_machine
       \<lparr>view := \<lparr>docs = [(0, ''new'')], doc_pointer = 0, current_pos = 3\<rparr>,
        ring := [\<lparr>filename = Some ''/home/user/a'', buf_dot = 0, dirty = True,
                  savepoint_id = 0, buf_doc = 0\<rparr>],
        fs := \<lparr>files = [(''/home/user/a'', ''old'')], cwd = ''/home/user'', readonly = []\<rparr>\<rparr>"

definition edited_file_batch :: machine where
  "edited_file_batch = edited_file\<lparr>undo := \<lparr>enabled = False, tokens = []\<rparr>\<rparr>"

definition edited_new_file :: machine where
  \<comment> \<open>the same buffer when its file does not exist yet\<close>
  "edited_new_file =
     edited_file\<lparr>fs := \<lparr>files = [], cwd = ''/home/user'', readonly = []\<rparr>\<rparr>"

text \<open>
  Parameters for running the interpreter on its own: no other state or command exists
  (the null state, which is a syntax error), and every character is a word.
\<close>

definition no_externals :: externals where
  "no_externals =
     \<lparr>ext_transitions = (\<lambda>st c. None),
      ext_custom = (\<lambda>st c m. Inr (None, m)),
      ext_end_of_macro = (\<lambda>st m. Inl (Error ''Unterminated command'', m)),
      ext_refresh = (\<lambda>st m. Inr m),
      ext_locals_clear = (\<lambda>m. Inr m),
      SCI_WORDRIGHTEND = (\<lambda>v. SCI_GOTOPOS (SCI_GETCURRENTPOS v + 1) v),
      SCI_WORDLEFTEND = (\<lambda>v. SCI_GOTOPOS (SCI_GETCURRENTPOS v - 1) v)\<rparr>"

text \<open>
  A state at the start of a macro that was called from inside a loop of its caller: the
  loop stack holds the caller's frame and the frame pointer is 1. And the initial state
  with the macro \<^verbatim>\<open>;\<close> in register Q.
\<close>

definition in_callers_loop :: machine where
  "in_callers_loop =
     initial_machine
       \<lparr>loop_stack := [\<lparr>counter = 3, pc = 1, pass_through = False\<rparr>], loop_stack_fp := 1,
        expressions := \<lparr>entries = [Op OP_BRACE], num_sign = 1, brace_level = 1, radix = 10\<rparr>\<rparr>"

definition break_in_register :: machine where
  "break_in_register =
     initial_machine
       \<lparr>view := \<lparr>docs = [(0, []), (1, '';'')], doc_pointer = 0, current_pos = 0\<rparr>,
        globals := (\<lambda>r. \<lparr>integer = 0, string = (if r = ''Q'' then Some 1 else None), dot = 0,
                           must_undo = True\<rparr>)\<rparr>"

definition thrown :: "(exn \<times> machine + machine) option \<Rightarrow> exn option" where
  \<comment> \<open>the exception a run ended with, if any\<close>
  "thrown r = (case r of Some (Inl (x, m)) \<Rightarrow> Some x | _ \<Rightarrow> None)"

definition stack_after :: "'a result \<Rightarrow> entry list option" where
  \<comment> \<open>the expression stack after a command that returned\<close>
  "stack_after r = (case r of Inr (x, m) \<Rightarrow> Some (entries (expressions m)) | Inl x \<Rightarrow> None)"

text \<open>The initial state after \<^verbatim>\<open>1:\<close> was typed, and with the 1 popped.\<close>

definition colon_one :: machine where
  "colon_one =
     initial_machine
       \<lparr>colon := True,
        expressions := \<lparr>entries = [Num 1], num_sign = 1, brace_level = 0, radix = 10\<rparr>\<rparr>"

definition colon_popped :: machine where
  "colon_popped = initial_machine\<lparr>colon := True\<rparr>"

text \<open>
  The state in the first round of the loop of \<^verbatim>\<open>3<1+:></\<close>, before the \<^verbatim>\<open>></\<close>; and the
  expression stack that a run ended with.
\<close>

definition in_loop_body :: machine where
  "in_loop_body =
     initial_machine
       \<lparr>macro_pc := 5, colon := True,
        loop_stack := [\<lparr>counter = 3, pc = 1, pass_through = False\<rparr>],
        expressions := \<lparr>entries = [Op OP_ADD, Num 1, Op OP_BRACE], num_sign = 1,
                        brace_level = 1, radix = 10\<rparr>\<rparr>"

definition run_stack :: "(exn \<times> machine + machine) option \<Rightarrow> entry list option" where
  "run_stack r = (case r of Some (Inr m) \<Rightarrow> Some (entries (expressions m)) | _ \<Rightarrow> None)"

definition holds_integer :: "tecoInt \<Rightarrow> entry list option \<Rightarrow> bool" where
  \<comment> \<open>the integer is on the expression stack that a run ended with\<close>
  "holds_integer v r = (case r of None \<Rightarrow> False | Some es \<Rightarrow> Num v \<in> set es)"

text \<open>
  The state with two buffers when the hooks are enabled and register 0 holds the hook
  macro \<^verbatim>\<open>|\<close>, a numbering of the hook types (the macro does not look at it), and what
  is observed of the outcome of the command EB: the error, or the next state with the
  buffer being edited and the mode.
\<close>

definition hooked_buffers :: machine where
  "hooked_buffers =
     two_buffers
       \<lparr>ed_hooks := True,
        view := \<lparr>docs = [(0, ''one''), (1, ''two''), (2, ''|'')], doc_pointer = 0,
                  current_pos = 0\<rparr>,
        globals := (\<lambda>r. \<lparr>integer = 0, string = (if r = ''0'' then Some 2 else None), dot = 0,
                           must_undo = True\<rparr>)\<rparr>"

definition hook_codes :: "Hook \<Rightarrow> tecoInt" where
  "hook_codes h = (case h of HOOK_ADD \<Rightarrow> 1 | HOOK_EDIT \<Rightarrow> 2 | HOOK_CLOSE \<Rightarrow> 3 | HOOK_QUIT \<Rightarrow> 4)"

definition EB_outcome ::
  "exn \<times> machine + State \<times> machine \<Rightarrow> exn + State \<times> nat option \<times> Mode" where
  "EB_outcome r =
     (case r of Inl (x, m) \<Rightarrow> Inl x | Inr (st, m) \<Rightarrow> Inr (st, ring_current m, mode m))"

text \<open>The number of loop frames and the frame pointer of a state, if there is one.\<close>

definition frames_of :: "machine option \<Rightarrow> (nat \<times> nat) option" where
  "frames_of r = (case r of None \<Rightarrow> None
                  | Some m \<Rightarrow> Some (length (loop_stack m), loop_stack_fp m))"

definition run_result :: "(exn \<times> machine + machine) option \<Rightarrow> machine option" where
  "run_result r = (case r of Some (Inr m) \<Rightarrow> Some m | _ \<Rightarrow> None)"

section \<open>Properties of the registers and buffers\<close>

subsection \<open>The register stack\<close>

text \<open>
  C8: for every register \<open>r\<close>, \<open>pop\<close> on an empty register stack returns false and
  leaves the state, hence the integer, the string payload and the dot of \<open>r\<close>,
  unchanged; the command \<^verbatim>\<open>]\<close> executed in normal mode then raises the error
  "Q-Register stack is empty" in that unchanged state.
\<close>

theorem pop_empty_stack:
  "pop r (m\<lparr>qreg_stack := []\<rparr>) = (False, m\<lparr>qreg_stack := []\<rparr>)
   \<and> globals (snd (pop r (m\<lparr>qreg_stack := []\<rparr>))) r = globals m r
   \<and> StatePopQReg_got_register r (m\<lparr>qreg_stack := [], mode := MODE_NORMAL\<rparr>)
       = Inl (Error ''Q-Register stack is empty'', m\<lparr>qreg_stack := [], mode := MODE_NORMAL\<rparr>)"
  by (simp add: pop_def StatePopQReg_got_register_def)

subsection \<open>The string of a register\<close>

lemma fold_max_ge: "a \<le> fold max xs (a::nat) \<and> (\<forall>x \<in> set xs. x \<le> fold max xs a)"
proof (induction xs arbitrary: a)
  case Nil then show ?case by simp
next
  case (Cons y ys)
  have "max y a \<le> fold max ys (max y a)" and "\<forall>x \<in> set ys. x \<le> fold max ys (max y a)"
    using Cons.IH [of "max y a"] by auto
  then show ?case by auto
qed

lemma fresh_document: "map_of al d = Some t \<Longrightarrow> Suc (fold max (map fst al) 0) \<noteq> d"
proof -
  assume "map_of al d = Some t"
  then have "d \<in> set (map fst al)" by (metis map_of_eq_None_iff option.distinct(1) set_map)
  then have "d \<le> fold max (map fst al) 0" using fold_max_ge [of 0 "map fst al"] by blast
  then show ?thesis by simp
qed

lemma get_document_keeps:
  "string (globals m r) = Some d \<Longrightarrow> map_of (docs (view m)) d = Some t \<Longrightarrow>
   get_document q m = (d', m') \<Longrightarrow>
   string (globals m' r) = Some d \<and> map_of (docs (view m')) d = Some t"
  by (auto simp: get_document_def SCI_CREATEDOCUMENT_def Let_def
           split: option.splits prod.splits if_splits dest: fresh_document)

lemma current_edit_keeps:
  "string (globals m r) = Some d \<Longrightarrow> map_of (docs (view m)) d = Some t \<Longrightarrow>
   string (globals (current_edit m) r) = Some d
   \<and> map_of (docs (view (current_edit m))) d = Some t"
  apply (simp add: current_edit_def Buffer_edit_def QRegister_edit_def QRegisterData_edit_def
      SCI_GOTOPOS_def SCI_SETDOCPOINTER_def split: option.splits prod.splits)
  using get_document_keeps by blast

lemma current_save_dot_keeps:
  "string (globals (current_save_dot m) r) = string (globals m r)
   \<and> docs (view (current_save_dot m)) = docs (view m)"
  by (simp add: current_save_dot_def Let_def split: option.splits)

lemma set_string_stores:
  "\<exists>d. string (globals (set_string r (Some v) m) r) = Some d
       \<and> map_of (docs (view (set_string r (Some v) m))) d = Some (c_str v)"
proof -
  obtain d m1 where gd: "get_document r m = (d, m1)" by (cases "get_document r m")
  then have s1: "string (globals m1 r) = Some d"
    by (auto simp: get_document_def SCI_CREATEDOCUMENT_def Let_def split: option.splits)
  define m3 where "m3 = (let m1 = QRegister_edit r m;
          m2 = m1\<lparr>globals := (globals m1)(r := (globals m1 r)\<lparr>dot := 0\<rparr>)\<rparr>
      in m2\<lparr>view := SCI_SETTEXT v (view m2)\<rparr>)"
  have a: "string (globals m3 r) = Some d" and b: "map_of (docs (view m3)) d = Some (c_str v)"
    using gd s1 by (simp_all add: m3_def QRegister_edit_def QRegisterData_edit_def SCI_SETTEXT_def
        SCI_GOTOPOS_def SCI_SETDOCPOINTER_def update_conv')
  have "set_string r (Some v) m = current_edit m3"
    by (simp add: set_string_def m3_def Let_def)
  then show ?thesis using current_edit_keeps [OF a b] by simp
qed

lemma get_string_reads:
  assumes "string (globals m r) = Some d" "map_of (docs (view m)) d = Some t"
  shows "fst (get_string r m) = t"
  using assms current_save_dot_keeps [of m r]
  by (simp add: get_string_def Let_def QRegister_edit_def QRegisterData_edit_def get_document_def
      SCI_GETTEXT_def SCI_GETLENGTH_def doc_text_def SCI_GOTOPOS_def SCI_SETDOCPOINTER_def)

lemma c_str_id: "CHR 0x00 \<notin> set v \<Longrightarrow> c_str v = v"
  by (auto simp: c_str_def)

text \<open>
  C7 (as amended): for any register \<open>r\<close> whose \<open>get_string\<close> is
  \<^verbatim>\<open>QRegisterData::get_string\<close> and any string \<open>v\<close>, \<open>set_string(r, v)\<close> followed by
  \<open>get_string(r)\<close> returns the C string \<open>v\<close>: the bytes of \<open>v\<close> up to its first NUL, which
  is \<open>v\<close> itself when \<open>v\<close> has no NUL byte. This holds in every state of the
  interpreter, whichever buffer or register is being edited.
\<close>

theorem get_string_after_set_string:
  "fst (get_string r (set_string r (Some v) m)) = c_str v
   \<and> (CHR 0x00 \<notin> set v \<longrightarrow> fst (get_string r (set_string r (Some v) m)) = v)"
  using set_string_stores [of r v m] get_string_reads c_str_id by metis

theorem get_string_after_set_string_witness:
  "CHR 0x00 \<notin> set ''hello''
   \<and> fst (get_string ''A'' (set_string ''A'' (Some ''hello'') initial_machine)) = ''hello''"
proof -
  have nul: "CHR 0x00 \<notin> set ''hello''" by simp
  with get_string_after_set_string [of "''A''" "''hello''" initial_machine]
  show ?thesis by blast
qed

text \<open>
  The claim C7 as stated, for any register, fails for the register of the current buffer
  (\<^verbatim>\<open>QRegisterBufferInfo\<close>): its \<open>get_string\<close> returns the file name of the current buffer,
  whatever was stored. In the initial state, whose only buffer is unnamed, it returns the
  empty string after the string \<open>x\<close> was set.
\<close>

theorem buffer_info_get_string_counterexample:
  "QRegisterBufferInfo_get_string (set_string ''*'' (Some ''x'') initial_machine) \<noteq> ''x''"
  by (simp add: QRegisterBufferInfo_get_string_def current_buffer_def set_string_def
      QRegister_edit_def QRegisterData_edit_def get_document_def SCI_CREATEDOCUMENT_def
      current_edit_def Buffer_edit_def initial_machine_def Let_def
      split: option.splits prod.splits)

subsection \<open>The command EB with a buffer id\<close>

lemma find_from_length:
  "length bs = length bs' \<Longrightarrow> find_from i bs ident = find_from i bs' ident"
proof (induction bs arbitrary: bs' i ident)
  case Nil then show ?case by simp
next
  case (Cons b bs)
  then obtain c cs where "bs' = c # cs" "length bs = length cs" by (cases bs') auto
  then show ?case using Cons.IH [of cs] by simp
qed

lemma find_from_bound:
  "find_from i bs ident = Some b \<Longrightarrow> i \<le> b \<and> b < i + length bs"
proof (induction bs arbitrary: i ident)
  case Nil then show ?case by simp
next
  case (Cons c cs)
  then show ?case by (fastforce split: if_splits)
qed

lemma undo_push_m_fields [simp]:
  "mode (undo_push_m t m) = mode m" "allowFilename (undo_push_m t m) = allowFilename m"
  "ed_hooks (undo_push_m t m) = ed_hooks m" "ring (undo_push_m t m) = ring m"
  "ring_current (undo_push_m t m) = ring_current m"
  "qreg_current (undo_push_m t m) = qreg_current m"
  "view (undo_push_m t m) = view m" "globals (undo_push_m t m) = globals m"
  "expressions (undo_push_m t m) = expressions m" "fs (undo_push_m t m) = fs m"
  by (simp_all add: undo_push_m_def)

lemma get_document_fields:
  "get_document r m = (d, m') \<Longrightarrow>
   mode m' = mode m \<and> allowFilename m' = allowFilename m \<and> ed_hooks m' = ed_hooks m
   \<and> ring m' = ring m \<and> ring_current m' = ring_current m \<and> qreg_current m' = qreg_current m
   \<and> undo m' = undo m"
  by (auto simp: get_document_def SCI_CREATEDOCUMENT_def Let_def split: option.splits)

lemma before_edit_fields:
  "mode (if ring_current m \<noteq> None then Ring_undo_edit m else QRegisters_undo_edit m) = mode m
   \<and> allowFilename (if ring_current m \<noteq> None then Ring_undo_edit m
                     else QRegisters_undo_edit m) = allowFilename m
   \<and> ed_hooks (if ring_current m \<noteq> None then Ring_undo_edit m
                else QRegisters_undo_edit m) = ed_hooks m
   \<and> length (ring (if ring_current m \<noteq> None then Ring_undo_edit m
                    else QRegisters_undo_edit m)) = length (ring m)"
  by (auto simp: Ring_undo_edit_def QRegisters_undo_edit_def Buffer_undo_edit_def Let_def
      QRegister_undo_edit_def QRegisterData_undo_edit_def
      split: option.splits prod.splits dest!: get_document_fields)

lemma Ring_edit_id_switches:
  assumes "Ring_find_id ident m = Some b" "\<not> ed_hooks m"
  shows "\<exists>m'. Ring_edit_id run_hook ident m = Inr (True, m')
     \<and> ring_current m' = Some b \<and> qreg_current m' = None \<and> b < length (ring m')
     \<and> doc_pointer (view m') = buf_doc (ring m' ! b)
     \<and> mode m' = mode m \<and> allowFilename m' = allowFilename m"
proof -
  have "b < length (ring m)" using assms(1) find_from_bound [of 0 "ring m" ident b]
    by (simp add: Ring_find_id_def)
  then show ?thesis using assms
    by (auto simp: Ring_edit_id_def Let_def QRegisters_hook_def Buffer_edit_def
        current_save_dot_def SCI_GOTOPOS_def SCI_SETDOCPOINTER_def split: option.splits)
qed

text \<open>
  C10 (as amended): when the command EB is executed (normal mode) with a positive buffer
  id on the stack, entering its state, before any character of the string argument is
  read, either raises "Invalid buffer id" (no buffer has that id) or, the hooks being
  disabled, switches to that buffer: it becomes the current buffer and its document is
  installed in the view. In the state so reached, a non-empty string argument makes
  \<open>done\<close> raise an error and the empty string argument completes the command in the
  start state; so does the command as a whole.
\<close>

theorem EB_buffer_id:
  assumes normal: "mode m = MODE_NORMAL"
      and ident: "pop_num_calc (- 1) (expressions m) = Inr (ident, e)"
      and positive: "0 <s ident"
  shows "(Ring_find_id ident m = None \<longrightarrow>
            (\<exists>m'. StateEditFile_custom_NUL run_hook m = Inl (Error ''Invalid buffer id'', m')))
       \<and> (\<forall>b. Ring_find_id ident m = Some b \<and> \<not> ed_hooks m \<longrightarrow>
            (\<exists>m'. StateEditFile_custom_NUL run_hook m = Inr (editfile, m')
                \<and> ring_current m' = Some b \<and> qreg_current m' = None
                \<and> doc_pointer (view m') = buf_doc (ring m' ! b)
                \<and> (\<forall>str. c_str str \<noteq> [] \<longrightarrow>
                      StateEditFile_done edit_files str m'
                      = Inl (Error (''If a buffer is selected by id, the <EB> '' @
                                    ''string argument must be empty''), m'))
                \<and> StateEditFile_done edit_files [] m' = Inr (start, m')
                \<and> (\<forall>str. c_str str \<noteq> [] \<longrightarrow>
                      EB_command run_hook edit_files str m
                      = Inl (Error (''If a buffer is selected by id, the <EB> '' @
                                    ''string argument must be empty''), m'))
                \<and> EB_command run_hook edit_files [] m = Inr (start, m')))"
proof -
  define m0 where "m0 = m\<lparr>expressions := e, allowFilename := False\<rparr>"
  define m1 where
    "m1 = (if ring_current m0 \<noteq> None then Ring_undo_edit m0 else QRegisters_undo_edit m0)"
  have nz: "ident \<noteq> 0" using positive by auto
  have init: "StateEditFile_initial run_hook m = StateEditFile_do_edit_id run_hook ident m0"
    using ident positive nz by (simp add: StateEditFile_initial_def m0_def Let_def)
  have do_edit: "StateEditFile_do_edit_id run_hook ident m0 =
      (case Ring_edit_id run_hook ident m1 of
           Inl x \<Rightarrow> Inl x
         | Inr (False, m2) \<Rightarrow> Inl (Error ''Invalid buffer id'', m2)
         | Inr (True, m2) \<Rightarrow> Inr m2)"
    by (simp add: StateEditFile_do_edit_id_def m1_def Let_def)
  have f1: "mode m1 = MODE_NORMAL" "\<not> allowFilename m1" "ed_hooks m1 = ed_hooks m"
        "length (ring m1) = length (ring m)"
    using before_edit_fields [of m0] normal by (simp_all add: m1_def m0_def)
  have find: "Ring_find_id ident m1 = Ring_find_id ident m"
    using find_from_length [OF f1(4)] by (simp add: Ring_find_id_def)
  show ?thesis
  proof (intro conjI impI allI)
    assume "Ring_find_id ident m = None"
    then show "\<exists>m'. StateEditFile_custom_NUL run_hook m = Inl (Error ''Invalid buffer id'', m')"
      using init do_edit find normal by (simp add: Ring_edit_id_def StateEditFile_custom_NUL_def)
  next
    fix b assume "Ring_find_id ident m = Some b \<and> \<not> ed_hooks m"
    then obtain m' where m': "Ring_edit_id run_hook ident m1 = Inr (True, m')"
      "ring_current m' = Some b" "qreg_current m' = None"
      "doc_pointer (view m') = buf_doc (ring m' ! b)" "mode m' = MODE_NORMAL"
      "\<not> allowFilename m'"
      using Ring_edit_id_switches [of ident m1 b run_hook] find f1 by auto
    then show "\<exists>m'. StateEditFile_custom_NUL run_hook m = Inr (editfile, m')
                \<and> ring_current m' = Some b \<and> qreg_current m' = None
                \<and> doc_pointer (view m') = buf_doc (ring m' ! b)
                \<and> (\<forall>str. c_str str \<noteq> [] \<longrightarrow>
                      StateEditFile_done edit_files str m'
                      = Inl (Error (''If a buffer is selected by id, the <EB> '' @
                                    ''string argument must be empty''), m'))
                \<and> StateEditFile_done edit_files [] m' = Inr (start, m')
                \<and> (\<forall>str. c_str str \<noteq> [] \<longrightarrow>
                      EB_command run_hook edit_files str m
                      = Inl (Error (''If a buffer is selected by id, the <EB> '' @
                                    ''string argument must be empty''), m'))
                \<and> EB_command run_hook edit_files [] m = Inr (start, m')"
      using init do_edit normal
      by (simp add: StateEditFile_done_def c_str_def StateEditFile_custom_NUL_def
          EB_command_def)
  qed
qed

text \<open>
  The command \<^verbatim>\<open>2EBx\<close> with two buffers in the ring: the second buffer is being edited
  when the string argument is rejected.
\<close>

theorem EB_buffer_id_witness:
  "mode two_buffers = MODE_NORMAL
   \<and> pop_num_calc (- 1) (expressions two_buffers)
       = Inr (2, \<lparr>entries = [], num_sign = 1, brace_level = 0, radix = 10\<rparr>)
   \<and> 0 <s (2 :: tecoInt)
   \<and> Ring_find_id 2 two_buffers = Some 1 \<and> \<not> ed_hooks two_buffers
   \<and> c_str ''x'' \<noteq> []
   \<and> (\<exists>m'. StateEditFile_custom_NUL (\<lambda>h m. Inr m) two_buffers = Inr (editfile, m')
          \<and> ring_current m' = Some 1
          \<and> doc_pointer (view m') = 1
          \<and> StateEditFile_done (\<lambda>s m. Inr m) ''x'' m'
              = Inl (Error (''If a buffer is selected by id, the <EB> '' @
                            ''string argument must be empty''), m')
          \<and> StateEditFile_done (\<lambda>s m. Inr m) [] m' = Inr (start, m')
          \<and> EB_command (\<lambda>h m. Inr m) (\<lambda>s m. Inr m) ''x'' two_buffers
              = Inl (Error (''If a buffer is selected by id, the <EB> '' @
                            ''string argument must be empty''), m')
          \<and> EB_command (\<lambda>h m. Inr m) (\<lambda>s m. Inr m) [] two_buffers = Inr (start, m'))"
proof -
  have a: "mode two_buffers = MODE_NORMAL"
    by (simp add: two_buffers_def initial_machine_def)
  have b: "pop_num_calc (- 1) (expressions two_buffers)
       = Inr (2, \<lparr>entries = [], num_sign = 1, brace_level = 0, radix = 10\<rparr>)"
    by (simp add: two_buffers_def initial_machine_def pop_num_calc_def eval_def)
  have c: "0 <s (2 :: tecoInt)" by (simp add: word_sless_alt)
  have d: "Ring_find_id 2 two_buffers = Some 1" "\<not> ed_hooks two_buffers"
    by (simp_all add: two_buffers_def initial_machine_def Ring_find_id_def)
  have e: "c_str ''x'' \<noteq> []" by (simp add: c_str_def)
  from EB_buffer_id [OF a b c, of "\<lambda>h m. Inr m" "\<lambda>s m. Inr m"] d e
  obtain m' where m': "StateEditFile_custom_NUL (\<lambda>h m. Inr m) two_buffers = Inr (editfile, m')"
     "ring_current m' = Some 1" "doc_pointer (view m') = buf_doc (ring m' ! 1)"
     "StateEditFile_done (\<lambda>s m. Inr m) ''x'' m'
              = Inl (Error (''If a buffer is selected by id, the <EB> '' @
                            ''string argument must be empty''), m')"
     "StateEditFile_done (\<lambda>s m. Inr m) [] m' = Inr (start, m')"
     "EB_command (\<lambda>h m. Inr m) (\<lambda>s m. Inr m) ''x'' two_buffers
              = Inl (Error (''If a buffer is selected by id, the <EB> '' @
                            ''string argument must be empty''), m')"
     "EB_command (\<lambda>h m. Inr m) (\<lambda>s m. Inr m) [] two_buffers = Inr (start, m')"
    by blast
  have "buf_doc (ring m' ! 1) = 1"
    using m'(1)
    by (auto simp: StateEditFile_custom_NUL_def StateEditFile_initial_def
        StateEditFile_do_edit_id_def Ring_edit_id_def Ring_find_id_def Ring_undo_edit_def
        Buffer_undo_edit_def QRegisters_hook_def current_save_dot_def Buffer_edit_def
        two_buffers_def initial_machine_def pop_num_calc_def eval_def Let_def
        split: if_splits)
  with a b c d e m' show ?thesis by auto
qed

text \<open>
  The claim C10 as stated has no proviso on the hooks. With the hooks enabled,
  \<^verbatim>\<open>Ring::edit\<close> executes the macro of register 0 after the switch, and
  \<^verbatim>\<open>Execute::macro\<close> leaves the mode as the macro set it. With the hook macro \<^verbatim>\<open>|\<close>,
  the command \<^verbatim>\<open>2EBx\<close> switches to the second buffer and then accepts the string \<^verbatim>\<open>x\<close>:
  \<open>done\<close> returns to the start state without an error, the mode being
  \<open>MODE_PARSE_ONLY_COND\<close>.
\<close>

theorem EB_hook_counterexample:
  "ed_hooks hooked_buffers \<and> mode hooked_buffers = MODE_NORMAL
   \<and> pop_num_calc (- 1) (expressions hooked_buffers)
       = Inr (2, \<lparr>entries = [], num_sign = 1, brace_level = 0, radix = 10\<rparr>)
   \<and> Ring_find_id 2 hooked_buffers = Some 1
   \<and> ring_current hooked_buffers = Some 0
   \<and> c_str ''x'' \<noteq> []
   \<and> EB_outcome (EB_command (hook_macro 20 no_externals hook_codes) (\<lambda>s m. Inr m) ''x''
                    hooked_buffers)
       = Inr (start, Some 1, MODE_PARSE_ONLY_COND)"
  by code_simp

subsection \<open>Saving a buffer\<close>

lemma abs_path_files [simp]: "abs_path (f\<lparr>files := x\<rparr>) p = abs_path f p"
  by (simp add: abs_path_def)

lemma get_absolute_path_model: "get_absolute_path f (Some p) = Some (abs_path f p)"
  by (simp add: get_absolute_path_def realpath_def abs_path_def)

lemma abs_path_cwd: "cwd f' = cwd f \<Longrightarrow> abs_path f' p = abs_path f p"
  by (simp add: abs_path_def)

lemma save_journal_keeps:
  "view (save_journal i fname m) = view m \<and> cwd (fs (save_journal i fname m)) = cwd (fs m)
   \<and> readonly (fs (save_journal i fname m)) = readonly (fs m)
   \<and> length (ring (save_journal i fname m)) = length (ring m)"
  by (simp add: save_journal_def make_savepoint_def g_rename_def Let_def
      split: option.splits)

lemma Ring_save_result:
  assumes "Ring_save arg m = (True, m')" "ring_current m = Some i" "i < length (ring m)"
     "save_target arg (ring m ! i) = Some fname"
  shows "dirty (ring m' ! i) = False
     \<and> filename (ring m' ! i) = get_absolute_path (fs m') (Some fname)
     \<and> map_of (files (fs m')) (abs_path (fs m) fname) = Some (doc_text (view m))"
proof -
  define m1 where "m1 = save_journal i fname m"
  have k: "view m1 = view m" "i < length (ring m1)"
    and ap: "abs_path (fs m1) fname = abs_path (fs m) fname"
    using save_journal_keeps [of i fname m] assms(3) abs_path_cwd [of "fs m1" "fs m" fname]
    by (simp_all add: m1_def)
  show ?thesis
    using assms k ap
    by (auto simp: Ring_save_def Let_def m1_def g_file_set_contents_def Buffer_set_filename_def
        SCI_GETLENGTH_def get_absolute_path_model update_conv'
        split: if_splits)
qed

lemma Ring_save_disabled:
  assumes "Ring_save arg m = (True, m')" "ring_current m = Some i" "i < length (ring m)"
     "\<not> enabled (undo m)" "save_target arg (ring m ! i) = Some fname"
  shows "undo m' = undo m
     \<and> files (fs m') = AList.update (abs_path (fs m) fname) (doc_text (view m)) (files (fs m))"
  using assms
  by (auto simp: Ring_save_def save_journal_def Let_def undo_push_m_def undo_push_def
      g_file_set_contents_def Buffer_set_filename_def SCI_GETLENGTH_def
      split: option.splits if_splits prod.splits)

lemma Ring_save_new_file:
  assumes "Ring_save arg m = (True, m')" "ring_current m = Some i" "i < length (ring m)"
     "enabled (undo m)" "save_target arg (ring m ! i) = Some fname"
     "\<not> is_regular (fs m) fname"
     "filename (ring m ! i) = None \<or> filename (ring m ! i) = Some fname"
  shows "tokens (undo m') =
           [UndoStrFilename i (filename (ring m ! i)), UndoVarDirty i (dirty (ring m ! i)),
            UndoInfoUpdate, UndoTokenRemoveFile fname] @ tokens (undo m)"
  using assms
  by (auto simp: Ring_save_def save_journal_def Let_def undo_push_m_def undo_push_def
      g_file_set_contents_def Buffer_set_filename_def SCI_GETLENGTH_def
      split: option.splits if_splits prod.splits)

lemma Ring_save_existing_file:
  assumes "Ring_save arg m = (True, m')" "ring_current m = Some i" "i < length (ring m)"
     "enabled (undo m)" "save_target arg (ring m ! i) = Some fname"
     "filename (ring m ! i) = Some fname" "is_regular (fs m) fname"
     "fst (g_rename fname (savepoint_name fname (savepoint_id (ring m ! i))) (fs m))"
  shows "tokens (undo m') =
           [UndoStrFilename i (Some fname), UndoVarDirty i (dirty (ring m ! i)), UndoInfoUpdate,
            UndoTokenRestoreSavePoint (savepoint_name fname (savepoint_id (ring m ! i))) i]
           @ tokens (undo m)
     \<and> savepoint_id (ring m' ! i) = savepoint_id (ring m ! i) + 1"
  using assms
  by (auto simp: Ring_save_def save_journal_def Let_def undo_push_m_def undo_push_def make_savepoint_def
      g_file_set_contents_def Buffer_set_filename_def SCI_GETLENGTH_def
      split: option.splits if_splits prod.splits bool.splits)

lemma Ring_save_rename_failed:
  assumes "Ring_save arg m = (True, m')" "ring_current m = Some i" "i < length (ring m)"
     "enabled (undo m)" "save_target arg (ring m ! i) = Some fname"
     "filename (ring m ! i) = Some fname" "is_regular (fs m) fname"
     "\<not> fst (g_rename fname (savepoint_name fname (savepoint_id (ring m ! i))) (fs m))"
  shows "tokens (undo m') =
           [UndoStrFilename i (Some fname), UndoVarDirty i (dirty (ring m ! i)), UndoInfoUpdate]
           @ tokens (undo m)"
  using assms
  by (auto simp: Ring_save_def save_journal_def Let_def undo_push_m_def undo_push_def make_savepoint_def
      g_file_set_contents_def Buffer_set_filename_def SCI_GETLENGTH_def
      split: option.splits if_splits prod.splits bool.splits)

lemma rollback_existing_file:
  assumes "Ring_save arg m = (True, m')" "ring_current m = Some i" "i < length (ring m)"
     "enabled (undo m)" "save_target arg (ring m ! i) = Some fname"
     "filename (ring m ! i) = Some fname" "is_regular (fs m) fname"
     "fst (g_rename fname (savepoint_name fname (savepoint_id (ring m ! i))) (fs m))"
     "abs_path (fs m) (savepoint_name fname (savepoint_id (ring m ! i))) \<noteq> abs_path (fs m) fname"
  shows "map_of (files (fs m')) (abs_path (fs m) (savepoint_name fname (savepoint_id (ring m ! i))))
           = map_of (files (fs m)) (abs_path (fs m) fname)
     \<and> (\<exists>m''. undo_pop (length (tokens (undo m))) m' = Some m''
           \<and> map_of (files (fs m'')) (abs_path (fs m) fname)
               = map_of (files (fs m)) (abs_path (fs m) fname)
           \<and> dirty (ring m'' ! i) = dirty (ring m ! i)
           \<and> filename (ring m'' ! i) = filename (ring m ! i)
           \<and> tokens (undo m'') = tokens (undo m))"
  using assms
  by (auto simp: Ring_save_def save_journal_def Let_def undo_push_m_def undo_push_def make_savepoint_def
      g_file_set_contents_def Buffer_set_filename_def SCI_GETLENGTH_def get_absolute_path_model
      is_regular_def g_rename_def update_conv' delete_conv' undo_pop_def
      split: option.splits if_splits prod.splits)

lemma rollback_new_file:
  assumes "Ring_save arg m = (True, m')" "ring_current m = Some i" "i < length (ring m)"
     "enabled (undo m)" "save_target arg (ring m ! i) = Some fname"
     "\<not> is_regular (fs m) fname"
     "filename (ring m ! i) = None \<or> filename (ring m ! i) = Some fname"
  shows "\<exists>m''. undo_pop (length (tokens (undo m))) m' = Some m''
     \<and> map_of (files (fs m'')) (abs_path (fs m) fname) = None
     \<and> dirty (ring m'' ! i) = dirty (ring m ! i)
     \<and> filename (ring m'' ! i) = filename (ring m ! i)
     \<and> tokens (undo m'') = tokens (undo m)"
  using assms
  by (auto simp: Ring_save_def save_journal_def Let_def undo_push_m_def undo_push_def
      g_file_set_contents_def Buffer_set_filename_def SCI_GETLENGTH_def get_absolute_path_model
      is_regular_def g_unlink_def update_conv' delete_conv' undo_pop_def
      split: option.splits if_splits prod.splits)

text \<open>
  C1 (as amended): after every successful \<open>save\<close> of the current buffer to \<open>fname\<close>, the
  text of the view is the content of \<open>fname\<close>, the dirty flag is false and the file name
  of the buffer is the canonical name of \<open>fname\<close>. With the journal disabled nothing is
  journaled and no savepoint is made. With the journal enabled and \<open>fname\<close> the
  buffer's own file: if that file existed and could be renamed, it was renamed to the
  savepoint \<^verbatim>\<open>.teco-<basename>-<n>\<close> beside it and a token restoring the savepoint was
  pushed under the tokens of the dirty flag and the file name (rubbing these out puts the
  old content back under \<open>fname\<close>); if the rename failed no such token was pushed; and if
  \<open>fname\<close> did not exist, for a buffer with this or no file name, a token removing
  \<open>fname\<close> was pushed instead (rubbing out removes the file again).
\<close>

theorem Ring_save_journal:
  assumes ok: "Ring_save arg m = (True, m')"
      and cur: "ring_current m = Some i" "i < length (ring m)"
      and target: "save_target arg (ring m ! i) = Some fname"
  shows "dirty (ring m' ! i) = False
     \<and> filename (ring m' ! i) = get_absolute_path (fs m') (Some fname)
     \<and> map_of (files (fs m')) (abs_path (fs m) fname) = Some (doc_text (view m))
     \<and> (\<not> enabled (undo m) \<longrightarrow>
          undo m' = undo m
          \<and> files (fs m')
              = AList.update (abs_path (fs m) fname) (doc_text (view m)) (files (fs m)))
     \<and> (enabled (undo m) \<and> filename (ring m ! i) = Some fname \<and> is_regular (fs m) fname
          \<and> fst (g_rename fname (savepoint_name fname (savepoint_id (ring m ! i))) (fs m)) \<longrightarrow>
          tokens (undo m') =
            [UndoStrFilename i (Some fname), UndoVarDirty i (dirty (ring m ! i)), UndoInfoUpdate,
             UndoTokenRestoreSavePoint (savepoint_name fname (savepoint_id (ring m ! i))) i]
            @ tokens (undo m)
          \<and> (abs_path (fs m) (savepoint_name fname (savepoint_id (ring m ! i)))
                \<noteq> abs_path (fs m) fname \<longrightarrow>
               map_of (files (fs m'))
                   (abs_path (fs m) (savepoint_name fname (savepoint_id (ring m ! i))))
                 = map_of (files (fs m)) (abs_path (fs m) fname)
               \<and> (\<exists>m''. undo_pop (length (tokens (undo m))) m' = Some m''
                     \<and> map_of (files (fs m'')) (abs_path (fs m) fname)
                         = map_of (files (fs m)) (abs_path (fs m) fname)
                     \<and> dirty (ring m'' ! i) = dirty (ring m ! i)
                     \<and> filename (ring m'' ! i) = filename (ring m ! i)
                     \<and> tokens (undo m'') = tokens (undo m))))
     \<and> (enabled (undo m) \<and> filename (ring m ! i) = Some fname \<and> is_regular (fs m) fname
          \<and> \<not> fst (g_rename fname (savepoint_name fname (savepoint_id (ring m ! i))) (fs m)) \<longrightarrow>
          tokens (undo m') =
            [UndoStrFilename i (Some fname), UndoVarDirty i (dirty (ring m ! i)), UndoInfoUpdate]
            @ tokens (undo m))
     \<and> (enabled (undo m) \<and> \<not> is_regular (fs m) fname
          \<and> (filename (ring m ! i) = None \<or> filename (ring m ! i) = Some fname) \<longrightarrow>
          tokens (undo m') =
            [UndoStrFilename i (filename (ring m ! i)), UndoVarDirty i (dirty (ring m ! i)),
             UndoInfoUpdate, UndoTokenRemoveFile fname] @ tokens (undo m)
          \<and> (\<exists>m''. undo_pop (length (tokens (undo m))) m' = Some m''
                \<and> map_of (files (fs m'')) (abs_path (fs m) fname) = None
                \<and> dirty (ring m'' ! i) = dirty (ring m ! i)
                \<and> filename (ring m'' ! i) = filename (ring m ! i)
                \<and> tokens (undo m'') = tokens (undo m)))"
  using Ring_save_result [OF ok cur target] Ring_save_disabled [OF ok cur _ target]
    Ring_save_existing_file [OF ok cur _ target] rollback_existing_file [OF ok cur _ target]
    Ring_save_rename_failed [OF ok cur _ target]
    Ring_save_new_file [OF ok cur _ target] rollback_new_file [OF ok cur _ target]
  by (intro conjI impI) blast+

text \<open>
  Saving the changed buffer of the existing file \<^verbatim>\<open>/home/user/a\<close> and rubbing the save
  out; saving it when the file does not exist yet.
\<close>

theorem Ring_save_journal_witness:
  "Ring_save None edited_file = (True, snd (Ring_save None edited_file))
   \<and> ring_current edited_file = Some 0 \<and> 0 < length (ring edited_file)
   \<and> save_target None (ring edited_file ! 0) = Some ''/home/user/a''
   \<and> enabled (undo edited_file) \<and> is_regular (fs edited_file) ''/home/user/a''
   \<and> savepoint_name ''/home/user/a'' (savepoint_id (ring edited_file ! 0))
       = ''/home/user/.teco-a-0''
   \<and> fst (g_rename ''/home/user/a'' ''/home/user/.teco-a-0'' (fs edited_file))
   \<and> tokens (undo (snd (Ring_save None edited_file)))
       = [UndoStrFilename 0 (Some ''/home/user/a''), UndoVarDirty 0 True, UndoInfoUpdate,
          UndoTokenRestoreSavePoint ''/home/user/.teco-a-0'' 0]
   \<and> map_of (files (fs (snd (Ring_save None edited_file)))) ''/home/user/a'' = Some ''new''
   \<and> map_of (files (fs (snd (Ring_save None edited_file)))) ''/home/user/.teco-a-0''
       = Some ''old''
   \<and> (\<exists>m''. undo_pop 0 (snd (Ring_save None edited_file)) = Some m''
          \<and> map_of (files (fs m'')) ''/home/user/a'' = Some ''old'')
   \<and> Ring_save None edited_new_file = (True, snd (Ring_save None edited_new_file))
   \<and> \<not> is_regular (fs edited_new_file) ''/home/user/a''
   \<and> tokens (undo (snd (Ring_save None edited_new_file)))
       = [UndoStrFilename 0 (Some ''/home/user/a''), UndoVarDirty 0 True, UndoInfoUpdate,
          UndoTokenRemoveFile ''/home/user/a'']"
proof -
  have ok: "Ring_save None edited_file = (True, snd (Ring_save None edited_file))"
    by (simp add: edited_file_def initial_machine_def Ring_save_def save_target_def
        save_journal_def is_regular_def abs_path_def g_path_is_absolute_def g_file_set_contents_def
        make_savepoint_def g_rename_def Let_def)
  have cur: "ring_current edited_file = Some 0" "0 < length (ring edited_file)"
    and target: "save_target None (ring edited_file ! 0) = Some ''/home/user/a''"
    and en: "enabled (undo edited_file)"
    and old: "map_of (files (fs edited_file)) ''/home/user/a'' = Some ''old''"
    and own: "filename (ring edited_file ! 0) = Some ''/home/user/a''"
    and vtext: "doc_text (view edited_file) = ''new''"
    and len: "length (tokens (undo edited_file)) = 0" "dirty (ring edited_file ! 0)"
    by (simp_all add: edited_file_def initial_machine_def save_target_def doc_text_def)
  have ab [simp]: "\<And>p. abs_path (fs edited_file) (CHR ''/'' # p) = CHR ''/'' # p"
    by (simp add: abs_path_def g_path_is_absolute_def)
  have reg: "is_regular (fs edited_file) ''/home/user/a''"
    using old by (simp add: is_regular_def)
  have sp: "savepoint_name ''/home/user/a'' (savepoint_id (ring edited_file ! 0))
       = ''/home/user/.teco-a-0''"
    by (simp add: edited_file_def initial_machine_def savepoint_name_def g_build_filename_def
        g_path_get_dirname_def g_path_get_basename_def string_of_int_def FILENAME_MAX_def)
  have ren: "fst (g_rename ''/home/user/a'' ''/home/user/.teco-a-0'' (fs edited_file))"
    by (simp add: g_rename_def abs_path_def g_path_is_absolute_def edited_file_def
        initial_machine_def)
  have ok2: "Ring_save None edited_new_file = (True, snd (Ring_save None edited_new_file))"
    by (simp add: edited_new_file_def edited_file_def initial_machine_def Ring_save_def
        save_target_def save_journal_def is_regular_def abs_path_def g_path_is_absolute_def
        g_file_set_contents_def Let_def)
  have cur2: "ring_current edited_new_file = Some 0" "0 < length (ring edited_new_file)"
    and target2: "save_target None (ring edited_new_file ! 0) = Some ''/home/user/a''"
    and en2: "enabled (undo edited_new_file)"
    and own2: "filename (ring edited_new_file ! 0) = Some ''/home/user/a''"
    and nreg: "\<not> is_regular (fs edited_new_file) ''/home/user/a''"
    and len2: "tokens (undo edited_new_file) = []" "dirty (ring edited_new_file ! 0)"
    by (simp_all add: edited_new_file_def edited_file_def initial_machine_def save_target_def
        is_regular_def)
  show ?thesis
    using Ring_save_journal [OF ok cur target] Ring_save_journal [OF ok2 cur2 target2]
      ok cur target en old own vtext len reg sp ren ok2 en2 own2 nreg len2
    by (simp, blast)
qed

text \<open>
  The claim C1 as stated fails in batch mode, where the journal is disabled: the
  existing file is overwritten in place, no savepoint is made and no token is pushed.
\<close>

theorem Ring_save_batch_counterexample:
  "is_regular (fs edited_file_batch) ''/home/user/a''
   \<and> fst (Ring_save None edited_file_batch)
   \<and> tokens (undo (snd (Ring_save None edited_file_batch))) = []
   \<and> files (fs (snd (Ring_save None edited_file_batch))) = [(''/home/user/a'', ''new'')]"
  by (simp add: edited_file_batch_def edited_file_def initial_machine_def Ring_save_def
      save_target_def save_journal_def is_regular_def abs_path_def g_path_is_absolute_def
      g_file_set_contents_def doc_text_def SCI_GETLENGTH_def undo_push_m_def undo_push_def
      Buffer_set_filename_def Let_def)

section \<open>Properties of the parser\<close>

subsection \<open>The conditional break outside of a loop\<close>

lemma lookup_semicolon: "lookup_transition (transitions ext start) (CHR '';'') = None"
  by (simp add: lookup_transition_def transitions_def String_toupper_def)

text \<open>
  C6: executing \<^verbatim>\<open>;\<close> in normal mode when the loop stack holds no frame above the frame
  pointer of the current macro invocation (no frame at all, or only frames of the
  callers) raises the error "<;> only allowed in iterations", and the state at the throw
  is the state before the command: no loop frame is popped. This is what the handler of
  the start state does and what feeding the character to the parser gives.
\<close>

theorem break_outside_loop:
  assumes "mode m = MODE_NORMAL" "length (loop_stack m) \<le> loop_stack_fp m"
  shows "StateStart_custom ext (CHR '';'') m = Inl (Error ''<;> only allowed in iterations'', m)
     \<and> (current m = start \<longrightarrow>
          State_input (Suc n) (State_get_next_state (transitions ext) (State_custom ext call))
            (CHR '';'') m = Some (Inl (Error ''<;> only allowed in iterations'', m)))"
proof -
  have c: "StateStart_custom ext (CHR '';'') m
           = Inl (Error ''<;> only allowed in iterations'', m)"
    using assms
    by (simp add: StateStart_custom_def IS_CTL_def g_ascii_isdigit_def String_toupper_def
        StateStart_command_def BEGIN_EXEC_def loop_break_def some_state_def)
  then show ?thesis
    by (simp add: State_input_def State_get_next_state_def lookup_semicolon State_custom_def
        check_custom_def)
qed

theorem break_outside_loop_witness:
  "mode in_callers_loop = MODE_NORMAL
   \<and> length (loop_stack in_callers_loop) \<le> loop_stack_fp in_callers_loop
   \<and> current in_callers_loop = start
   \<and> loop_stack in_callers_loop = [\<lparr>counter = 3, pc = 1, pass_through = False\<rparr>]
   \<and> StateStart_custom no_externals (CHR '';'') in_callers_loop
       = Inl (Error ''<;> only allowed in iterations'', in_callers_loop)
   \<and> State_input (Suc 0)
         (State_get_next_state (transitions no_externals)
            (State_custom no_externals (Execute_macro 0 no_externals)))
         (CHR '';'') in_callers_loop
       = Some (Inl (Error ''<;> only allowed in iterations'', in_callers_loop))"
proof -
  have a: "mode in_callers_loop = MODE_NORMAL"
    and b: "length (loop_stack in_callers_loop) \<le> loop_stack_fp in_callers_loop"
    and c: "current in_callers_loop = start"
    and d: "loop_stack in_callers_loop = [\<lparr>counter = 3, pc = 1, pass_through = False\<rparr>]"
    by (simp_all add: in_callers_loop_def initial_machine_def)
  from break_outside_loop [OF a b, of no_externals 0 "Execute_macro 0 no_externals"] a b c d
  show ?thesis by simp
qed

text \<open>
  The two cases run as whole macros: \<^verbatim>\<open>1;\<close> outside any loop, and a loop whose body calls
  the macro \<^verbatim>\<open>;\<close> of register Q.
\<close>

lemma break_in_macro_runs:
  "thrown (Execute_macro 20 no_externals ''1;'' False initial_machine)
     = Some (Error ''<;> only allowed in iterations'')"
  "thrown (Execute_macro 20 no_externals ''3<MQ>'' False break_in_register)
     = Some (Error ''<;> only allowed in iterations'')"
  by code_simp+

subsection \<open>Conditionals\<close>

lemma collapse_idem: "collapse es = Inr es' \<Longrightarrow> collapse es' = Inr es'"
proof (induction es arbitrary: es' rule: collapse.induct)
  case (1 r op l rest)
  then show ?case by (auto split: if_splits sum.splits)
qed auto

lemma eval_idem: "eval e = Inr e' \<Longrightarrow> eval e' = Inr e'"
  by (auto simp: eval_def split: sum.splits dest: collapse_idem)

text \<open>
  C9: in normal mode, with \<open>e\<close> the expression stack after evaluation, the conditional
  \<^verbatim>\<open>"~\<close> leaves the stack \<open>e\<close> as it is and its test succeeds (execution stays in normal
  mode) exactly when \<open>e\<close> has no arguments, otherwise the interpreter skips to the else
  part. Every other test kind raises the argument-expected error when \<open>e\<close> has no
  arguments, and otherwise pops exactly the top value \<open>v\<close>: the stack after the command is
  the rest, and the test is made on \<open>v\<close>. A character that is no test kind raises an
  error after the value was popped.
\<close>

theorem conditional_pops:
  assumes normal: "mode m = MODE_NORMAL" and ev: "eval (expressions m) = Inr e"
  shows "StateCondCommand_custom (CHR ''~'') m
           = Inr (Some start,
                  if args e = 0 then m\<lparr>expressions := e\<rparr>
                  else (undo_push_m (UndoVarMode MODE_NORMAL) (m\<lparr>expressions := e\<rparr>))
                         \<lparr>mode := MODE_PARSE_ONLY_COND\<rparr>)
     \<and> (chr \<noteq> CHR ''~'' \<and> args e = 0 \<longrightarrow>
          StateCondCommand_custom chr m
            = Inl (ArgExpectedError [CHR 0x22], m\<lparr>expressions := e\<rparr>))
     \<and> (\<forall>v rest res. chr \<noteq> CHR ''~'' \<and> entries e = Num v # rest
            \<and> cond_test (String_toupper chr) v
                 (m\<lparr>expressions := e\<lparr>entries := rest, num_sign := 1\<rparr>\<rparr>) = Some res \<longrightarrow>
          (\<exists>m'. StateCondCommand_custom chr m = Inr (Some start, m')
               \<and> entries (expressions m') = rest
               \<and> mode m' = (if res then MODE_NORMAL else MODE_PARSE_ONLY_COND)))
     \<and> (\<forall>v rest. chr \<noteq> CHR ''~'' \<and> entries e = Num v # rest
            \<and> cond_test (String_toupper chr) v
                 (m\<lparr>expressions := e\<lparr>entries := rest, num_sign := 1\<rparr>\<rparr>) = None \<longrightarrow>
          StateCondCommand_custom chr m
            = Inl (Error ''Invalid conditional type'',
                   m\<lparr>expressions := e\<lparr>entries := rest, num_sign := 1\<rparr>\<rparr>))"
proof (intro conjI impI allI)
  show "StateCondCommand_custom (CHR ''~'') m
           = Inr (Some start,
                  if args e = 0 then m\<lparr>expressions := e\<rparr>
                  else (undo_push_m (UndoVarMode MODE_NORMAL) (m\<lparr>expressions := e\<rparr>))
                         \<lparr>mode := MODE_PARSE_ONLY_COND\<rparr>)"
    using normal ev
    by (simp add: StateCondCommand_custom_def cond_value_def bind_def expr_do_def
        cond_test_def String_toupper_def BEGIN_EXEC_def some_state_def undo_push_m_def)
next
  assume "chr \<noteq> CHR ''~'' \<and> args e = 0"
  then show "StateCondCommand_custom chr m
               = Inl (ArgExpectedError [CHR 0x22], m\<lparr>expressions := e\<rparr>)"
    using normal ev
    by (simp add: StateCondCommand_custom_def cond_value_def bind_def expr_do_def some_state_def)
next
  fix v rest res
  assume a: "chr \<noteq> CHR ''~'' \<and> entries e = Num v # rest
            \<and> cond_test (String_toupper chr) v
                 (m\<lparr>expressions := e\<lparr>entries := rest, num_sign := 1\<rparr>\<rparr>) = Some res"
  have ee: "eval e = Inr e" using ev by (rule eval_idem)
  have "args e \<noteq> 0" using a by (simp add: args_def)
  then show "\<exists>m'. StateCondCommand_custom chr m = Inr (Some start, m')
               \<and> entries (expressions m') = rest
               \<and> mode m' = (if res then MODE_NORMAL else MODE_PARSE_ONLY_COND)"
    using normal ev a ee
    by (simp add: StateCondCommand_custom_def cond_value_def bind_def expr_do_def some_state_def
        expr_pop_def pop_num_calc_sign_def pop_num_calc_def BEGIN_EXEC_def undo_push_m_def)
next
  fix v rest
  assume a: "chr \<noteq> CHR ''~'' \<and> entries e = Num v # rest
            \<and> cond_test (String_toupper chr) v
                 (m\<lparr>expressions := e\<lparr>entries := rest, num_sign := 1\<rparr>\<rparr>) = None"
  have ee: "eval e = Inr e" using ev by (rule eval_idem)
  have "args e \<noteq> 0" using a by (simp add: args_def)
  then show "StateCondCommand_custom chr m
            = Inl (Error ''Invalid conditional type'',
                   m\<lparr>expressions := e\<lparr>entries := rest, num_sign := 1\<rparr>\<rparr>)"
    using normal ev a ee
    by (simp add: StateCondCommand_custom_def cond_value_def bind_def expr_do_def some_state_def
        expr_pop_def pop_num_calc_sign_def pop_num_calc_def)
qed

text \<open>
  With 2 on the stack: \<^verbatim>\<open>"~\<close> pops nothing and fails, \<^verbatim>\<open>"G\<close> pops the 2 and succeeds.
  With an empty stack: \<^verbatim>\<open>"~\<close> succeeds and \<^verbatim>\<open>"G\<close> raises the error.
\<close>

theorem conditional_pops_witness:
  "mode two_buffers = MODE_NORMAL
   \<and> eval (expressions two_buffers) = Inr (expressions two_buffers)
   \<and> entries (expressions two_buffers) = [Num 2]
   \<and> StateCondCommand_custom (CHR ''~'') two_buffers
       = Inr (Some start, (undo_push_m (UndoVarMode MODE_NORMAL) two_buffers)
                            \<lparr>mode := MODE_PARSE_ONLY_COND\<rparr>)
   \<and> (\<exists>m'. StateCondCommand_custom (CHR ''G'') two_buffers = Inr (Some start, m')
          \<and> entries (expressions m') = [] \<and> mode m' = MODE_NORMAL)
   \<and> mode initial_machine = MODE_NORMAL
   \<and> eval (expressions initial_machine) = Inr (expressions initial_machine)
   \<and> args (expressions initial_machine) = 0
   \<and> StateCondCommand_custom (CHR ''~'') initial_machine = Inr (Some start, initial_machine)
   \<and> StateCondCommand_custom (CHR ''G'') initial_machine
       = Inl (ArgExpectedError [CHR 0x22], initial_machine)"
proof -
  have a: "mode two_buffers = MODE_NORMAL"
    and b: "eval (expressions two_buffers) = Inr (expressions two_buffers)"
    and c: "entries (expressions two_buffers) = [Num 2]"
    and d: "args (expressions two_buffers) = 1"
    and e: "two_buffers\<lparr>expressions := expressions two_buffers\<rparr> = two_buffers"
    by (simp_all add: two_buffers_def initial_machine_def eval_def args_def)
  have t: "cond_test (String_toupper (CHR ''G'')) 2
             (two_buffers\<lparr>expressions := (expressions two_buffers)\<lparr>entries := [], num_sign := 1\<rparr>\<rparr>)
           = Some True"
    by (simp add: cond_test_def String_toupper_def)
  have a': "mode initial_machine = MODE_NORMAL"
    and b': "eval (expressions initial_machine) = Inr (expressions initial_machine)"
    and d': "args (expressions initial_machine) = 0"
    and e': "initial_machine\<lparr>expressions := expressions initial_machine\<rparr> = initial_machine"
    by (simp_all add: initial_machine_def eval_def args_def)
  have g: "CHR ''G'' \<noteq> CHR ''~''" by simp
  from conditional_pops [OF a b, of "CHR ''G''"] c d e t g
  have 1: "StateCondCommand_custom (CHR ''~'') two_buffers
       = Inr (Some start, (undo_push_m (UndoVarMode MODE_NORMAL) two_buffers)
                            \<lparr>mode := MODE_PARSE_ONLY_COND\<rparr>)"
    and 2: "\<exists>m'. StateCondCommand_custom (CHR ''G'') two_buffers = Inr (Some start, m')
          \<and> entries (expressions m') = [] \<and> mode m' = MODE_NORMAL"
    by auto
  from conditional_pops [OF a' b', of "CHR ''G''"] d' e' g
  have 3: "StateCondCommand_custom (CHR ''~'') initial_machine = Inr (Some start, initial_machine)"
    and 4: "StateCondCommand_custom (CHR ''G'') initial_machine
       = Inl (ArgExpectedError [CHR 0x22], initial_machine)"
    by auto
  from a b c 1 2 a' b' d' 3 4 show ?thesis by blast
qed

subsection \<open>Colon-modified movement commands\<close>

lemma expr_pop_fields:
  "expr_pop (pop_num_calc i) m = Inr (v, m1) \<Longrightarrow>
   num_sign (expressions m1) = 1 \<and> colon m1 = colon m \<and> view m1 = view m \<and> mode m1 = mode m"
  by (auto simp: expr_pop_def pop_num_calc_def split: sum.splits list.splits entry.splits)

lemma expr_pop_sign_fields:
  "expr_pop pop_num_calc_sign m = Inr (v, m1) \<Longrightarrow>
   num_sign (expressions m1) = 1 \<and> colon m1 = colon m \<and> view m1 = view m \<and> mode m1 = mode m"
  by (auto simp: expr_pop_def pop_num_calc_sign_def pop_num_calc_def
      split: sum.splits list.splits entry.splits)

lemma push_failure:
  assumes "colon m1" "num_sign (expressions m1) = 1"
  shows "\<exists>m'. move_result name (FAILURE, m1) = Inr (start, m')
       \<and> entries (expressions m') = Num FAILURE # entries (expressions m1)
       \<and> view m' = view m1 \<and> \<not> colon m'"
  using assms
  by (simp add: move_result_def eval_colon_def expr_upd_def push_def undo_push_m_def)

lemma start_dispatch:
  "mode m = MODE_NORMAL \<Longrightarrow>
     StateStart_custom ext (CHR ''J'') m = some_state (cmd_J m)
   \<and> StateStart_custom ext (CHR ''C'') m = some_state (cmd_C m)
   \<and> StateStart_custom ext (CHR ''R'') m = some_state (cmd_R m)
   \<and> StateStart_custom ext (CHR ''L'') m = some_state (cmd_L m)
   \<and> StateStart_custom ext (CHR ''B'') m = some_state (cmd_B m)
   \<and> StateStart_custom ext (CHR ''W'') m = some_state (cmd_W ext m)"
  by (simp add: StateStart_custom_def IS_CTL_def g_ascii_isdigit_def String_toupper_def
        StateStart_command_def BEGIN_EXEC_def)

text \<open>
  C3 (as amended): in normal mode, each of the colon-modified movement commands J, C, R,
  L, B and W whose movement cannot be performed (the position or the line popped is not
  valid, or the word loop stops early) raises no error: it returns to the start state
  with the colon modifier consumed, the caret where it was, and the condition boolean
  FAILURE pushed onto the expression stack above what the pop left. FAILURE is 0, a
  non-negative integer; it is the negative integer SUCCESS (-1) that denotes success.
\<close>

theorem colon_movement_failure:
  assumes normal: "mode m = MODE_NORMAL" and col: "colon m"
  shows "(expr_pop (pop_num_calc 0) m = Inr (v, mj) \<and> \<not> Validate_pos v mj \<longrightarrow>
            (\<exists>m'. StateStart_custom ext (CHR ''J'') m = Inr (Some start, m')
               \<and> entries (expressions m') = Num FAILURE # entries (expressions mj)
               \<and> view m' = view mj \<and> \<not> colon m'))
     \<and> (expr_pop pop_num_calc_sign m = Inr (n, mp) \<longrightarrow>
          (\<not> Validate_pos (word_of_int (SCI_GETCURRENTPOS (view mp)) + n) mp \<longrightarrow>
            (\<exists>m'. StateStart_custom ext (CHR ''C'') m = Inr (Some start, m')
               \<and> entries (expressions m') = Num FAILURE # entries (expressions mp)
               \<and> view m' = view mp \<and> \<not> colon m'))
        \<and> (\<not> Validate_pos (word_of_int (SCI_GETCURRENTPOS (view mp)) - n) mp \<longrightarrow>
            (\<exists>m'. StateStart_custom ext (CHR ''R'') m = Inr (Some start, m')
               \<and> entries (expressions m') = Num FAILURE # entries (expressions mp)
               \<and> view m' = view mp \<and> \<not> colon m'))
        \<and> (\<not> Validate_line (word_of_int (SCI_LINEFROMPOSITION (SCI_GETCURRENTPOS (view mp)) (view mp)) + n) mp \<longrightarrow>
            (\<exists>m'. StateStart_custom ext (CHR ''L'') m = Inr (Some start, m')
               \<and> entries (expressions m') = Num FAILURE # entries (expressions mp)
               \<and> view m' = view mp \<and> \<not> colon m'))
        \<and> (\<not> Validate_line (word_of_int (SCI_LINEFROMPOSITION (SCI_GETCURRENTPOS (view mp)) (view mp)) - n) mp \<longrightarrow>
            (\<exists>m'. StateStart_custom ext (CHR ''B'') m = Inr (Some start, m')
               \<and> entries (expressions m') = Num FAILURE # entries (expressions mp)
               \<and> view m' = view mp \<and> \<not> colon m'))
        \<and> (0 \<le> sint (fst (word_loop (if sint n < 0 then SCI_WORDLEFTEND ext else SCI_WORDRIGHTEND ext)
                              (if sint n < 0 then n * (- 1) else n) (view mp))) \<longrightarrow>
            (\<exists>m'. StateStart_custom ext (CHR ''W'') m = Inr (Some start, m')
               \<and> entries (expressions m') = Num FAILURE # entries (expressions mp)
               \<and> view m' = SCI_GOTOPOS (SCI_GETCURRENTPOS (view mp))
                             (snd (word_loop (if sint n < 0 then SCI_WORDLEFTEND ext
                                              else SCI_WORDRIGHTEND ext)
                                     (if sint n < 0 then n * (- 1) else n) (view mp)))
               \<and> \<not> colon m')))
     \<and> IS_FAILURE FAILURE \<and> 0 \<le> sint FAILURE \<and> IS_SUCCESS SUCCESS \<and> sint SUCCESS < 0"
proof (intro conjI impI)
  assume a: "expr_pop (pop_num_calc 0) m = Inr (v, mj) \<and> \<not> Validate_pos v mj"
  then have f: "num_sign (expressions mj) = 1" "colon mj"
    using expr_pop_fields [of 0 m v mj] col by auto
  show "\<exists>m'. StateStart_custom ext (CHR ''J'') m = Inr (Some start, m')
               \<and> entries (expressions m') = Num FAILURE # entries (expressions mj)
               \<and> view m' = view mj \<and> \<not> colon m'"
    using a f start_dispatch [OF normal, of ext]
    by (simp add: cmd_J_def bind_def some_state_def eval_colon_def expr_upd_def push_def
        undo_push_m_def)
next
  assume p: "expr_pop pop_num_calc_sign m = Inr (n, mp)"
  then have f: "num_sign (expressions mp) = 1" "colon mp"
    using expr_pop_sign_fields [of m n mp] col by auto
  note pf = push_failure [OF f(2) f(1)]
  { assume "\<not> Validate_pos (word_of_int (SCI_GETCURRENTPOS (view mp)) + n) mp"
    then have "move_chars n mp = (FAILURE, mp)" by (simp add: move_chars_def Let_def)
    then show "\<exists>m'. StateStart_custom ext (CHR ''C'') m = Inr (Some start, m')
               \<and> entries (expressions m') = Num FAILURE # entries (expressions mp)
               \<and> view m' = view mp \<and> \<not> colon m'"
      using p pf [of "''C''"] start_dispatch [OF normal, of ext]
      by (auto simp: cmd_C_def bind_def some_state_def) }
  { assume "\<not> Validate_pos (word_of_int (SCI_GETCURRENTPOS (view mp)) - n) mp"
    then have "move_chars (- n) mp = (FAILURE, mp)" by (simp add: move_chars_def Let_def)
    then show "\<exists>m'. StateStart_custom ext (CHR ''R'') m = Inr (Some start, m')
               \<and> entries (expressions m') = Num FAILURE # entries (expressions mp)
               \<and> view m' = view mp \<and> \<not> colon m'"
      using p pf [of "''R''"] start_dispatch [OF normal, of ext]
      by (auto simp: cmd_R_def bind_def some_state_def) }
  { assume "\<not> Validate_line (word_of_int (SCI_LINEFROMPOSITION (SCI_GETCURRENTPOS (view mp)) (view mp)) + n) mp"
    then have "move_lines n mp = (FAILURE, mp)" by (simp add: move_lines_def Let_def)
    then show "\<exists>m'. StateStart_custom ext (CHR ''L'') m = Inr (Some start, m')
               \<and> entries (expressions m') = Num FAILURE # entries (expressions mp)
               \<and> view m' = view mp \<and> \<not> colon m'"
      using p pf [of "''L''"] start_dispatch [OF normal, of ext]
      by (auto simp: cmd_L_def bind_def some_state_def) }
  { assume "\<not> Validate_line (word_of_int (SCI_LINEFROMPOSITION (SCI_GETCURRENTPOS (view mp)) (view mp)) - n) mp"
    then have "move_lines (- n) mp = (FAILURE, mp)" by (simp add: move_lines_def Let_def)
    then show "\<exists>m'. StateStart_custom ext (CHR ''B'') m = Inr (Some start, m')
               \<and> entries (expressions m') = Num FAILURE # entries (expressions mp)
               \<and> view m' = view mp \<and> \<not> colon m'"
      using p pf [of "''B''"] start_dispatch [OF normal, of ext]
      by (auto simp: cmd_B_def bind_def some_state_def) }
  { assume w: "0 \<le> sint (fst (word_loop (if sint n < 0 then SCI_WORDLEFTEND ext else SCI_WORDRIGHTEND ext)
                              (if sint n < 0 then n * (- 1) else n) (view mp)))"
    obtain v vw where l: "word_loop (if sint n < 0 then SCI_WORDLEFTEND ext else SCI_WORDRIGHTEND ext)
                              (if sint n < 0 then n * (- 1) else n) (view mp) = (v, vw)"
      by (cases "word_loop (if sint n < 0 then SCI_WORDLEFTEND ext else SCI_WORDRIGHTEND ext)
                              (if sint n < 0 then n * (- 1) else n) (view mp)")
    show "\<exists>m'. StateStart_custom ext (CHR ''W'') m = Inr (Some start, m')
               \<and> entries (expressions m') = Num FAILURE # entries (expressions mp)
               \<and> view m' = SCI_GOTOPOS (SCI_GETCURRENTPOS (view mp))
                             (snd (word_loop (if sint n < 0 then SCI_WORDLEFTEND ext
                                              else SCI_WORDRIGHTEND ext)
                                     (if sint n < 0 then n * (- 1) else n) (view mp)))
               \<and> \<not> colon m'"
      using p f w l start_dispatch [OF normal, of ext]
      by (auto simp: cmd_W_def bind_def some_state_def Let_def eval_colon_def expr_upd_def
          push_def undo_push_m_def) }
qed (simp_all add: IS_FAILURE_def IS_SUCCESS_def FAILURE_def SUCCESS_def)

text \<open>
  The commands \<^verbatim>\<open>1:J\<close>, \<^verbatim>\<open>1:C\<close> and \<^verbatim>\<open>1:W\<close> in the empty buffer: each pushes FAILURE.
\<close>

theorem colon_movement_failure_witness:
  "mode colon_one = MODE_NORMAL \<and> colon colon_one
   \<and> expr_pop (pop_num_calc 0) colon_one = Inr (1, colon_popped)
   \<and> \<not> Validate_pos 1 colon_popped
   \<and> expr_pop pop_num_calc_sign colon_one = Inr (1, colon_popped)
   \<and> \<not> Validate_pos (word_of_int (SCI_GETCURRENTPOS (view colon_popped)) + 1) colon_popped
   \<and> 0 \<le> sint (fst (word_loop (SCI_WORDRIGHTEND no_externals) 1 (view colon_popped)))
   \<and> stack_after (StateStart_custom no_externals (CHR ''J'') colon_one) = Some [Num 0]
   \<and> stack_after (StateStart_custom no_externals (CHR ''C'') colon_one) = Some [Num 0]
   \<and> stack_after (StateStart_custom no_externals (CHR ''W'') colon_one) = Some [Num 0]"
proof -
  have a: "mode colon_one = MODE_NORMAL" and b: "colon colon_one"
    by (simp_all add: colon_one_def initial_machine_def)
  have c: "expr_pop (pop_num_calc 0) colon_one = Inr (1, colon_popped)"
    and d: "expr_pop pop_num_calc_sign colon_one = Inr (1, colon_popped)"
    by (simp_all add: colon_one_def colon_popped_def initial_machine_def expr_pop_def
        pop_num_calc_sign_def pop_num_calc_def eval_def)
  have e: "\<not> Validate_pos 1 colon_popped"
    and f: "\<not> Validate_pos (word_of_int (SCI_GETCURRENTPOS (view colon_popped)) + 1) colon_popped"
    by (simp_all add: colon_popped_def initial_machine_def Validate_pos_def SCI_GETLENGTH_def
        SCI_GETCURRENTPOS_def doc_text_def)
  have g: "0 \<le> sint (fst (word_loop (SCI_WORDRIGHTEND no_externals) 1 (view colon_popped)))"
    by (simp add: colon_popped_def initial_machine_def no_externals_def SCI_GOTOPOS_def
        SCI_GETLENGTH_def SCI_GETCURRENTPOS_def doc_text_def Let_def)
  have h: "entries (expressions colon_popped) = []" "\<not> sint (1 :: tecoInt) < 0"
    by (simp_all add: colon_popped_def initial_machine_def)
  from colon_movement_failure [OF a b, where v = 1 and mj = colon_popped and n = 1
      and mp = colon_popped and ext = no_externals]
    c d e f g h
  show ?thesis
    using a b by (auto simp: stack_after_def FAILURE_def)
qed

text \<open>
  The claim C3 as stated says that any negative integer pushed this way denotes failure.
  The command \<^verbatim>\<open>:J\<close> in the initial state moves to position 0, which succeeds, and pushes
  the negative integer -1, which denotes success and not failure.
\<close>

theorem colon_movement_counterexample:
  "stack_after (StateStart_custom no_externals (CHR ''J'') colon_popped) = Some [Num (- 1)]
   \<and> sint (- 1 :: tecoInt) < 0 \<and> IS_SUCCESS (- 1) \<and> \<not> IS_FAILURE (- 1)"
  by (simp add: stack_after_def StateStart_custom_def IS_CTL_def g_ascii_isdigit_def
      String_toupper_def StateStart_command_def BEGIN_EXEC_def some_state_def cmd_J_def
      bind_def expr_pop_def pop_num_calc_def eval_def colon_popped_def initial_machine_def
      Validate_pos_def SCI_GETLENGTH_def doc_text_def current_doc_must_undo_def
      eval_colon_def expr_upd_def push_def undo_push_m_def undo_push_def SUCCESS_def
      IS_SUCCESS_def IS_FAILURE_def Let_def)

subsection \<open>The colon-modified loop end\<close>

lemma collapse_operator: "collapse (Op op # es) = Inr (Op op # es)"
  by simp

lemma lookup_loop_end: "lookup_transition (transitions ext start) (CHR ''>'') = None"
  by (simp add: lookup_transition_def transitions_def String_toupper_def)

text \<open>
  C2 (as amended): in normal mode, with a frame \<open>ctx\<close> of this macro invocation on top of the loop
  stack that is not pass-through (its loop start opened a brace), the colon-modified loop
  end \<^verbatim>\<open>:></\<close> evaluates the pending operators (\<open>eval\<close>, here succeeding with \<open>e1\<close>) and
  pushes the NEW barrier on top of the evaluated entries, which all stay on the
  expression stack. Unless this was the last round (counter 1), the program counter goes
  back to the loop start and a non-negative counter is decremented; in the last round the
  brace of the loop is removed and the frame popped.
\<close>

theorem loop_end_aggregates:
  assumes "mode m = MODE_NORMAL" and "colon m"
    and "loop_stack m = ctx # frames" and "loop_stack_fp m \<le> length frames"
    and "\<not> pass_through ctx" and "0 < brace_level (expressions m)"
    and "eval (expressions m) = Inr e1"
  shows "\<exists>m'. StateStart_custom ext (CHR ''>'') m = Inr (Some start, m')
           \<and> \<not> colon m'
           \<and> (if counter ctx = 1
               then entries (expressions m') = Op OP_NEW # remove1 (Op OP_BRACE) (entries e1)
                    \<and> loop_stack m' = frames
               else entries (expressions m') = Op OP_NEW # entries e1
                    \<and> macro_pc m' = pc ctx
                    \<and> loop_stack m'
                        = (if 0 \<le> sint (counter ctx)
                           then ctx\<lparr>counter := counter ctx - 1\<rparr> # frames
                           else ctx # frames))"
proof -
  define m1 where "m1 = (undo_push_m (UndoVarColon (colon m)) m)\<lparr>colon := False\<rparr>"
  define m2 where "m2 = expr_upd (push_op OP_NEW) (m1\<lparr>expressions := e1\<rparr>)"
  have bl: "brace_level e1 = brace_level (expressions m)"
    using assms(7) by (auto simp: eval_def split: sum.splits)
  have d: "StateStart_custom ext (CHR ''>'') m = some_state (loop_end m)"
    using assms(1)
    by (simp add: StateStart_custom_def IS_CTL_def g_ascii_isdigit_def String_toupper_def
        StateStart_command_def BEGIN_EXEC_def)
  have c: "eval_colon m = (True, m1)"
    using assms(2) by (simp add: eval_colon_def m1_def)
  have m1: "expressions m1 = expressions m"
    by (simp add: m1_def undo_push_m_def)
  have a: "loop_end_args ctx True m1 = Inr m2"
    using assms(5,7) by (simp add: loop_end_args_def expr_do_def bind_def m1 m2_def)
  have m2: "expressions m2 = push_op OP_NEW e1" "\<not> colon m2"
    by (simp_all add: m2_def m1_def expr_upd_def undo_push_m_def)
  have b: "brace_close (push_op OP_NEW e1)
           = Inr ((push_op OP_NEW e1)
                    \<lparr>entries := Op OP_NEW # remove1 (Op OP_BRACE) (entries e1),
                     brace_level := brace_level e1 - 1\<rparr>)"
    using assms(6) bl by (simp add: brace_close_def push_op_def eval_def)
  have le: "loop_end m =
      (if counter ctx = 1
       then bind (expr_do brace_close m2)
              (\<lambda>m3. Inr (start, undo_push_m (UndoLoopPush ctx) (m3\<lparr>loop_stack := frames\<rparr>)))
       else if 0 \<le> sint (counter ctx)
            then Inr (start, (undo_push_m (UndoVarCounter (counter ctx)) (m2\<lparr>macro_pc := pc ctx\<rparr>))
                               \<lparr>loop_stack := ctx\<lparr>counter := counter ctx - 1\<rparr> # frames\<rparr>)
            else Inr (start, m2\<lparr>macro_pc := pc ctx\<rparr>))"
    using assms(3,4,5) by (simp add: loop_end_def c a bind_def Let_def)
  have ls: "loop_stack m2 = ctx # frames"
    using assms(3) by (simp add: m2_def m1_def expr_upd_def undo_push_m_def)
  show ?thesis
  proof (cases "counter ctx = 1")
    case True
    then show ?thesis
      using m2 by (simp add: d le expr_do_def b bind_def some_state_def undo_push_m_def)
  next
    case False
    then show ?thesis
      using m2 ls by (simp add: d le some_state_def undo_push_m_def push_op_def)
  qed
qed

theorem loop_end_aggregates_witness:
  "mode in_loop_body = MODE_NORMAL \<and> colon in_loop_body
   \<and> loop_stack in_loop_body = [\<lparr>counter = 3, pc = 1, pass_through = False\<rparr>]
   \<and> eval (expressions in_loop_body) = Inr (expressions in_loop_body)
   \<and> (\<exists>m'. StateStart_custom no_externals (CHR ''>'') in_loop_body = Inr (Some start, m')
          \<and> \<not> colon m'
          \<and> entries (expressions m') = [Op OP_NEW, Op OP_ADD, Num 1, Op OP_BRACE]
          \<and> macro_pc m' = 1
          \<and> loop_stack m' = [\<lparr>counter = 2, pc = 1, pass_through = False\<rparr>])"
proof -
  have a: "mode in_loop_body = MODE_NORMAL" and b: "colon in_loop_body"
    and c: "loop_stack in_loop_body = [\<lparr>counter = 3, pc = 1, pass_through = False\<rparr>]"
    and d: "loop_stack_fp in_loop_body \<le> length ([] :: LoopContext list)"
    and e: "\<not> pass_through \<lparr>counter = 3, pc = 1, pass_through = False\<rparr>"
    and f: "0 < brace_level (expressions in_loop_body)"
    and g: "eval (expressions in_loop_body) = Inr (expressions in_loop_body)"
    by (simp_all add: in_loop_body_def initial_machine_def eval_def)
  have h: "entries (expressions in_loop_body) = [Op OP_ADD, Num 1, Op OP_BRACE]"
    by (simp add: in_loop_body_def)
  from loop_end_aggregates [OF a b c d e f g, of no_externals] a b c g h
  show ?thesis by (simp add: word_sle_eq)
qed

text \<open>
  The macro \<^verbatim>\<open>0 3<1+:></\<close> run from the initial state. The digits \<^verbatim>\<open>0 3\<close> are one number, the
  counter that \<^verbatim>\<open><\<close> pops; in each round \<^verbatim>\<open>+\<close> finds the single operand 1 inside the brace
  of the loop, so that its operator stays pending under the NEW barrier.
\<close>

lemma loop_aggregation_run:
  "run_stack (Execute_macro 100 no_externals ''0 3<1+:>'' False initial_machine)
     = Some [Op OP_NEW, Op OP_ADD, Num 1, Op OP_NEW, Op OP_ADD, Num 1,
             Op OP_NEW, Op OP_ADD, Num 1]"
  by code_simp

text \<open>
  The claim C2 as stated adds that \<^verbatim>\<open>0 3<1+:></\<close> leaves the integers 1, 2, 3. The run does
  not end with them: the integer 2 is not on the expression stack.
\<close>

theorem loop_aggregation_counterexample:
  "\<not> holds_integer 2
       (run_stack (Execute_macro 100 no_externals ''0 3<1+:>'' False initial_machine))
   \<and> run_stack (Execute_macro 100 no_externals ''0 3<1+:>'' False initial_machine)
     \<noteq> Some [Num 3, Op OP_NEW, Num 2, Op OP_NEW, Num 1]"
  by code_simp

section \<open>The loop stack and the current state during a macro\<close>

subsection \<open>What the commands leave alone\<close>

text \<open>
  Every handler of parser.cpp keeps the frame pointer, keeps at least as many loop frames
  as the frame pointer says, and leaves the current state to \<^verbatim>\<open>State::input\<close> when it
  returns. This is shown command by command, then for the states, for
  \<^verbatim>\<open>State::input\<close> and, by induction on the bound, for the execution of macros.
\<close>

lemma frames_kept_refl [simp]: "frames_kept m m"
  by (simp add: frames_kept_def)

lemma at_ok_refl [simp]: "at_ok m m"
  by (simp add: at_ok_def)

lemma frames_kept_trans: "frames_kept m m1 \<Longrightarrow> frames_kept m1 m2 \<Longrightarrow> frames_kept m m2"
  by (simp add: frames_kept_def)

lemma at_ok_frames: "at_ok m0 m \<Longrightarrow> frames_kept m0 m"
  by (simp add: at_ok_def)

lemma at_ok_upd [simp]:
  "at_ok m0 (m\<lparr>expressions := e\<rparr>) = at_ok m0 m"
  "at_ok m0 (m\<lparr>undo := u\<rparr>) = at_ok m0 m"
  "at_ok m0 (m\<lparr>view := v\<rparr>) = at_ok m0 m"
  "at_ok m0 (m\<lparr>colon := c\<rparr>) = at_ok m0 m"
  "at_ok m0 (m\<lparr>at := c\<rparr>) = at_ok m0 m"
  "at_ok m0 (m\<lparr>mode := md\<rparr>) = at_ok m0 m"
  "at_ok m0 (m\<lparr>macro_pc := p\<rparr>) = at_ok m0 m"
  "at_ok m0 (m\<lparr>nest_level := n\<rparr>) = at_ok m0 m"
  "at_ok m0 (m\<lparr>skip_else := c\<rparr>) = at_ok m0 m"
  "at_ok m0 (m\<lparr>globals := g\<rparr>) = at_ok m0 m"
  "at_ok m0 (m\<lparr>ring := rg\<rparr>) = at_ok m0 m"
  "at_ok m0 (m\<lparr>skip_label := l\<rparr>) = at_ok m0 m"
  by (simp_all add: at_ok_def frames_kept_def fp_ok_def)

lemma at_ok_push [simp]:
  "at_ok m0 (undo_push_m t m) = at_ok m0 m"
  "at_ok m0 (expr_upd f m) = at_ok m0 m"
  by (simp_all add: undo_push_m_def expr_upd_def)

lemma frames_kept_upd [simp]:
  "frames_kept m0 (m\<lparr>current := st\<rparr>) = frames_kept m0 m"
  "frames_kept m0 (m\<lparr>expressions := e\<rparr>) = frames_kept m0 m"
  "frames_kept m0 (m\<lparr>macro_pc := p\<rparr>) = frames_kept m0 m"
  "frames_kept m0 (m\<lparr>skip_label := l\<rparr>) = frames_kept m0 m"
  "frames_kept m0 (m\<lparr>undo := u\<rparr>) = frames_kept m0 m"
  by (simp_all add: frames_kept_def fp_ok_def)

lemma frames_kept_push [simp]:
  "frames_kept m0 (undo_push_m t m) = frames_kept m0 m"
  "frames_kept m0 (expr_upd f m) = frames_kept m0 m"
  by (simp_all add: undo_push_m_def expr_upd_def)

lemma step_ok_ret [simp]: "step_ok m0 (Inr (y, m)) = at_ok m0 m"
  and step_ok_thr [simp]: "step_ok m0 (Inl (x, m)) = frames_kept m0 m"
  and step_ok0_ret [simp]: "step_ok0 m0 (Inr m) = at_ok m0 m"
  and step_ok0_thr [simp]: "step_ok0 m0 (Inl (x, m)) = frames_kept m0 m"
  by (simp_all add: step_ok_def step_ok0_def)

lemma step_ok_some_state [simp]: "step_ok m0 (some_state r) = step_ok m0 r"
proof (cases r)
  case (Inl a)
  then show ?thesis by (cases a) (simp add: some_state_def)
next
  case (Inr p)
  then show ?thesis by (cases p) (simp add: some_state_def)
qed

lemma step_ok_bind0:
  assumes "step_ok0 m0 r" and "\<And>m1. at_ok m0 m1 \<Longrightarrow> step_ok m0 (f m1)"
  shows "step_ok m0 (bind r f)"
proof (cases r)
  case (Inl a)
  with assms(1) show ?thesis by (cases a) (simp add: bind_def)
next
  case (Inr m1)
  with assms(1) have "at_ok m0 m1" by simp
  from assms(2) [OF this] Inr show ?thesis by (simp add: bind_def)
qed

lemma step_ok0_bind0:
  assumes "step_ok0 m0 r" and "\<And>m1. at_ok m0 m1 \<Longrightarrow> step_ok0 m0 (f m1)"
  shows "step_ok0 m0 (bind r f)"
proof (cases r)
  case (Inl a)
  with assms(1) show ?thesis by (cases a) (simp add: bind_def)
next
  case (Inr m1)
  with assms(1) have "at_ok m0 m1" by simp
  from assms(2) [OF this] Inr show ?thesis by (simp add: bind_def)
qed

lemma step_ok_bindp:
  assumes "step_ok m0 r" and "\<And>v m1. at_ok m0 m1 \<Longrightarrow> step_ok m0 (f (v, m1))"
  shows "step_ok m0 (bind r f)"
proof (cases r)
  case (Inl a)
  with assms(1) show ?thesis by (cases a) (simp add: bind_def)
next
  case (Inr p)
  obtain v m1 where p: "p = (v, m1)" by (cases p)
  with Inr assms(1) have "at_ok m0 m1" by simp
  from assms(2) [OF this, of v] Inr p show ?thesis by (simp add: bind_def)
qed

lemma step_ok_expr_do: "at_ok m0 m \<Longrightarrow> step_ok0 m0 (expr_do f m)"
  by (cases "f (expressions m)") (simp_all add: expr_do_def at_ok_frames)

lemma step_ok_expr_pop: "at_ok m0 m \<Longrightarrow> step_ok m0 (expr_pop f m)"
proof (cases "f (expressions m)")
  case (Inl a)
  assume "at_ok m0 m"
  with Inl show ?thesis by (simp add: expr_pop_def at_ok_frames)
next
  case (Inr p)
  assume "at_ok m0 m"
  with Inr show ?thesis by (cases p) (simp add: expr_pop_def)
qed

lemma step_ok_BEGIN_EXEC:
  "at_ok m0 m \<Longrightarrow> step_ok m0 (f m) \<Longrightarrow> step_ok m0 (BEGIN_EXEC st m f)"
  by (simp add: BEGIN_EXEC_def)

lemma step_ok_check_custom: "step_ok m0 r \<Longrightarrow> step_ok m0 (check_custom chr r)"
proof (cases r)
  case (Inl a)
  assume "step_ok m0 r"
  with Inl show ?thesis by (cases a) (simp add: check_custom_def)
next
  case (Inr p)
  assume "step_ok m0 r"
  with Inr show ?thesis
    by (cases p) (simp add: check_custom_def at_ok_frames split: option.splits)
qed

lemma step_ok_get_next_state:
  "at_ok m0 m \<Longrightarrow> step_ok m0 (custom chr m) \<Longrightarrow> step_ok m0 (get_next_state table custom chr m)"
  by (simp add: get_next_state_def step_ok_check_custom split: option.splits)

lemma at_ok_eval_colon [simp]: "at_ok m0 (snd (eval_colon m)) = at_ok m0 m"
  by (simp add: eval_colon_def)

lemma step_ok_eval_colon:
  assumes "at_ok m0 m" and "\<And>c m1. at_ok m0 m1 \<Longrightarrow> step_ok m0 (f c m1)"
  shows "step_ok m0 (case eval_colon m of (c, m1) \<Rightarrow> f c m1)"
proof -
  have "at_ok m0 (snd (eval_colon m))" using assms(1) by simp
  from assms(2) [OF this] show ?thesis by (simp add: case_prod_beta)
qed

lemma move_result_ok: "at_ok m0 (snd r) \<Longrightarrow> step_ok m0 (move_result name r)"
  by (cases r) (simp add: move_result_def eval_colon_def at_ok_frames split: bool.splits)

lemma move_chars_ok [simp]: "at_ok m0 (snd (move_chars n m)) = at_ok m0 m"
  by (simp add: move_chars_def Let_def)

lemma move_lines_ok [simp]: "at_ok m0 (snd (move_lines n m)) = at_ok m0 m"
  by (simp add: move_lines_def Let_def)


lemma cmd_C_ok: "at_ok m0 m \<Longrightarrow> step_ok m0 (cmd_C m)"
  unfolding cmd_C_def
  by (rule step_ok_bindp, erule step_ok_expr_pop) (simp add: move_result_ok)

lemma calc_command_ok: "at_ok m0 m \<Longrightarrow> step_ok m0 (calc_command op m)"
  unfolding calc_command_def
  by (rule step_ok_BEGIN_EXEC, assumption, rule step_ok_bind0, erule step_ok_expr_do) simp

lemma cmd_J_ok: "at_ok m0 m \<Longrightarrow> step_ok m0 (cmd_J m)"
  unfolding cmd_J_def
  by (rule step_ok_bindp, erule step_ok_expr_pop)
     (simp add: eval_colon_def at_ok_frames Let_def)

lemma cmd_R_ok: "at_ok m0 m \<Longrightarrow> step_ok m0 (cmd_R m)"
  unfolding cmd_R_def
  by (rule step_ok_bindp, erule step_ok_expr_pop) (simp add: move_result_ok)

lemma cmd_L_ok: "at_ok m0 m \<Longrightarrow> step_ok m0 (cmd_L m)"
  unfolding cmd_L_def
  by (rule step_ok_bindp, erule step_ok_expr_pop) (simp add: move_result_ok)

lemma cmd_B_ok: "at_ok m0 m \<Longrightarrow> step_ok m0 (cmd_B m)"
  unfolding cmd_B_def
  by (rule step_ok_bindp, erule step_ok_expr_pop) (simp add: move_result_ok)

lemma cmd_W_ok: "at_ok m0 m \<Longrightarrow> step_ok m0 (cmd_W ext m)"
  unfolding cmd_W_def
  by (rule step_ok_bindp, erule step_ok_expr_pop)
     (simp add: eval_colon_def at_ok_frames Let_def split: prod.splits del: word_loop.simps)

lemma at_ok_set_stack:
  "at_ok m0 m \<Longrightarrow> loop_stack_fp m0 \<le> length l \<Longrightarrow> at_ok m0 (m\<lparr>loop_stack := l\<rparr>)"
  by (simp add: at_ok_def frames_kept_def fp_ok_def)

lemma at_ok_push_frame: "at_ok m0 m \<Longrightarrow> at_ok m0 (m\<lparr>loop_stack := ctx # loop_stack m\<rparr>)"
  by (auto simp: at_ok_def frames_kept_def fp_ok_def)

lemma at_ok_fp: "at_ok m0 m \<Longrightarrow> loop_stack_fp m = loop_stack_fp m0"
  by (simp add: at_ok_def frames_kept_def)

lemma expr_upd_fields [simp]:
  "loop_stack (expr_upd f m) = loop_stack m"
  "loop_stack_fp (expr_upd f m) = loop_stack_fp m"
  "current (expr_upd f m) = current m"
  "mode (expr_upd f m) = mode m"
  "macro_pc (expr_upd f m) = macro_pc m"
  by (simp_all add: expr_upd_def)

lemma eval_colon_fields [simp]:
  "loop_stack (snd (eval_colon m)) = loop_stack m"
  "loop_stack_fp (snd (eval_colon m)) = loop_stack_fp m"
  "current (snd (eval_colon m)) = current m"
  by (simp_all add: eval_colon_def undo_push_m_def)

lemma step_ok0_if_expr_do:
  "at_ok m0 m \<Longrightarrow> step_ok0 m0 (if c then expr_do f m else Inr m)"
  by (simp add: step_ok_expr_do)

lemma loop_start_ok: "at_ok m0 m \<Longrightarrow> step_ok m0 (loop_start m)"
  unfolding loop_start_def
  apply (rule step_ok_bind0, erule step_ok_expr_do)
  apply (rule step_ok_eval_colon, assumption)
  apply (rule step_ok_bindp, erule step_ok_expr_pop)
  apply (simp add: Let_def at_ok_push_frame)
  done

lemma loop_end_args_ok: "at_ok m0 m \<Longrightarrow> step_ok0 m0 (loop_end_args ctx c m)"
  unfolding loop_end_args_def
  by (auto intro!: step_ok0_bind0 step_ok_expr_do)

lemma loop_end_ok:
  assumes a: "at_ok m0 m"
  shows "step_ok m0 (loop_end m)"
proof (cases "length (loop_stack m) \<le> loop_stack_fp m")
  case True
  with a show ?thesis by (simp add: loop_end_def at_ok_frames)
next
  case False
  then obtain ctx frames where ls: "loop_stack m = ctx # frames"
    by (cases "loop_stack m") auto
  with False a have fr: "loop_stack_fp m0 \<le> length frames"
    by (simp add: at_ok_fp)
  have le: "loop_end m =
      (case eval_colon m of
         (colon_modified, m1) \<Rightarrow>
           bind (loop_end_args ctx colon_modified m1) (\<lambda>m2.
             if counter ctx = 1
             then bind (if \<not> pass_through ctx then expr_do brace_close m2 else Inr m2)
                    (\<lambda>m3. Inr (start, undo_push_m (UndoLoopPush ctx)
                                         (m3\<lparr>loop_stack := frames\<rparr>)))
             else (let m3 = m2\<lparr>macro_pc := pc ctx\<rparr>
                   in if 0 \<le> sint (counter ctx)
                      then Inr (start, (undo_push_m (UndoVarCounter (counter ctx)) m3)
                                         \<lparr>loop_stack := ctx\<lparr>counter := counter ctx - 1\<rparr> # frames\<rparr>)
                      else Inr (start, m3))))"
    using False ls by (simp add: loop_end_def)
  have pop: "at_ok m0 (m3\<lparr>loop_stack := frames\<rparr>)" if "at_ok m0 m3" for m3
    using that fr by (rule at_ok_set_stack)
  have dec: "at_ok m0 (m3\<lparr>loop_stack := c # frames\<rparr>)" if "at_ok m0 m3" for m3 c
    using that fr by (simp add: at_ok_set_stack)
  have body: "step_ok m0
      (if counter ctx = 1
       then bind (if \<not> pass_through ctx then expr_do brace_close m2 else Inr m2)
              (\<lambda>m3. Inr (start, undo_push_m (UndoLoopPush ctx) (m3\<lparr>loop_stack := frames\<rparr>)))
       else (let m3 = m2\<lparr>macro_pc := pc ctx\<rparr>
             in if 0 \<le> sint (counter ctx)
                then Inr (start, (undo_push_m (UndoVarCounter (counter ctx)) m3)
                                   \<lparr>loop_stack := ctx\<lparr>counter := counter ctx - 1\<rparr> # frames\<rparr>)
                else Inr (start, m3)))"
    if b: "at_ok m0 m2" for m2
  proof (cases "counter ctx = 1")
    case True
    have "step_ok m0 (bind (if \<not> pass_through ctx then expr_do brace_close m2 else Inr m2)
              (\<lambda>m3. Inr (start, undo_push_m (UndoLoopPush ctx) (m3\<lparr>loop_stack := frames\<rparr>))))"
      by (rule step_ok_bind0 [OF step_ok0_if_expr_do [OF b]]) (simp add: pop)
    with True show ?thesis by simp
  next
    case False
    then show ?thesis by (simp add: Let_def b dec)
  qed
  show ?thesis
    unfolding le
    by (rule step_ok_eval_colon [OF a], rule step_ok_bind0, erule loop_end_args_ok, erule body)
qed

lemma loop_continue_ok:
  assumes a: "at_ok m0 m"
  shows "step_ok m0 (loop_continue m)"
proof (cases "length (loop_stack m) \<le> loop_stack_fp m")
  case True
  with a show ?thesis by (simp add: loop_continue_def at_ok_frames)
next
  case False
  then obtain ctx frames where ls: "loop_stack m = ctx # frames"
    by (cases "loop_stack m") auto
  with False a have fr: "loop_stack_fp m0 \<le> length frames"
    by (simp add: at_ok_fp)
  have le: "loop_continue m =
      (case eval_colon m of
         (colon_modified, m1) \<Rightarrow>
           bind (loop_end_args ctx colon_modified m1) (\<lambda>m2.
             if counter ctx = 1
             then bind (if \<not> pass_through ctx then expr_do brace_close m2 else Inr m2)
                    (\<lambda>m3. Inr (start,
                       (undo_push_m (UndoVarMode (mode m3))
                          (undo_push_m (UndoLoopPush ctx) (m3\<lparr>loop_stack := frames\<rparr>)))
                         \<lparr>mode := MODE_PARSE_ONLY_LOOP\<rparr>))
             else Inr (start,
                    m2\<lparr>macro_pc := pc ctx,
                       loop_stack :=
                         ctx\<lparr>counter := (if sint (counter ctx - 1) < - 1 then - 1
                                          else counter ctx - 1)\<rparr> # frames\<rparr>)))"
    using False ls by (simp add: loop_continue_def)
  have pop: "at_ok m0 (m3\<lparr>loop_stack := frames\<rparr>)" if "at_ok m0 m3" for m3
    using that fr by (rule at_ok_set_stack)
  have dec: "at_ok m0 (m3\<lparr>loop_stack := c # frames\<rparr>)" if "at_ok m0 m3" for m3 c
    using that fr by (simp add: at_ok_set_stack)
  have body: "step_ok m0
      (if counter ctx = 1
       then bind (if \<not> pass_through ctx then expr_do brace_close m2 else Inr m2)
              (\<lambda>m3. Inr (start,
                 (undo_push_m (UndoVarMode (mode m3))
                    (undo_push_m (UndoLoopPush ctx) (m3\<lparr>loop_stack := frames\<rparr>)))
                   \<lparr>mode := MODE_PARSE_ONLY_LOOP\<rparr>))
       else Inr (start,
              m2\<lparr>macro_pc := pc ctx,
                 loop_stack :=
                   ctx\<lparr>counter := (if sint (counter ctx - 1) < - 1 then - 1
                                    else counter ctx - 1)\<rparr> # frames\<rparr>))"
    if b: "at_ok m0 m2" for m2
  proof (cases "counter ctx = 1")
    case True
    have "step_ok m0 (bind (if \<not> pass_through ctx then expr_do brace_close m2 else Inr m2)
              (\<lambda>m3. Inr (start,
                 (undo_push_m (UndoVarMode (mode m3))
                    (undo_push_m (UndoLoopPush ctx) (m3\<lparr>loop_stack := frames\<rparr>)))
                   \<lparr>mode := MODE_PARSE_ONLY_LOOP\<rparr>)))"
      by (rule step_ok_bind0 [OF step_ok0_if_expr_do [OF b]]) (simp add: pop)
    with True show ?thesis by simp
  next
    case False
    then show ?thesis by (simp add: b dec)
  qed
  show ?thesis
    unfolding le
    by (rule step_ok_eval_colon [OF a], rule step_ok_bind0, erule loop_end_args_ok, erule body)
qed

lemma loop_break_ok:
  assumes a: "at_ok m0 m"
  shows "step_ok m0 (loop_break m)"
proof (cases "length (loop_stack m) \<le> loop_stack_fp m")
  case True
  with a show ?thesis by (simp add: loop_break_def at_ok_frames)
next
  case False
  then obtain ctx frames where ls: "loop_stack m = ctx # frames"
    by (cases "loop_stack m") auto
  with False a have fr: "loop_stack_fp m0 \<le> length frames"
    by (simp add: at_ok_fp)
  have pop: "at_ok m0 (m3\<lparr>loop_stack := frames\<rparr>)" if "at_ok m0 m3" for m3
    using that fr by (rule at_ok_set_stack)
  show ?thesis
  proof (cases "pop_num_calc (integer (globals m ''_'')) (expressions m)")
    case (Inl x)
    with False a show ?thesis
      by (simp add: loop_break_def expr_pop_def bind_def at_ok_frames)
  next
    case (Inr p)
    obtain rc0 e where p: "p = (rc0, e)" by (cases p)
    define m2 where "m2 = snd (eval_colon (m\<lparr>expressions := e\<rparr>))"
    have m2: "at_ok m0 m2" "loop_stack m2 = ctx # frames"
      using a ls by (simp_all add: m2_def)
    have brk: "step_ok m0
        (bind (expr_do discard_args (m2\<lparr>loop_stack := frames\<rparr>)) (\<lambda>m3.
           bind (if \<not> pass_through ctx then expr_do brace_close m3 else Inr m3)
             (\<lambda>m4. Inr (start,
                (undo_push_m (UndoVarMode (mode m4))
                   (undo_push_m (UndoLoopPush ctx) m4))
                  \<lparr>mode := MODE_PARSE_ONLY_LOOP\<rparr>))))"
      apply (rule step_ok_bind0, rule step_ok_expr_do, rule pop, rule m2(1))
      apply (rule step_ok_bind0, erule step_ok0_if_expr_do)
      apply simp
      done
    from False Inr p show ?thesis
      apply (simp add: loop_break_def expr_pop_def bind_def [of "Inr x" for x] Let_def)
      apply (simp add: case_prod_beta m2_def [symmetric] m2 brk)
      done
  qed
qed

lemma StateFCommand_custom_ok: "at_ok m0 m \<Longrightarrow> step_ok m0 (StateFCommand_custom chr m)"
  unfolding StateFCommand_custom_def
  by (auto simp: at_ok_frames
      intro!: step_ok_BEGIN_EXEC loop_continue_ok step_ok_bind0 step_ok_expr_do)

lemma at_ok_trans: "at_ok m0 m1 \<Longrightarrow> at_ok m1 m2 \<Longrightarrow> at_ok m0 m2"
  by (simp add: at_ok_def frames_kept_def)

lemma at_ok_frames_trans: "at_ok m0 m1 \<Longrightarrow> frames_kept m1 m2 \<Longrightarrow> frames_kept m0 m2"
  by (simp add: at_ok_def frames_kept_def)

lemma step_ok_trans:
  assumes "at_ok m0 m1" and "step_ok m1 r"
  shows "step_ok m0 r"
proof (cases r)
  case (Inl a)
  with assms show ?thesis by (cases a) (simp add: at_ok_frames_trans)
next
  case (Inr p)
  with assms show ?thesis by (cases p) (simp add: at_ok_trans)
qed

lemma step_ok0_trans:
  assumes "at_ok m0 m1" and "step_ok0 m1 r"
  shows "step_ok0 m0 r"
proof (cases r)
  case (Inl a)
  with assms show ?thesis by (cases a) (simp add: at_ok_frames_trans)
next
  case (Inr m2)
  with assms show ?thesis by (simp add: at_ok_trans)
qed

lemma ext_custom_ok: "ext_ok ext \<Longrightarrow> at_ok m0 m \<Longrightarrow> step_ok m0 (ext_custom ext st c m)"
  by (erule step_ok_trans) (simp add: ext_ok_def)

lemma ext_refresh_ok: "ext_ok ext \<Longrightarrow> at_ok m0 m \<Longrightarrow> step_ok0 m0 (ext_refresh ext st m)"
  by (erule step_ok0_trans) (simp add: ext_ok_def)

lemma step_ok_if:
  "(c \<Longrightarrow> step_ok m0 a) \<Longrightarrow> (\<not> c \<Longrightarrow> step_ok m0 b) \<Longrightarrow> step_ok m0 (if c then a else b)"
  by simp

lemmas command_intros =
  step_ok_if step_ok_BEGIN_EXEC step_ok_bind0 step_ok_bindp step_ok_expr_do step_ok_expr_pop
  calc_command_ok loop_start_ok loop_end_ok loop_break_ok
  cmd_J_ok cmd_C_ok cmd_R_ok cmd_L_ok cmd_B_ok cmd_W_ok

lemma StateStart_command_ok:
  assumes "ext_ok ext" and a: "at_ok m0 m"
  shows "step_ok m0 (StateStart_command ext chr m)"
proof (cases "chr \<notin> set ''/*+-&#(),.ZH<>;|@:JCRLBW'' \<and> chr \<noteq> CHR 0x27")
  case True
  then have "StateStart_command ext chr m = ext_custom ext start chr m"
    unfolding StateStart_command_def by (rule if_P)
  with assms show ?thesis by (simp add: ext_custom_ok)
next
  case False
  show ?thesis
    unfolding StateStart_command_def if_not_P [OF False] step_ok_some_state
    by (intro command_intros a; simp add: a at_ok_frames)
qed

lemma StateControl_custom_ok:
  assumes "ext_ok ext" and a: "at_ok m0 m"
  shows "step_ok m0 (StateControl_custom ext chr m)"
proof (cases "String_toupper chr = CHR ''C''")
  case True
  with assms show ?thesis by (simp add: StateControl_custom_def ext_custom_ok)
next
  case False
  then have "StateControl_custom ext chr m = some_state
          (let c = String_toupper chr in
           if c = CHR ''O'' then
             BEGIN_EXEC start m (\<lambda>m. Inr (start, expr_upd (\<lambda>e. e\<lparr>radix := 8\<rparr>) m))
           else if c = CHR ''D'' then
             BEGIN_EXEC start m (\<lambda>m. Inr (start, expr_upd (\<lambda>e. e\<lparr>radix := 10\<rparr>) m))
           else if c = CHR ''R'' then
             BEGIN_EXEC start m (\<lambda>m.
               bind (expr_do eval m) (\<lambda>m1.
                 if args (expressions m1) = 0
                 then Inr (start, expr_upd (push (radix (expressions m1))) m1)
                 else bind (expr_pop pop_num_calc_sign m1) (\<lambda>(v, m2).
                        Inr (start, expr_upd (\<lambda>e. e\<lparr>radix := v\<rparr>) m2))))
           else if c = CHR ''_'' then
             BEGIN_EXEC start m (\<lambda>m.
               bind (expr_pop pop_num_calc_sign m) (\<lambda>(v, m1).
                 Inr (start, expr_upd (push (not v)) m1)))
           else if c = CHR ''*'' then calc_command OP_POW m
           else if c = CHR ''/'' then calc_command OP_MOD m
           else if c = CHR ''#'' then calc_command OP_XOR m
           else Inl (Error ''Unsupported command'', m))"
    by (simp add: StateControl_custom_def Let_def)
  then show ?thesis
    unfolding Let_def
    by (simp only: step_ok_some_state) (intro command_intros a; simp add: a at_ok_frames)
qed

lemma StateStart_custom_ok:
  assumes "ext_ok ext" and a: "at_ok m0 m"
  shows "step_ok m0 (StateStart_custom ext chr m)"
  unfolding StateStart_custom_def
  by (intro step_ok_if; simp add: step_ok_get_next_state StateControl_custom_ok
        StateStart_command_ok step_ok_BEGIN_EXEC assms)

lemma StateASCII_custom_ok: "at_ok m0 m \<Longrightarrow> step_ok m0 (StateASCII_custom chr m)"
  by (simp add: StateASCII_custom_def step_ok_BEGIN_EXEC)

lemma StateEscape_custom_ok:
  assumes "ext_ok ext" and a: "at_ok m0 m"
  shows "step_ok m0 (StateEscape_custom ext chr m)"
proof -
  have r: "step_ok m0 (bind (expr_do eval (m1\<lparr>current := start\<rparr>)) (\<lambda>m2.
                  Inl (Return (args (expressions m2)), m2)))" if "at_ok m0 m1" for m1
  proof (cases "eval (expressions m1)")
    case (Inl x)
    with that show ?thesis by (simp add: expr_do_def bind_def at_ok_frames)
  next
    case (Inr e)
    with that show ?thesis by (simp add: expr_do_def bind_def at_ok_frames)
  qed
  have d: "step_ok0 m0 (if mode m = MODE_NORMAL then expr_do discard_args m else Inr m)"
    using a by (rule step_ok0_if_expr_do)
  show ?thesis
    unfolding StateEscape_custom_def
    apply (rule step_ok_if)
     apply (simp only: step_ok_some_state, rule step_ok_BEGIN_EXEC [OF a], rule r [OF a])
    apply (rule step_ok_bind0 [OF d])
    apply (simp add: step_ok_get_next_state StateStart_custom_ok assms(1))
    done
qed

lemma cond_value_ok: "at_ok m0 m \<Longrightarrow> step_ok m0 (cond_value chr m)"
  unfolding cond_value_def
  by (intro command_intros; simp add: at_ok_frames)

lemma StateCondCommand_custom_ok: "at_ok m0 m \<Longrightarrow> step_ok m0 (StateCondCommand_custom chr m)"
  unfolding StateCondCommand_custom_def step_ok_some_state
  by (rule step_ok_bindp, erule cond_value_ok)
     (simp add: step_ok_BEGIN_EXEC at_ok_frames split: option.splits)

lemma at_ok_cong:
  "loop_stack m' = loop_stack m \<and> loop_stack_fp m' = loop_stack_fp m \<and> current m' = current m
   \<Longrightarrow> at_ok m0 m' = at_ok m0 m"
  by (simp add: at_ok_def frames_kept_def fp_ok_def)

lemma get_document_frames:
  "loop_stack (snd (get_document r m)) = loop_stack m
   \<and> loop_stack_fp (snd (get_document r m)) = loop_stack_fp m
   \<and> current (snd (get_document r m)) = current m"
  by (simp add: get_document_def SCI_CREATEDOCUMENT_def Let_def split: option.splits)

lemma QRegister_edit_frames:
  "loop_stack (QRegister_edit r m) = loop_stack m
   \<and> loop_stack_fp (QRegister_edit r m) = loop_stack_fp m
   \<and> current (QRegister_edit r m) = current m"
  by (simp add: QRegister_edit_def QRegisterData_edit_def case_prod_beta get_document_frames)

lemma current_save_dot_frames:
  "loop_stack (current_save_dot m) = loop_stack m
   \<and> loop_stack_fp (current_save_dot m) = loop_stack_fp m
   \<and> current (current_save_dot m) = current m"
  by (simp add: current_save_dot_def Let_def split: option.splits)

lemma current_edit_frames:
  "loop_stack (current_edit m) = loop_stack m
   \<and> loop_stack_fp (current_edit m) = loop_stack_fp m
   \<and> current (current_edit m) = current m"
  by (simp add: current_edit_def Buffer_edit_def QRegister_edit_frames split: option.splits)

lemma get_string_frames:
  "loop_stack (snd (get_string r m)) = loop_stack m
   \<and> loop_stack_fp (snd (get_string r m)) = loop_stack_fp m
   \<and> current (snd (get_string r m)) = current m"
  by (simp add: get_string_def Let_def current_edit_frames QRegister_edit_frames
      current_save_dot_frames)

lemma at_ok_get_string [simp]: "at_ok m0 (snd (get_string r m)) = at_ok m0 m"
  by (rule at_ok_cong) (rule get_string_frames)

lemma StateMacro_custom_ok:
  assumes ext: "ext_ok ext"
    and call: "\<And>mac locals m r. call mac locals m = Some r \<Longrightarrow> step_ok0 m r"
    and a: "at_ok m0 m"
    and r: "StateMacro_custom ext call chr m = Some r"
  shows "step_ok m0 r"
proof (cases "chr = CHR ''.'' \<or> chr = CHR ''#'' \<or> chr = CHR ''*''")
  case True
  with r have "r = ext_custom ext macro chr m" by (simp add: StateMacro_custom_def)
  with ext a show ?thesis by (simp add: ext_custom_ok)
next
  case False
  note chr = this
  show ?thesis
  proof (cases "mode m \<noteq> MODE_NORMAL")
    case True
    with chr r a show ?thesis by (auto simp: StateMacro_custom_def)
  next
    case False
    define m1 where "m1 = snd (get_string [String_toupper chr] (snd (eval_colon m)))"
    define str where "str = fst (get_string [String_toupper chr] (snd (eval_colon m)))"
    have m1: "at_ok m0 m1" using a by (simp add: m1_def)
    from chr False r obtain r' where c: "call str (\<not> fst (eval_colon m)) m1 = Some r'"
      and r': "r = (case r' of Inl x \<Rightarrow> Inl x | Inr m2 \<Rightarrow> Inr (Some start, m2))"
      by (auto simp: StateMacro_custom_def QRegister_execute_def case_prod_beta m1_def str_def
          split: option.splits sum.splits)
    from step_ok0_trans [OF m1 call [OF c]] show ?thesis
      unfolding r' by (cases r') (auto simp: step_ok0_def step_ok_def)
  qed
qed

lemma State_custom_ok:
  assumes ext: "ext_ok ext"
    and call: "\<And>mac locals m r. call mac locals m = Some r \<Longrightarrow> step_ok0 m r"
    and a: "at_ok m0 m"
    and r: "State_custom ext call st chr m = Some r"
  shows "step_ok m0 r"
proof (cases "st = macro")
  case True
  with r have "StateMacro_custom ext call chr m = Some r" by (simp add: State_custom_def)
  from StateMacro_custom_ok [OF ext call a this] show ?thesis .
next
  case False
  with r ext a show ?thesis
    by (auto simp: State_custom_def StateStart_custom_ok StateControl_custom_ok
        StateASCII_custom_ok StateEscape_custom_ok StateFCommand_custom_ok
        StateCondCommand_custom_ok ext_custom_ok split: if_splits)
qed

lemma State_get_next_state_ok:
  assumes ext: "ext_ok ext"
    and call: "\<And>mac locals m r. call mac locals m = Some r \<Longrightarrow> step_ok0 m r"
    and a: "at_ok m0 m"
    and r: "State_get_next_state (transitions ext) (State_custom ext call) st chr m = Some r"
  shows "step_ok m0 r"
proof (cases "lookup_transition (transitions ext st) chr")
  case None
  with r obtain r' where c: "State_custom ext call st chr m = Some r'"
    and r': "r = check_custom chr r'"
    by (auto simp: State_get_next_state_def)
  from State_custom_ok [OF ext call a c] show ?thesis
    unfolding r' by (rule step_ok_check_custom)
next
  case (Some nx)
  with r a show ?thesis by (auto simp: State_get_next_state_def)
qed

lemma input_loop_ok:
  assumes ns: "\<And>st chr m r. next_state st chr m = Some r \<Longrightarrow> at_ok m0 m \<Longrightarrow> step_ok m0 r"
  shows "input_loop n next_state st chr m = Some r \<Longrightarrow> at_ok m0 m \<Longrightarrow> step_ok m0 r"
proof (induction n arbitrary: st chr m)
  case 0
  then show ?case by simp
next
  case (Suc n)
  from Suc.prems(1) obtain r1 where r1: "next_state st chr m = Some r1"
    by (cases "next_state st chr m") auto
  from ns [OF r1 Suc.prems(2)] have ok: "step_ok m0 r1" .
  show ?case
  proof (cases r1)
    case (Inl x)
    with Suc.prems(1) r1 ok show ?thesis by auto
  next
    case (Inr p)
    obtain nx m' where p: "p = (nx, m')" by (cases p)
    with Inr ok have m': "at_ok m0 m'" by simp
    show ?thesis
    proof (cases "nx = st")
      case True
      with Suc.prems(1) r1 Inr p m' show ?thesis by auto
    next
      case False
      with Suc.prems(1) r1 Inr p have "input_loop n next_state nx (CHR 0x00) m' = Some r"
        by simp
      from Suc.IH [OF this m'] show ?thesis .
    qed
  qed
qed

lemma run_ok_simps [simp]:
  "run_ok m0 (Inr m) = frames_kept m0 m"
  "run_ok m0 (Inl (x, m)) = frames_kept m0 m"
  by (simp_all add: run_ok_def)

lemma step_ok0_run_ok: "step_ok0 m0 r \<Longrightarrow> run_ok m0 r"
proof (cases r)
  case (Inl a)
  assume "step_ok0 m0 r"
  with Inl show ?thesis by (cases a) simp
next
  case (Inr m1)
  assume "step_ok0 m0 r"
  with Inr show ?thesis by (simp add: at_ok_frames)
qed

lemma run_ok_trans:
  assumes "frames_kept m0 m1" and "run_ok m1 r"
  shows "run_ok m0 r"
proof (cases r)
  case (Inl a)
  with assms show ?thesis by (cases a) (auto intro: frames_kept_trans)
next
  case (Inr m2)
  with assms show ?thesis by (auto intro: frames_kept_trans)
qed

lemma State_input_result:
  assumes ns: "\<And>st chr m1 r. next_state st chr m1 = Some r \<Longrightarrow> at_ok m m1 \<Longrightarrow> step_ok m r"
    and run: "State_input n next_state chr m = Some r"
  shows "(\<forall>x mh. r = Inl (x, mh) \<longrightarrow>
            input_loop n next_state (current m) chr m = Some (Inl (x, mh)) \<and> frames_kept m mh)
       \<and> (\<forall>m'. r = Inr m' \<longrightarrow>
            (\<exists>st mh. input_loop n next_state (current m) chr m = Some (Inr (st, mh))
                \<and> at_ok m mh
                \<and> m' = (if st \<noteq> current m
                         then (undo_push_m (UndoVarState (current m)) mh)\<lparr>current := st\<rparr>
                         else mh)))"
proof -
  from run obtain r1 where r1: "input_loop n next_state (current m) chr m = Some r1"
    by (cases "input_loop n next_state (current m) chr m") (auto simp: State_input_def)
  from input_loop_ok [of next_state m, OF ns r1] have ok: "step_ok m r1" by simp
  show ?thesis
  proof (cases r1)
    case (Inl a)
    obtain x mh where a: "a = (x, mh)" by (cases a)
    with Inl ok run r1 show ?thesis by (auto simp: State_input_def)
  next
    case (Inr p)
    obtain st mh where p: "p = (st, mh)" by (cases p)
    with Inr ok have mh: "at_ok m mh" by simp
    then have "current mh = current m" by (simp add: at_ok_def)
    with Inr p run r1 mh show ?thesis by (auto simp: State_input_def)
  qed
qed

lemma State_input_ok:
  assumes ns: "\<And>st chr m1 r. next_state st chr m1 = Some r \<Longrightarrow> at_ok m m1 \<Longrightarrow> step_ok m r"
    and run: "State_input n next_state chr m = Some r"
  shows "run_ok m r"
proof -
  from run obtain r1 where r1: "input_loop n next_state (current m) chr m = Some r1"
    by (cases "input_loop n next_state (current m) chr m") (auto simp: State_input_def)
  from input_loop_ok [of next_state m, OF ns r1] have ok: "step_ok m r1" by simp
  show ?thesis
  proof (cases r1)
    case (Inl a)
    obtain x mh where a: "a = (x, mh)" by (cases a)
    with Inl ok run r1 show ?thesis by (auto simp: State_input_def)
  next
    case (Inr p)
    obtain st mh where p: "p = (st, mh)" by (cases p)
    with Inr ok have mh: "at_ok m mh" by simp
    with Inr p run r1 show ?thesis by (auto simp: State_input_def at_ok_frames)
  qed
qed

lemma Execute_char_ok:
  assumes ext: "ext_ok ext"
    and call: "\<And>mac locals m r. call mac locals m = Some r \<Longrightarrow> step_ok0 m r"
    and run: "Execute_char call n ext mac m = Some r"
  shows "run_ok m r"
proof (cases "interrupted m")
  case True
  with run show ?thesis by (auto simp: Execute_char_def)
next
  case False
  let ?ns = "State_get_next_state (transitions ext) (State_custom ext call)"
  from False run obtain r1 where
    r1: "State_input n ?ns (mac ! nat (macro_pc m)) m = Some r1"
    and r: "r = (case r1 of Inl x \<Rightarrow> Inl x | Inr m' \<Rightarrow> Inr (m'\<lparr>macro_pc := macro_pc m' + 1\<rparr>))"
    by (auto simp: Execute_char_def split: if_splits option.splits sum.splits)
  have "run_ok m r1"
    by (rule State_input_ok [OF _ r1]) (rule State_get_next_state_ok [OF ext call])
  then show ?thesis
    unfolding r
  proof (cases r1)
    case (Inl a)
    assume "run_ok m r1"
    with Inl show "run_ok m (case r1 of Inl x \<Rightarrow> Inl x
                              | Inr m' \<Rightarrow> Inr (m'\<lparr>macro_pc := macro_pc m' + 1\<rparr>))"
      by simp
  next
    case (Inr m')
    assume "run_ok m r1"
    with Inr show "run_ok m (case r1 of Inl x \<Rightarrow> Inl x
                              | Inr m' \<Rightarrow> Inr (m'\<lparr>macro_pc := macro_pc m' + 1\<rparr>))"
      by simp
  qed
qed

lemma entry_frames:
  "frames_kept (macro_entry m) m2
   = (loop_stack_fp m2 = length (loop_stack m) \<and> length (loop_stack m) \<le> length (loop_stack m2))"
  by (auto simp: frames_kept_def fp_ok_def macro_entry_def undo_push_m_def)

lemma keeps_frames0_simps [simp]:
  "keeps_frames0 m (Inr m') = (loop_stack m' = loop_stack m \<and> loop_stack_fp m' = loop_stack_fp m
                               \<and> current m' = current m)"
  "keeps_frames0 m (Inl (x, m')) = (loop_stack m' = loop_stack m
                                    \<and> loop_stack_fp m' = loop_stack_fp m)"
  by (simp_all add: keeps_frames0_def)

lemma keeps_expr_do: "keeps_frames0 m (expr_do f m)"
  by (cases "f (expressions m)") (simp_all add: expr_do_def)

lemma State_end_of_macro_keeps: "ext_ok ext \<Longrightarrow> keeps_frames0 m (State_end_of_macro ext st m)"
  by (simp add: State_end_of_macro_def keeps_expr_do ext_ok_def)

lemma macro_checks_keeps:
  assumes ext: "ext_ok ext"
  shows "keeps_frames0 m (macro_checks ext locals m)"
proof (cases "skip_label m \<noteq> None")
  case True
  then show ?thesis by (simp add: macro_checks_def)
next
  case False
  show ?thesis
  proof (cases "State_end_of_macro ext (current m) m")
    case (Inl a)
    with State_end_of_macro_keeps [OF ext, of m "current m"] False show ?thesis
      by (cases a) (simp add: macro_checks_def bind_def)
  next
    case (Inr m1)
    with State_end_of_macro_keeps [OF ext, of m "current m"]
    have m1: "loop_stack m1 = loop_stack m" "loop_stack_fp m1 = loop_stack_fp m"
      "current m1 = current m" by simp_all
    from ext have k: "keeps_frames0 m1 (ext_locals_clear ext m1)" by (simp add: ext_ok_def)
    have "keeps_frames0 m (ext_locals_clear ext m1)"
    proof (cases "ext_locals_clear ext m1")
      case (Inl a)
      with k m1 show ?thesis by (cases a) simp
    next
      case (Inr m2)
      with k m1 show ?thesis by simp
    qed
    with Inr False m1 show ?thesis by (simp add: macro_checks_def bind_def)
  qed
qed

lemma macro_exit_Inr:
  assumes ext: "ext_ok ext"
    and fp: "loop_stack_fp m2 = length (loop_stack m)"
    and len: "length (loop_stack m) \<le> length (loop_stack m2)"
    and r: "r = macro_exit ext locals (current m) (macro_pc m) (loop_stack_fp m) bl (Inr m2)"
  shows "step_ok0 m r
       \<and> (\<forall>m'. r = Inr m' \<longrightarrow> length (loop_stack m') = length (loop_stack m))
       \<and> (\<forall>x m'. r = Inl (x, m') \<longrightarrow> length (loop_stack m) \<le> length (loop_stack m'))"
proof (cases "length (loop_stack m2) > loop_stack_fp m2")
  case True
  with r fp len show ?thesis
    by (auto simp: macro_exit_def Let_def frames_kept_def fp_ok_def)
next
  case False
  with fp len have eq: "length (loop_stack m2) = length (loop_stack m)" by simp
  show ?thesis
  proof (cases "macro_checks ext locals m2")
    case (Inl a)
    obtain x m3 where a: "a = (x, m3)" by (cases a)
    with Inl macro_checks_keeps [OF ext, of m2 locals]
    have "loop_stack m3 = loop_stack m2" by simp
    with Inl a False r eq show ?thesis
      by (auto simp: macro_exit_def Let_def frames_kept_def fp_ok_def)
  next
    case (Inr m3)
    with macro_checks_keeps [OF ext, of m2 locals]
    have "loop_stack m3 = loop_stack m2" by simp
    with Inr False r eq show ?thesis
      by (auto simp: macro_exit_def Let_def at_ok_def frames_kept_def fp_ok_def)
  qed
qed

lemma LoopStack_clear_length:
  "keep \<le> length frames \<Longrightarrow> length (LoopStack_clear keep frames) = keep"
  by (simp add: LoopStack_clear_def)

lemma macro_exit_ok:
  assumes ext: "ext_ok ext"
    and r1: "run_ok (macro_entry m) r1"
    and r: "r = macro_exit ext locals (current m) (macro_pc m) (loop_stack_fp m) bl r1"
  shows "step_ok0 m r
       \<and> (\<forall>m'. r = Inr m' \<longrightarrow> length (loop_stack m') = length (loop_stack m))
       \<and> (\<forall>x m'. r = Inl (x, m') \<longrightarrow> length (loop_stack m) \<le> length (loop_stack m'))"
proof (cases r1)
  case (Inr m2)
  with r1 have "loop_stack_fp m2 = length (loop_stack m)"
    "length (loop_stack m) \<le> length (loop_stack m2)"
    by (simp_all add: entry_frames)
  from macro_exit_Inr [OF ext this] r Inr show ?thesis by simp
next
  case (Inl a)
  obtain x m2 where a: "a = (x, m2)" by (cases a)
  with Inl r1 have m2: "loop_stack_fp m2 = length (loop_stack m)"
    "length (loop_stack m) \<le> length (loop_stack m2)"
    by (simp_all add: entry_frames)
  show ?thesis
  proof (cases "\<exists>n. x = Return n")
    case True
    then obtain n where x: "x = Return n" by auto
    define m2' where
      "m2' = (expr_upd (brace_return bl n) m2)
               \<lparr>loop_stack := LoopStack_clear (loop_stack_fp m2) (loop_stack m2)\<rparr>"
    have m2': "loop_stack_fp m2' = length (loop_stack m)"
      "length (loop_stack m) \<le> length (loop_stack m2')"
      using m2 by (simp_all add: m2'_def LoopStack_clear_length)
    have "r = macro_exit ext locals (current m) (macro_pc m) (loop_stack_fp m) bl (Inr m2')"
      using r Inl a x by (simp add: macro_exit_def m2'_def)
    from macro_exit_Inr [OF ext m2' this] show ?thesis .
  next
    case False
    then have "r = Inl (x, m2\<lparr>skip_label := None, loop_stack_fp := loop_stack_fp m,
                               macro_pc := macro_pc m, current := current m\<rparr>)"
      using r Inl a by (cases x) (simp_all add: macro_exit_def)
    with m2 show ?thesis by (simp add: frames_kept_def fp_ok_def)
  qed
qed

lemma State_refresh_ok: "ext_ok ext \<Longrightarrow> step_ok0 m (State_refresh ext st m)"
  by (simp add: State_refresh_def ext_refresh_ok)

lemma Execute_ok:
  assumes ext: "ext_ok ext"
  shows "(\<forall>mac locals m r. Execute_macro n ext mac locals m = Some r \<longrightarrow> step_ok0 m r)
       \<and> (\<forall>mac stop_pos m r. Execute_step n ext mac stop_pos m = Some r \<longrightarrow> run_ok m r)"
proof (induction n)
  case 0
  show ?case by simp
next
  case (Suc n)
  from Suc have call: "\<And>mac locals m r. Execute_macro n ext mac locals m = Some r \<Longrightarrow> step_ok0 m r"
    and step: "\<And>mac stop_pos m r. Execute_step n ext mac stop_pos m = Some r \<Longrightarrow> run_ok m r"
    by blast+
  have a: "step_ok0 m r" if run: "Execute_macro (Suc n) ext mac locals m = Some r"
    for mac locals m r
  proof -
    from run obtain r1 where r1: "Execute_step n ext mac (int (length mac)) (macro_entry m) = Some r1"
      and r: "r = macro_exit ext locals (current m) (macro_pc m) (loop_stack_fp m)
                    (brace_level (expressions m)) r1"
      by (auto split: option.splits)
    from macro_exit_ok [OF ext step [OF r1] r] show ?thesis by simp
  qed
  have b: "run_ok m r" if run: "Execute_step (Suc n) ext mac stop_pos m = Some r"
    for mac stop_pos m r
  proof (cases "macro_pc m < stop_pos")
    case False
    with run have "r = State_refresh ext (current m) m" by simp
    with State_refresh_ok [OF ext, of m "current m"] show ?thesis
      by (simp add: step_ok0_run_ok)
  next
    case True
    with run obtain r1 where r1: "Execute_char (Execute_macro n ext) n ext mac m = Some r1"
      by (auto split: option.splits)
    from Execute_char_ok [OF ext call r1] have ok: "run_ok m r1" .
    show ?thesis
    proof (cases r1)
      case (Inl x)
      with run True r1 ok show ?thesis by auto
    next
      case (Inr m')
      with run True r1 have "Execute_step n ext mac stop_pos m' = Some r" by simp
      from step [OF this] Inr ok show ?thesis by (auto intro: run_ok_trans)
    qed
  qed
  from a b show ?case by blast
qed

lemma reaches_frames:
  assumes ext: "ext_ok ext"
  shows "reaches ext mac stop_pos m0 m1 \<Longrightarrow> frames_kept m0 m1"
proof (induction rule: reaches.induct)
  case reaches_start
  show ?case by simp
next
  case (reaches_char m n m')
  from Execute_ok [OF ext, of n]
  have call: "\<And>mac locals m r. Execute_macro n ext mac locals m = Some r \<Longrightarrow> step_ok0 m r"
    by blast
  from Execute_char_ok [OF ext call reaches_char.hyps(3)] have "frames_kept m m'" by simp
  with reaches_char.IH show ?case by (rule frames_kept_trans)
qed

lemma chars_run_reaches:
  "chars_run k n ext mac m0 = Some m1 \<Longrightarrow> reaches ext mac (int (length mac)) m0 m1"
proof (induction k arbitrary: m1)
  case 0
  then show ?case by (simp add: reaches_start)
next
  case (Suc k)
  from Suc.prems obtain m where m: "chars_run k n ext mac m0 = Some m"
    and pc: "macro_pc m < int (length mac)"
    and c: "Execute_char (Execute_macro n ext) n ext mac m = Some (Inr m1)"
    by (auto split: option.splits if_splits sum.splits)
  from reaches_char [OF Suc.IH [OF m] pc c] show ?case .
qed


subsection \<open>The loop frames of a macro invocation\<close>

lemma no_externals_ok: "ext_ok no_externals"
  by (simp add: ext_ok_def no_externals_def)

text \<open>
  C5: while the macro \<open>mac\<close> executes from the state \<open>m\<close> (in every state that the
  loop of \<^verbatim>\<open>Execute::step\<close> passes through), the frame pointer is the number of frames
  that the loop stack held at the macro's entry, and the loop stack holds at least as
  many frames. When the macro returns, the loop stack holds exactly that number of
  frames again, and the frame pointer is the caller's; when it ends with an error, the
  frames are still at least as many. Of the commands and states that the parameters
  stand for, it is assumed that they keep the frame pointer, which is static in
  parser.cpp, and pop no frame below it (\<open>ext_ok\<close>).
\<close>

theorem macro_frames:
  assumes "ext_ok ext"
  shows "(\<forall>m1. reaches ext mac (int (length mac)) (macro_entry m) m1 \<longrightarrow>
            loop_stack_fp m1 = length (loop_stack m)
            \<and> loop_stack_fp m1 \<le> length (loop_stack m1))
       \<and> (\<forall>m'. Execute_macro n ext mac locals m = Some (Inr m') \<longrightarrow>
            length (loop_stack m') = length (loop_stack m)
            \<and> loop_stack_fp m' = loop_stack_fp m)
       \<and> (\<forall>x m'. Execute_macro n ext mac locals m = Some (Inl (x, m')) \<longrightarrow>
            length (loop_stack m) \<le> length (loop_stack m')
            \<and> loop_stack_fp m' = loop_stack_fp m)"
proof -
  have a: "loop_stack_fp m1 = length (loop_stack m) \<and> loop_stack_fp m1 \<le> length (loop_stack m1)"
    if "reaches ext mac (int (length mac)) (macro_entry m) m1" for m1
    using reaches_frames [OF assms that] by (simp add: entry_frames)
  have b: "step_ok0 m r
       \<and> (\<forall>m'. r = Inr m' \<longrightarrow> length (loop_stack m') = length (loop_stack m))
       \<and> (\<forall>x m'. r = Inl (x, m') \<longrightarrow> length (loop_stack m) \<le> length (loop_stack m'))"
    if run: "Execute_macro n ext mac locals m = Some r" for r
  proof (cases n)
    case 0
    with run show ?thesis by simp
  next
    case (Suc k)
    with run obtain r1 where
      r1: "Execute_step k ext mac (int (length mac)) (macro_entry m) = Some r1"
      and r: "r = macro_exit ext locals (current m) (macro_pc m) (loop_stack_fp m)
                    (brace_level (expressions m)) r1"
      by (auto split: option.splits)
    from Execute_ok [OF assms, of k] r1 have "run_ok (macro_entry m) r1" by blast
    from macro_exit_ok [OF assms this r] show ?thesis .
  qed
  have c: "length (loop_stack m') = length (loop_stack m) \<and> loop_stack_fp m' = loop_stack_fp m"
    if "Execute_macro n ext mac locals m = Some (Inr m')" for m'
    using b [OF that] by (simp add: at_ok_def frames_kept_def)
  have d: "length (loop_stack m) \<le> length (loop_stack m') \<and> loop_stack_fp m' = loop_stack_fp m"
    if "Execute_macro n ext mac locals m = Some (Inl (x, m'))" for x m'
    using b [OF that] by (simp add: frames_kept_def)
  from a c d show ?thesis by blast
qed

text \<open>
  The macro \<^verbatim>\<open>2<></\<close> called from inside a loop of its caller: after two characters the loop
  stack holds the caller's frame and the frame of the macro's loop, and the macro returns
  with the caller's frame only.
\<close>

theorem macro_frames_witness:
  "ext_ok no_externals
   \<and> length (loop_stack in_callers_loop) = 1
   \<and> (\<exists>m1. reaches no_externals ''2<>'' (int (length ''2<>'')) (macro_entry in_callers_loop) m1
          \<and> length (loop_stack m1) = 2
          \<and> loop_stack_fp m1 = length (loop_stack in_callers_loop)
          \<and> loop_stack_fp m1 \<le> length (loop_stack m1))
   \<and> (\<exists>m'. Execute_macro 20 no_externals ''2<>'' False in_callers_loop = Some (Inr m')
          \<and> length (loop_stack m') = length (loop_stack in_callers_loop)
          \<and> loop_stack_fp m' = loop_stack_fp in_callers_loop)"
proof -
  have l: "length (loop_stack in_callers_loop) = 1"
    by (simp add: in_callers_loop_def)
  have "frames_of (chars_run 2 5 no_externals ''2<>'' (macro_entry in_callers_loop)) = Some (2, 1)"
    by code_simp
  then obtain m1 where m1: "chars_run 2 5 no_externals ''2<>'' (macro_entry in_callers_loop) = Some m1"
    and f: "length (loop_stack m1) = 2"
    by (auto simp: frames_of_def split: option.splits)
  have r: "reaches no_externals ''2<>'' (int (length ''2<>'')) (macro_entry in_callers_loop) m1"
    using chars_run_reaches [OF m1] .
  have "frames_of (run_result (Execute_macro 20 no_externals ''2<>'' False in_callers_loop))
        = Some (1, 1)"
    by code_simp
  then obtain m' where m': "Execute_macro 20 no_externals ''2<>'' False in_callers_loop = Some (Inr m')"
    by (auto simp: frames_of_def run_result_def split: option.splits sum.splits)
  from macro_frames [OF no_externals_ok, of "''2<>''" in_callers_loop 20 False] r m' f l
  show ?thesis using no_externals_ok by blast
qed


subsection \<open>The transition of the parser on a character\<close>



end
